(* ===== verification/Prelude.thy ===== *)
theory Prelude
  imports Main
begin

text \<open>
  Shared vocabulary of the development. Python exceptions are values of \<open>exn\<close>; a
  call that changes a state of type \<open>'w\<close> and may raise returns a value of
  \<open>('a, 'w) res\<close>: \<open>Inr (a, w')\<close> when it returns \<open>a\<close>, \<open>Inl (e, w')\<close> when it
  raises \<open>e\<close>, where \<open>w'\<close> is the state at the point of the raise (effects of the
  calls made before the raise are kept, as in Python). \<open>bindR\<close> sequences two such
  calls the way consecutive statements of a \<^verbatim>\<open>try\<close> block are sequenced.
  The Python built-ins the handlers use on strings (truthiness, \<^verbatim>\<open>str.strip\<close>,
  \<^verbatim>\<open>str(int)\<close>, \<^verbatim>\<open>int(str)\<close>) are modelled here, with their round trip.
\<close>

named_theorems model_simps "evaluation rules of the model's operations"
named_theorems inv_simps "unfolding rules of the model's invariants"

section \<open>Python exceptions and calls that may raise\<close>

datatype exn =
    ValueError string
  | TypeError string
  | AttributeError string
  | DataError string
  | OperationalError string
  | IntegrityError string
  | TaskNotFound string
  | AMQPError string
  | ConnectionError string
  | ResponseError string
  | SpawnError string

primrec str_exn :: "exn \<Rightarrow> string" where
  "str_exn (ValueError s) = s"
| "str_exn (TypeError s) = s"
| "str_exn (AttributeError s) = s"
| "str_exn (DataError s) = s"
| "str_exn (OperationalError s) = s"
| "str_exn (IntegrityError s) = s"
| "str_exn (TaskNotFound s) = s"
| "str_exn (AMQPError s) = s"
| "str_exn (ConnectionError s) = s"
| "str_exn (ResponseError s) = s"
| "str_exn (SpawnError s) = s"

type_synonym ('a, 'w) res = "(exn \<times> 'w) + ('a \<times> 'w)"

definition returnR :: "'a \<Rightarrow> 'w \<Rightarrow> ('a, 'w) res" where
  "returnR a w = Inr (a, w)"

definition raiseR :: "exn \<Rightarrow> 'w \<Rightarrow> ('a, 'w) res" where
  "raiseR e w = Inl (e, w)"

definition bindR :: "('a, 'w) res \<Rightarrow> ('a \<Rightarrow> 'w \<Rightarrow> ('b, 'w) res) \<Rightarrow> ('b, 'w) res" where
  "bindR m f = (case m of Inl ew \<Rightarrow> Inl ew | Inr (a, w) \<Rightarrow> f a w)"

text \<open>A pure computation that may raise, run at a state it does not change.\<close>

definition liftR :: "exn + 'a \<Rightarrow> 'w \<Rightarrow> ('a, 'w) res" where
  "liftR r w = (case r of Inl e \<Rightarrow> Inl (e, w) | Inr a \<Rightarrow> Inr (a, w))"

text \<open>The state a call leaves behind, whether it returned or raised.\<close>

definition res_state :: "('a, 'w) res \<Rightarrow> 'w" where
  "res_state r = (case r of Inl (_, w) \<Rightarrow> w | Inr (_, w) \<Rightarrow> w)"

section \<open>Python truthiness and string built-ins\<close>

definition quoted :: "string \<Rightarrow> string" where
  "quoted s = [CHR 0x27] @ s @ [CHR 0x27]"

text \<open>A lowercase hexadecimal digit, as \<^verbatim>\<open>repr\<close> and \<^verbatim>\<open>json.dumps\<close> write escapes.\<close>

definition hex_char :: "nat \<Rightarrow> char" where
  "hex_char d = (if d < 10 then char_of (48 + d) else char_of (87 + d))"

abbreviation bslash :: char where "bslash \<equiv> CHR 0x5C"
abbreviation dquote :: char where "dquote \<equiv> CHR 0x22"

text \<open>
  \<^verbatim>\<open>repr(s)\<close> of a string whose characters are code points below 256
  (\<^verbatim>\<open>unicode_repr\<close>): single quotes unless the string holds a single quote and no
  double quote; the quote and the backslash escaped; \<^verbatim>\<open>\t\<close>, \<^verbatim>\<open>\n\<close>, \<^verbatim>\<open>\r\<close>; the
  other non-printable characters (controls, DEL, U+0080..U+00A0, U+00AD) as \<^verbatim>\<open>\xhh\<close>.
\<close>

definition py_repr_char :: "char \<Rightarrow> char \<Rightarrow> string" where
  "py_repr_char q c =
     (let n = of_char c :: nat in
      if c = q \<or> c = bslash then [bslash, c]
      else if n = 9 then [bslash, CHR ''t'']
      else if n = 10 then [bslash, CHR ''n'']
      else if n = 13 then [bslash, CHR ''r'']
      else if n < 32 \<or> n = 127 \<or> (128 \<le> n \<and> n \<le> 160) \<or> n = 173
        then [bslash, CHR ''x'', hex_char (n div 16), hex_char (n mod 16)]
      else [c])"

definition py_repr :: "string \<Rightarrow> string" where
  "py_repr s =
     (let q = (if CHR 0x27 \<in> set s \<and> dquote \<notin> set s then dquote else CHR 0x27) in
      q # concat (map (py_repr_char q) s) @ [q])"

text \<open>\<^verbatim>\<open>if s:\<close> on an optional string: \<^verbatim>\<open>None\<close> and \<^verbatim>\<open>''\<close> are false.\<close>

definition truthy_opt :: "string option \<Rightarrow> bool" where
  "truthy_opt x = (case x of None \<Rightarrow> False | Some s \<Rightarrow> s \<noteq> [])"

text \<open>\<^verbatim>\<open>str.isspace\<close> on the code points of one byte.\<close>

definition py_isspace :: "char \<Rightarrow> bool" where
  "py_isspace c = (let n = of_char c :: nat in
     (9 \<le> n \<and> n \<le> 13) \<or> (28 \<le> n \<and> n \<le> 32) \<or> n = 133 \<or> n = 160)"

text \<open>\<^verbatim>\<open>sep.join(xs)\<close>.\<close>

fun py_join :: "string \<Rightarrow> string list \<Rightarrow> string" where
  "py_join sep [] = []"
| "py_join sep [x] = x"
| "py_join sep (x # y # ys) = x @ sep @ py_join sep (y # ys)"

definition py_strip :: "string \<Rightarrow> string" where
  "py_strip s = rev (dropWhile py_isspace (rev (dropWhile py_isspace s)))"

subsection \<open>\<^verbatim>\<open>str(n)\<close> for a natural number, and its inverse\<close>

definition digit_char :: "nat \<Rightarrow> char" where
  "digit_char d = char_of (48 + d)"

definition is_digit :: "char \<Rightarrow> bool" where
  "is_digit c = (48 \<le> (of_char c :: nat) \<and> (of_char c :: nat) \<le> 57)"

definition digit_val :: "char \<Rightarrow> nat" where
  "digit_val c = of_char c - 48"

fun nat_str :: "nat \<Rightarrow> string" where
  "nat_str n = (if n < 10 then [digit_char n] else nat_str (n div 10) @ [digit_char (n mod 10)])"

fun digits_acc :: "nat \<Rightarrow> string \<Rightarrow> nat" where
  "digits_acc acc [] = acc"
| "digits_acc acc (c # cs) = digits_acc (10 * acc + digit_val c) cs"

text \<open>Decimal digits to a number; \<open>None\<close> unless the string is a nonempty run of digits.\<close>

definition digits_nat :: "string \<Rightarrow> nat option" where
  "digits_nat s = (if s \<noteq> [] \<and> list_all is_digit s then Some (digits_acc 0 s) else None)"

subsection \<open>\<^verbatim>\<open>int(s)\<close>\<close>

text \<open>
  Python's \<^verbatim>\<open>int\<close> on a string: surrounding whitespace is ignored, one optional sign,
  then decimal digits in which single underscores may separate digits; anything else
  raises \<^verbatim>\<open>ValueError\<close>. (Non-ASCII digits, which Python also accepts, are not
  modelled.)
\<close>

fun underscores_ok :: "string \<Rightarrow> bool" where
  "underscores_ok [] = True"
| "underscores_ok [c] = (c \<noteq> CHR ''_'')"
| "underscores_ok (c # d # cs) =
     (if c = CHR ''_'' then d \<noteq> CHR ''_'' \<and> underscores_ok (d # cs) else underscores_ok (d # cs))"

definition digits_us :: "string \<Rightarrow> nat option" where
  "digits_us s =
     (if s \<noteq> [] \<and> hd s \<noteq> CHR ''_'' \<and> underscores_ok s
         \<and> list_all (\<lambda>c. is_digit c \<or> c = CHR ''_'') s
      then digits_nat (filter (\<lambda>c. c \<noteq> CHR ''_'') s) else None)"

definition int_literal :: "string \<Rightarrow> int option" where
  "int_literal t =
     (case t of
        [] \<Rightarrow> None
      | c # ds \<Rightarrow>
          (if c = CHR ''-'' then map_option (\<lambda>n. - int n) (digits_us ds)
           else if c = CHR ''+'' then map_option int (digits_us ds)
           else map_option int (digits_us t)))"

text \<open>
  CPython (3.11 and later) refuses to convert a decimal string of more than
  \<^verbatim>\<open>sys.get_int_max_str_digits()\<close> digits, 4300 by default: \<^verbatim>\<open>long_from_string_base\<close>
  counts the digits of the run of digits and underscores after the sign and raises
  this \<^verbatim>\<open>ValueError\<close> before it looks at what follows the run, so the limit is
  checked before the rest of the literal. A run with a misplaced underscore is a
  syntax error instead.
\<close>

definition max_str_digits :: nat where
  "max_str_digits = 4300"

definition int_limit_error :: "nat \<Rightarrow> exn" where
  "int_limit_error n =
     ValueError (''Exceeds the limit ('' @ nat_str max_str_digits @ '' digits) for integer string conversion: value has ''
       @ nat_str n @ '' digits; use sys.set_int_max_str_digits() to increase the limit'')"

text \<open>
  The other direction, \<^verbatim>\<open>str(i)\<close> and \<^verbatim>\<open>repr(i)\<close> (so also \<^verbatim>\<open>json.dumps\<close>), refuses an
  integer of more than 4300 decimal digits with this \<^verbatim>\<open>ValueError\<close>
  (\<^verbatim>\<open>long_to_decimal_string_internal\<close>).
\<close>

definition int_str_limit_error :: exn where
  "int_str_limit_error =
     ValueError (''Exceeds the limit ('' @ nat_str max_str_digits @ '' digits) for integer string conversion; ''
       @ ''use sys.set_int_max_str_digits() to increase the limit'')"

definition int_digit_run :: "string \<Rightarrow> string" where
  "int_digit_run t =
     takeWhile (\<lambda>c. is_digit c \<or> c = CHR ''_'')
       (case t of [] \<Rightarrow> [] | c # r \<Rightarrow> if c = CHR ''-'' \<or> c = CHR ''+'' then r else t)"

text \<open>The number of digits when the literal trips the limit, \<open>None\<close> when it does not.\<close>

definition int_over_limit :: "string \<Rightarrow> nat option" where
  "int_over_limit t =
     (let run = int_digit_run t; n = length (filter is_digit run) in
      if run \<noteq> [] \<and> hd run \<noteq> CHR ''_'' \<and> underscores_ok run \<and> max_str_digits < n then Some n else None)"

text \<open>\<^verbatim>\<open>"invalid literal for int() with base %d: %.200R"\<close>: the \<^verbatim>\<open>repr\<close> of the argument, cut at 200 characters.\<close>

definition int_invalid_msg :: "string \<Rightarrow> string" where
  "int_invalid_msg s = ''invalid literal for int() with base 10: '' @ take 200 (py_repr s)"

definition py_int :: "string \<Rightarrow> 'w \<Rightarrow> (int, 'w) res" where
  "py_int s w =
     (case int_over_limit (py_strip s) of
        Some n \<Rightarrow> raiseR (int_limit_error n) w
      | None \<Rightarrow>
          (case int_literal (py_strip s) of
             None \<Rightarrow> raiseR (ValueError (int_invalid_msg s)) w
           | Some i \<Rightarrow> returnR i w))"

definition int_str :: "int \<Rightarrow> string" where
  "int_str i = (if i < 0 then CHR ''-'' # nat_str (nat (- i)) else nat_str (nat i))"

section \<open>Lemmas: Python exceptions and calls that may raise\<close>

lemma liftR_simps [simp, model_simps]:
  "liftR (Inl e) w = Inl (e, w)" "liftR (Inr a) w = Inr (a, w)"
  by (simp_all add: liftR_def)

lemma bindR_Inl [simp, model_simps]: "bindR (Inl ew) f = Inl ew"
  by (simp add: bindR_def)

lemma bindR_Inr [simp, model_simps]: "bindR (Inr (a, w)) f = f a w"
  by (simp add: bindR_def)

lemma bindR_returnR [simp, model_simps]: "bindR (returnR a w) f = f a w"
  by (simp add: returnR_def)

lemma bindR_raiseR [simp, model_simps]: "bindR (raiseR e w) f = Inl (e, w)"
  by (simp add: raiseR_def)

lemma res_state_simps [simp, model_simps]:
  "res_state (Inl (e, w)) = w" "res_state (Inr (a, w)) = w"
  by (simp_all add: res_state_def)

lemma res_state_liftR [simp]: "res_state (liftR r w) = w"
  by (cases r) simp_all

lemma res_state_bindR_returnR [simp]: "res_state (bindR m (\<lambda>a. returnR (f a))) = res_state m"
  by (cases m) (auto simp add: returnR_def)

lemma bindR_eq_Inr:
  "bindR m f = Inr (b, w') \<longleftrightarrow> (\<exists>a w. m = Inr (a, w) \<and> f a w = Inr (b, w'))"
  by (auto simp add: bindR_def split: sum.splits)

lemma bindR_eq_Inl:
  "bindR m f = Inl (e, w') \<longleftrightarrow>
     m = Inl (e, w') \<or> (\<exists>a w. m = Inr (a, w) \<and> f a w = Inl (e, w'))"
  by (auto simp add: bindR_def split: sum.splits)

text \<open>
  A predicate kept by every call of a sequence is kept by the sequence: the rule the
  invariant proofs of the components share.
\<close>

lemma bindR_res_state_inv:
  assumes "P (res_state m)"
    and "\<And>a w. m = Inr (a, w) \<Longrightarrow> P w \<Longrightarrow> P (res_state (f a w))"
  shows "P (res_state (bindR m f))"
  using assms by (cases m) (auto simp add: bindR_def)

text \<open>
  The same for a relation between the state before and after: a transitive relation
  that every call of the sequence establishes holds across the sequence.
\<close>

lemma bindR_res_state_rel:
  assumes "R w (res_state m)"
    and "\<And>a w1. m = Inr (a, w1) \<Longrightarrow> R w1 (res_state (f a w1))"
    and "\<And>x y z. R x y \<Longrightarrow> R y z \<Longrightarrow> R x z"
  shows "R w (res_state (bindR m f))"
  using assms by (cases m) (auto simp add: bindR_def)

section \<open>Lemmas: Python truthiness and string built-ins\<close>

lemma truthy_opt_simps [simp, model_simps]:
  "truthy_opt None = False" "truthy_opt (Some s) = (s \<noteq> [])"
  by (simp_all add: truthy_opt_def)

declare nat_str.simps [simp del]

lemma digit_char_props:
  assumes "d < 10"
  shows "is_digit (digit_char d)" and "digit_val (digit_char d) = d"
  using assms by (simp_all add: digit_char_def is_digit_def digit_val_def)

lemma digit_char_numerals [simp]:
  "digit_char 0 = CHR ''0''" "digit_char 1 = CHR ''1''" "digit_char 2 = CHR ''2''"
  "digit_char 3 = CHR ''3''" "digit_char 4 = CHR ''4''" "digit_char 5 = CHR ''5''"
  "digit_char 6 = CHR ''6''" "digit_char 7 = CHR ''7''" "digit_char 8 = CHR ''8''"
  "digit_char 9 = CHR ''9''" "digit_char (Suc 0) = CHR ''1''"
  by (simp_all add: digit_char_def) code_simp+

lemma digits_acc_snoc: "digits_acc acc (xs @ [c]) = 10 * digits_acc acc xs + digit_val c"
  by (induction xs arbitrary: acc) simp_all

lemma nat_str_digits: "nat_str n \<noteq> [] \<and> list_all is_digit (nat_str n)"
proof (induction n rule: nat_str.induct)
  case (1 n)
  then show ?case
    by (cases "n < 10") (simp_all add: nat_str.simps [of n] digit_char_props)
qed

lemma digits_acc_nat_str: "digits_acc 0 (nat_str n) = n"
proof (induction n rule: nat_str.induct)
  case (1 n)
  show ?case
  proof (cases "n < 10")
    case True
    then show ?thesis by (simp add: nat_str.simps [of n] digit_char_props)
  next
    case False
    with "1.IH" show ?thesis
      by (simp add: nat_str.simps [of n] digits_acc_snoc digit_char_props)
  qed
qed

lemma digits_nat_nat_str [simp]: "digits_nat (nat_str n) = Some n"
  using nat_str_digits digits_acc_nat_str by (simp add: digits_nat_def)

lemma nat_str_inj [simp]: "nat_str m = nat_str n \<longleftrightarrow> m = n"
  by (metis digits_nat_nat_str option.inject)

lemma py_int_state: "py_int s w = Inr (i, w') \<Longrightarrow> w' = w" "res_state (py_int s w) = w"
  by (simp_all add: py_int_def returnR_def raiseR_def Let_def split: option.splits)

lemma underscores_ok_digits: "list_all is_digit s \<Longrightarrow> underscores_ok s"
  by (induction s rule: underscores_ok.induct) (auto simp add: is_digit_def)

lemma digits_us_digits: "s \<noteq> [] \<Longrightarrow> list_all is_digit s \<Longrightarrow> digits_us s = digits_nat s"
proof -
  assume ne: "s \<noteq> []" and d: "list_all is_digit s"
  then have "hd s \<noteq> CHR ''_''" by (cases s) (auto simp add: is_digit_def)
  moreover have "filter (\<lambda>c. c \<noteq> CHR ''_'') s = s"
    using d by (induction s) (auto simp add: is_digit_def)
  moreover have "list_all (\<lambda>c. is_digit c \<or> c = CHR ''_'') s"
    using d by (simp add: list_all_iff)
  ultimately show ?thesis using ne d by (simp add: digits_us_def underscores_ok_digits)
qed

lemma nat_str_hd: "hd (nat_str n) \<noteq> CHR ''-'' \<and> hd (nat_str n) \<noteq> CHR ''+''"
proof -
  have "is_digit (hd (nat_str n))"
    using nat_str_digits[of n] by (cases "nat_str n") auto
  then show ?thesis by (auto simp add: is_digit_def)
qed

lemma py_strip_digits: "list_all is_digit s \<Longrightarrow> py_strip s = s"
proof -
  assume d: "list_all is_digit s"
  have sp: "\<And>c. is_digit c \<Longrightarrow> \<not> py_isspace c"
    by (auto simp add: is_digit_def py_isspace_def Let_def)
  from d have "dropWhile py_isspace s = s"
    by (cases s) (auto simp add: sp)
  moreover from d have "dropWhile py_isspace (rev s) = rev s"
    by (cases "rev s") (auto simp add: sp list_all_iff dest: arg_cong[where f = set])
  ultimately show ?thesis by (simp add: py_strip_def)
qed

lemma py_strip_id:
  assumes "s \<noteq> []" and "\<not> py_isspace (hd s)" and "\<not> py_isspace (last s)"
  shows "py_strip s = s"
proof -
  have "dropWhile py_isspace s = s"
    using assms(1,2) by (cases s) simp_all
  moreover have "dropWhile py_isspace (rev s) = rev s"
    using assms(1,3) by (cases "rev s") (simp_all add: last_rev[symmetric] del: last_rev)
  ultimately show ?thesis by (simp add: py_strip_def)
qed

lemma digit_not_space: "is_digit c \<Longrightarrow> \<not> py_isspace c"
  by (auto simp add: is_digit_def py_isspace_def Let_def)

lemma int_str_nonempty [simp]: "int_str i \<noteq> []"
  using nat_str_digits by (simp add: int_str_def)

lemma py_strip_int_str: "py_strip (int_str i) = int_str i"
proof -
  have d: "nat_str n \<noteq> []" "list_all is_digit (nat_str n)" for n
    using nat_str_digits by simp_all
  have minus: "\<not> py_isspace (CHR ''-'')" by (simp add: py_isspace_def)
  have "\<not> py_isspace (hd (int_str i))"
    using d[of "nat i"] minus
    by (cases "nat_str (nat i)") (auto simp add: int_str_def digit_not_space)
  moreover have "is_digit (last (nat_str n))" for n
    using d[of n] last_in_set[of "nat_str n"] by (simp add: list_all_iff)
  then have "\<not> py_isspace (last (int_str i))"
    using d by (simp add: int_str_def digit_not_space)
  ultimately show ?thesis by (simp add: py_strip_id)
qed

text \<open>\<^verbatim>\<open>int(str(i)) == i\<close>: the round trip of the integer literal.\<close>

lemma int_literal_int_str: "int_literal (int_str i) = Some i"
proof (cases "i < 0")
  case True
  have "digits_us (nat_str (nat (- i))) = Some (nat (- i))"
    using nat_str_digits by (simp add: digits_us_digits)
  with True show ?thesis by (simp add: int_literal_def int_str_def)
next
  case False
  have "digits_us (nat_str (nat i)) = Some (nat i)"
    using nat_str_digits by (simp add: digits_us_digits)
  moreover obtain c cs where "nat_str (nat i) = c # cs"
    using nat_str_digits by (cases "nat_str (nat i)") auto
  moreover have "c \<noteq> CHR ''-'' \<and> c \<noteq> CHR ''+''"
    using nat_str_hd[of "nat i"] calculation(2) by simp
  ultimately show ?thesis using False by (simp add: int_literal_def int_str_def)
qed

text \<open>The digits of \<^verbatim>\<open>str(i)\<close> are the run \<^verbatim>\<open>int()\<close> counts.\<close>

lemma int_over_limit_int_str:
  "int_over_limit (int_str i) =
     (if max_str_digits < length (nat_str (nat \<bar>i\<bar>)) then Some (length (nat_str (nat \<bar>i\<bar>))) else None)"
proof -
  have d: "nat_str n \<noteq> []" "list_all is_digit (nat_str n)" for n
    using nat_str_digits by simp_all
  have run: "int_digit_run (int_str i) = nat_str (nat \<bar>i\<bar>)"
  proof (cases "i < 0")
    case True
    then show ?thesis using d[of "nat (- i)"]
      by (simp add: int_digit_run_def int_str_def takeWhile_eq_all_conv list_all_iff)
  next
    case False
    then obtain c cs where "nat_str (nat i) = c # cs" using d[of "nat i"] by (cases "nat_str (nat i)") auto
    moreover have "c \<noteq> CHR ''-'' \<and> c \<noteq> CHR ''+''" using nat_str_hd[of "nat i"] calculation by simp
    ultimately show ?thesis using False d[of "nat i"]
      by (simp add: int_digit_run_def int_str_def takeWhile_eq_all_conv list_all_iff)
  qed
  have "hd (nat_str n) \<noteq> CHR ''_''" for n
    using d[of n] by (cases "nat_str n") (auto simp add: is_digit_def)
  moreover have "filter is_digit (nat_str n) = nat_str n" for n
    using d[of n] by (simp add: list_all_iff)
  ultimately show ?thesis
    using d run by (simp add: int_over_limit_def underscores_ok_digits)
qed

text \<open>\<^verbatim>\<open>int(str(i))\<close>: \<open>i\<close> back within the digit limit, the limit's \<^verbatim>\<open>ValueError\<close> beyond it.\<close>

lemma py_int_int_str:
  "py_int (int_str i) w =
     (if max_str_digits < length (nat_str (nat \<bar>i\<bar>))
      then Inl (int_limit_error (length (nat_str (nat \<bar>i\<bar>))), w) else Inr (i, w))"
  by (simp add: py_int_def py_strip_int_str int_over_limit_int_str int_literal_int_str
      returnR_def raiseR_def)

text \<open>The decimal length of a power of ten, so that literals over the limit can be named.\<close>

lemma length_nat_str_pow10: "length (nat_str (10 ^ k)) = Suc k"
proof (induction k)
  case 0
  then show ?case by (simp add: nat_str.simps)
next
  case (Suc k)
  have "10 ^ Suc k div 10 = (10::nat) ^ k" "10 ^ Suc k mod 10 = (0::nat)" "\<not> 10 ^ Suc k < (10::nat)"
    by simp_all
  then show ?case using Suc by (simp add: nat_str.simps [of "10 ^ Suc k"] del: power_Suc)
qed

lemma nat_abs_pow10: "nat \<bar>(10::int) ^ k\<bar> = 10 ^ k"
  by (simp add: nat_power_eq)

text \<open>Literals of one digit are within the digit limit.\<close>

lemma length_nat_str_digit [simp]: "n < 10 \<Longrightarrow> length (nat_str n) = 1"
  by (simp add: nat_str.simps)

lemma max_str_digits_pos [simp]: "1 \<le> max_str_digits" "Suc 0 \<le> max_str_digits"
  by (simp_all add: max_str_digits_def)

end
