(* ===== verification/Json.thy ===== *)
theory Json
  imports Prelude
begin

text \<open>
  JSON values as the handlers see them (Python dicts, lists, strings, ints, booleans
  and \<^verbatim>\<open>None\<close>), the dictionary look-up \<^verbatim>\<open>dict.get(key, default)\<close> that the
  results handler chains, and the two serialisers the handlers call:
  \<^verbatim>\<open>json.dumps(value, default=str)\<close> (list and results handlers) and Tornado's
  \<^verbatim>\<open>tornado.escape.json_encode\<close> (task creation), which is \<^verbatim>\<open>json.dumps(value)\<close>
  without a default followed by \<^verbatim>\<open>.replace("</", "<\\/")\<close>.
  \<open>JOther s\<close> stands for a Python object that is not JSON (a \<^verbatim>\<open>datetime\<close> of a
  database row, say) whose \<^verbatim>\<open>str()\<close> is \<open>s\<close>: \<^verbatim>\<open>default=str\<close> writes it as the
  string \<open>s\<close>, and \<^verbatim>\<open>json_encode\<close> raises \<^verbatim>\<open>TypeError\<close> on it. Both serialisers raise
  CPython's \<^verbatim>\<open>ValueError\<close> on an integer of more than 4300 digits (\<open>dumps_error\<close>);
  \<open>dumps\<close> is the text they write when they do not raise.
  Floats are not modelled: no value of the handlers is one.
  A \<open>JObj\<close> lists a dict's items in insertion order; its keys are distinct, as a
  Python dict's are.
\<close>

datatype json =
    JNull
  | JBool bool
  | JInt int
  | JStr string
  | JList "json list"
  | JObj "(string \<times> json) list"
  | JOther string

section \<open>\<^verbatim>\<open>dict.get\<close>\<close>

text \<open>
  \<^verbatim>\<open>d.get(k, default)\<close>: the value at \<open>k\<close>, or the default; on a value that is not a
  dict, \<^verbatim>\<open>.get\<close> raises \<^verbatim>\<open>AttributeError\<close>.
\<close>

primrec py_type_name :: "json \<Rightarrow> string" where
  "py_type_name JNull = ''NoneType''"
| "py_type_name (JBool b) = ''bool''"
| "py_type_name (JInt i) = ''int''"
| "py_type_name (JStr s) = ''str''"
| "py_type_name (JList xs) = ''list''"
| "py_type_name (JObj kvs) = ''dict''"
| "py_type_name (JOther s) = ''object''"

definition dict_get :: "json \<Rightarrow> string \<Rightarrow> json \<Rightarrow> exn + json" where
  "dict_get d k dflt =
     (case d of
        JObj kvs \<Rightarrow> Inr (case map_of kvs k of None \<Rightarrow> dflt | Some v \<Rightarrow> v)
      | _ \<Rightarrow> Inl (AttributeError (quoted (py_type_name d) @ '' object has no attribute '' @ quoted ''get'')))"

section \<open>\<^verbatim>\<open>json.dumps\<close>\<close>


text \<open>
  One character of a string literal, as \<^verbatim>\<open>json.dumps\<close> with \<^verbatim>\<open>ensure_ascii=True\<close>
  writes it: the quote and the backslash escaped, the five short escapes, every other
  character outside space..tilde as \<^verbatim>\<open>\u00xx\<close>.
\<close>

definition json_esc_char :: "char \<Rightarrow> string" where
  "json_esc_char c =
     (let n = of_char c :: nat in
      if n = 0x22 then [bslash, dquote]
      else if n = 0x5C then [bslash, bslash]
      else if n = 0x0A then [bslash, CHR ''n'']
      else if n = 0x0D then [bslash, CHR ''r'']
      else if n = 0x09 then [bslash, CHR ''t'']
      else if n = 0x08 then [bslash, CHR ''b'']
      else if n = 0x0C then [bslash, CHR ''f'']
      else if n < 0x20 \<or> 0x7F \<le> n
        then [bslash, CHR ''u'', CHR ''0'', CHR ''0'', hex_char (n div 16), hex_char (n mod 16)]
      else [c])"

definition json_str :: "string \<Rightarrow> string" where
  "json_str s = dquote # concat (map json_esc_char s) @ [dquote]"

text \<open>\<^verbatim>\<open>json.dumps(value, default=str)\<close>, with the default separators \<^verbatim>\<open>", "\<close> and \<^verbatim>\<open>": "\<close>.\<close>

fun dumps :: "json \<Rightarrow> string" where
  "dumps JNull = ''null''"
| "dumps (JBool b) = (if b then ''true'' else ''false'')"
| "dumps (JInt i) = int_str i"
| "dumps (JStr s) = json_str s"
| "dumps (JList xs) = ''['' @ py_join '', '' (map dumps xs) @ '']''"
| "dumps (JObj kvs) =
     ''{'' @ py_join '', '' (map (\<lambda>(k, v). json_str k @ '': '' @ dumps v) kvs) @ ''}''"
| "dumps (JOther s) = json_str s"

text \<open>Whether \<^verbatim>\<open>json.dumps\<close> without a default can encode the value.\<close>

fun plain_json :: "json \<Rightarrow> bool" where
  "plain_json (JList xs) = list_all plain_json xs"
| "plain_json (JObj kvs) = list_all (\<lambda>(k, v). plain_json v) kvs"
| "plain_json (JOther s) = False"
| "plain_json _ = True"

text \<open>Whether every integer of the value has at most 4300 digits.\<close>

fun ints_fit :: "json \<Rightarrow> bool" where
  "ints_fit (JInt i) = (length (nat_str (nat \<bar>i\<bar>)) \<le> max_str_digits)"
| "ints_fit (JList xs) = list_all ints_fit xs"
| "ints_fit (JObj kvs) = list_all (\<lambda>(k, v). ints_fit v) kvs"
| "ints_fit _ = True"

text \<open>
  The exception the C encoder of \<^verbatim>\<open>json.dumps\<close> raises, if any: it walks the value in
  the order it writes it and stops at the first integer over the digit limit, or,
  without a \<^verbatim>\<open>default\<close> (\<open>dflt\<close> false), at the first object it cannot encode.
  With \<^verbatim>\<open>default=str\<close> such an object is written as its \<^verbatim>\<open>str\<close>.
\<close>

fun first_error :: "exn option list \<Rightarrow> exn option" where
  "first_error [] = None"
| "first_error (e # es) = (case e of None \<Rightarrow> first_error es | Some x \<Rightarrow> Some x)"

fun dumps_error :: "bool \<Rightarrow> json \<Rightarrow> exn option" where
  "dumps_error dflt (JInt i) =
     (if length (nat_str (nat \<bar>i\<bar>)) \<le> max_str_digits then None else Some int_str_limit_error)"
| "dumps_error dflt (JList xs) =
     first_error (map (dumps_error dflt) xs)"
| "dumps_error dflt (JObj kvs) =
     first_error (map (\<lambda>(k, v). dumps_error dflt v) kvs)"
| "dumps_error dflt (JOther s) =
     (if dflt then None else Some (TypeError ''Object of type object is not JSON serializable''))"
| "dumps_error dflt _ = None"

text \<open>\<^verbatim>\<open>json.dumps(value, default=str)\<close>, which may raise.\<close>

definition py_dumps :: "json \<Rightarrow> exn + string" where
  "py_dumps j = (case dumps_error True j of None \<Rightarrow> Inr (dumps j) | Some e \<Rightarrow> Inl e)"

text \<open>\<^verbatim>\<open>str.replace("</", "<\\/")\<close>: left to right, matches do not overlap.\<close>

fun escape_close_tag :: "string \<Rightarrow> string" where
  "escape_close_tag (c # d # cs) =
     (if c = CHR ''<'' \<and> d = CHR ''/'' then CHR ''<'' # bslash # CHR ''/'' # escape_close_tag cs
      else c # escape_close_tag (d # cs))"
| "escape_close_tag cs = cs"

definition json_encode :: "json \<Rightarrow> exn + string" where
  "json_encode j =
     (case dumps_error False j of None \<Rightarrow> Inr (escape_close_tag (dumps j)) | Some e \<Rightarrow> Inl e)"

section \<open>Lemmas: \<^verbatim>\<open>dict.get\<close>\<close>

lemma dict_get_JObj [simp, model_simps]:
  "dict_get (JObj kvs) k dflt = Inr (case map_of kvs k of None \<Rightarrow> dflt | Some v \<Rightarrow> v)"
  by (simp add: dict_get_def)

section \<open>Lemmas\<close>

text \<open>The encoder's walk fails exactly when one of the values it visits fails.\<close>

lemma first_error_None [simp]: "first_error es = None \<longleftrightarrow> (\<forall>e \<in> set es. e = None)"
  by (induction es) (auto split: option.splits)

lemma first_error_Some: "first_error es = Some x \<Longrightarrow> Some x \<in> set es"
  by (induction es) (auto split: option.splits)

lemma first_error_all:
  "\<forall>e \<in> set es. e = None \<or> e = Some x \<Longrightarrow> first_error es = None \<or> first_error es = Some x"
  by (induction es) (auto split: option.splits)

lemma dumps_error_None: "dumps_error dflt j = None \<longleftrightarrow> ints_fit j \<and> (dflt \<or> plain_json j)"
proof (induction dflt j rule: dumps_error.induct)
  case (2 dflt xs)
  then show ?case by (auto simp add: list_all_iff)
next
  case (3 dflt kvs)
  then show ?case by (fastforce simp add: list_all_iff)
qed simp_all

text \<open>With \<^verbatim>\<open>default=str\<close> the only exception is the digit limit.\<close>

lemma dumps_error_default: "dumps_error True j = None \<or> dumps_error True j = Some int_str_limit_error"
proof (induction "True" j rule: dumps_error.induct)
  case (2 xs)
  have "\<forall>e \<in> set (map (dumps_error True) xs). e = None \<or> e = Some int_str_limit_error"
    using 2 by auto
  then show ?case unfolding dumps_error.simps by (rule first_error_all)
next
  case (3 kvs)
  have "\<forall>e \<in> set (map (\<lambda>(k, v). dumps_error True v) kvs). e = None \<or> e = Some int_str_limit_error"
    using 3 by fastforce
  then show ?case unfolding dumps_error.simps by (rule first_error_all)
qed simp_all

lemma py_dumps_eq: "py_dumps j = (if ints_fit j then Inr (dumps j) else Inl int_str_limit_error)"
  using dumps_error_default[of j] dumps_error_None[of True j] by (auto simp add: py_dumps_def)

lemma json_encode_plain [simp, model_simps]:
  "plain_json j \<Longrightarrow> ints_fit j \<Longrightarrow> json_encode j = Inr (escape_close_tag (dumps j))"
  using dumps_error_None[of False j] by (simp add: json_encode_def)

lemma json_encode_Inr_iff: "(\<exists>s. json_encode j = Inr s) \<longleftrightarrow> plain_json j \<and> ints_fit j"
  using dumps_error_None[of False j] by (auto simp add: json_encode_def split: option.splits)

text \<open>
  The output of \<^verbatim>\<open>json_encode\<close> never contains \<^verbatim>\<open></\<close>, so it cannot close an
  HTML \<^verbatim>\<open><script>\<close> element it is embedded in: by computation induction on the
  replacement.
\<close>

lemma escape_close_tag_no_close: "\<not> (\<exists>xs ys. escape_close_tag s = xs @ CHR ''<'' # CHR ''/'' # ys)"
proof (induction s rule: escape_close_tag.induct)
  case (1 c d cs)
  show ?case
  proof (cases "c = CHR ''<'' \<and> d = CHR ''/''")
    case True
    with "1.IH"(1) show ?thesis
      by (auto simp add: Cons_eq_append_conv)
  next
    case False
    with "1.IH"(2) show ?thesis
      by (cases cs) (auto simp add: Cons_eq_append_conv)
  qed
qed (auto simp add: Cons_eq_append_conv)

end
