(* ===== verification/Task.thy ===== *)
theory Task
  imports Json
begin

text \<open>
  The task entity of \<^verbatim>\<open>src/server/structures/task.py\<close> (imported by
  \<^verbatim>\<open>src/server.py\<close> as \<^verbatim>\<open>TaskItem\<close> and \<^verbatim>\<open>TaskStatus\<close>; the file is not part of
  the sources, so it is modelled from the spec, sections 3 and 4.3): the three
  statuses, the item a handler creates (a fresh identifier and status \<open>PENDING\<close>),
  its JSON form \<^verbatim>\<open>as_json()\<close>, and the lifecycle \<open>PENDING \<rightarrow> SUCCESS\<close>,
  \<open>PENDING \<rightarrow> ERROR\<close> as an inductive step relation. Identifiers are drawn from a
  counter, \<open>T1, T2, ...\<close>, which is the uniqueness the spec asks of \<^verbatim>\<open>TaskItem()\<close>;
  that distinct counter values give distinct identifiers is the round trip of
  \<open>nat_str\<close>.
\<close>

datatype task_status = PENDING | SUCCESS | ERROR

primrec status_str :: "task_status \<Rightarrow> string" where
  "status_str PENDING = ''PENDING''"
| "status_str SUCCESS = ''SUCCESS''"
| "status_str ERROR = ''ERROR''"

definition terminal :: "task_status \<Rightarrow> bool" where
  "terminal st = (st = SUCCESS \<or> st = ERROR)"

record task_item =
  item_id :: string
  item_status :: task_status

definition tid_of :: "nat \<Rightarrow> string" where
  "tid_of n = CHR ''T'' # nat_str n"

text \<open>\<^verbatim>\<open>TaskItem()\<close> with the identifier counter at \<open>n\<close>.\<close>

definition new_task_item :: "nat \<Rightarrow> task_item" where
  "new_task_item n = \<lparr>item_id = tid_of n, item_status = PENDING\<rparr>"

definition task_json :: "string \<Rightarrow> task_status \<Rightarrow> json" where
  "task_json tid st = JObj [(''id'', JStr tid), (''status'', JStr (status_str st))]"

definition as_json :: "task_item \<Rightarrow> json" where
  "as_json t = task_json (item_id t) (item_status t)"

section \<open>The lifecycle\<close>

inductive lifecycle_step :: "task_status \<Rightarrow> task_status \<Rightarrow> bool" where
  complete: "lifecycle_step PENDING SUCCESS"
| fail: "lifecycle_step PENDING ERROR"

inductive_cases lifecycle_stepE: "lifecycle_step a b"

abbreviation lifecycle_steps :: "task_status \<Rightarrow> task_status \<Rightarrow> bool" where
  "lifecycle_steps \<equiv> lifecycle_step\<^sup>*\<^sup>*"

text \<open>
  The abstract lifecycle of one identifier, from before its creation (\<open>None\<close>):
  it may be created, and its status may then only move along the lifecycle. This is
  the specification the store of the system refines (\<open>System\<close>).
\<close>

definition task_evolves :: "task_status option \<Rightarrow> task_status option \<Rightarrow> bool" where
  "task_evolves a b =
     (case a of
        None \<Rightarrow> (case b of None \<Rightarrow> True | Some s' \<Rightarrow> lifecycle_steps PENDING s')
      | Some s \<Rightarrow> (case b of None \<Rightarrow> False | Some s' \<Rightarrow> lifecycle_steps s s'))"

section \<open>Lemmas\<close>

lemma status_str_inj [simp]: "status_str a = status_str b \<longleftrightarrow> a = b"
  by (cases a; cases b) simp_all

lemma status_str_PENDING_iff [simp]: "status_str st = ''PENDING'' \<longleftrightarrow> st = PENDING"
  by (cases st) simp_all

lemma terminal_simps [simp]:
  "\<not> terminal PENDING" "terminal SUCCESS" "terminal ERROR"
  by (simp_all add: terminal_def)

lemma terminal_iff_not_pending: "terminal st \<longleftrightarrow> st \<noteq> PENDING"
  by (cases st) simp_all

lemma tid_of_inj [simp]: "tid_of m = tid_of n \<longleftrightarrow> m = n"
  by (simp add: tid_of_def)

lemma plain_task_json [simp]: "plain_json (task_json tid st)"
  by (simp add: task_json_def)

lemma plain_as_json [simp]: "plain_json (as_json t)"
  by (simp add: as_json_def)

lemma ints_fit_task_json [simp]: "ints_fit (task_json tid st)"
  by (simp add: task_json_def)

lemma ints_fit_as_json [simp]: "ints_fit (as_json t)"
  by (simp add: as_json_def)

lemma lifecycle_step_from_pending: "lifecycle_step a b \<Longrightarrow> a = PENDING \<and> terminal b"
  by (auto elim: lifecycle_stepE)

lemma lifecycle_terminal_stuck: "terminal a \<Longrightarrow> \<not> lifecycle_step a b"
  by (auto elim: lifecycle_stepE)

text \<open>A terminal status is final: every run of the lifecycle from it stays there.\<close>

lemma lifecycle_steps_terminal: "lifecycle_steps a b \<Longrightarrow> terminal a \<Longrightarrow> b = a"
  by (induction rule: rtranclp_induct) (auto dest: lifecycle_terminal_stuck)

lemma lifecycle_step_iff: "lifecycle_step a b \<longleftrightarrow> a = PENDING \<and> terminal b"
  by (cases b) (auto simp add: terminal_def intro: lifecycle_step.intros elim: lifecycle_stepE)

lemma lifecycle_steps_iff: "lifecycle_steps a b \<longleftrightarrow> a = b \<or> (a = PENDING \<and> terminal b)"
proof
  assume "lifecycle_steps a b"
  then show "a = b \<or> (a = PENDING \<and> terminal b)"
    by (induction rule: rtranclp_induct) (auto simp add: lifecycle_step_iff)
next
  assume "a = b \<or> (a = PENDING \<and> terminal b)"
  then show "lifecycle_steps a b"
    by (auto simp add: lifecycle_step_iff)
qed

end
