(* ===== verification/Backend.thy ===== *)
theory Backend
  imports Task
begin

text \<open>
  The interface between the request handlers of \<^verbatim>\<open>src/server.py\<close> and the
  collaborators they call: the task store \<^verbatim>\<open>TaskCrud\<close>, the synchronous executor
  \<^verbatim>\<open>TaskSpawner\<close>, the queue client \<^verbatim>\<open>publisher\<close>, the cache client \<^verbatim>\<open>redis\<close> and
  the item constructor \<^verbatim>\<open>TaskItem()\<close> (spec, section 6). A backend over a world
  state \<open>'w\<close> gives one operation per call the handlers make; each may raise, with
  the world it leaves behind (\<open>('a, 'w) res\<close>). The handlers are defined for every
  backend, and their lemmas in \<open>Handlers\<close> hold for every backend; the
  collaborators of the spec are one backend, \<open>World.world_backend\<close>.
  The spec asks for such dependency-injected collaborators in place of the module's
  global \<^verbatim>\<open>publisher\<close> and \<^verbatim>\<open>redis\<close> (section 9); the handlers reach them through
  the backend exactly where the source names the globals.
\<close>

record 'w backend =
  make_task_item :: "'w \<Rightarrow> task_item \<times> 'w"
  create_task :: "task_item \<Rightarrow> 'w \<Rightarrow> (unit, 'w) res"
  get_task :: "string \<Rightarrow> 'w \<Rightarrow> (json, 'w) res"
  get_tasks :: "int option \<Rightarrow> 'w \<Rightarrow> (json, 'w) res"
  get_results :: "string option \<Rightarrow> 'w \<Rightarrow> (json, 'w) res"
  run_task :: "task_item \<Rightarrow> json \<Rightarrow> 'w \<Rightarrow> (unit, 'w) res"
  publish_task :: "task_item \<Rightarrow> json \<Rightarrow> 'w \<Rightarrow> (unit, 'w) res"
  process_data_events :: "'w \<Rightarrow> 'w"
  redis_get :: "string option \<Rightarrow> 'w \<Rightarrow> (string option, 'w) res"
  redis_set :: "string option \<Rightarrow> string \<Rightarrow> 'w \<Rightarrow> (unit, 'w) res"

end
