(* ===== verification/Handlers.thy ===== *)
theory Handlers
  imports Backend
begin

text \<open>
  The request handlers of \<^verbatim>\<open>src/server.py\<close>, for any backend. A handler takes the
  backend, the request and the world, and returns the response it has built and the
  world its calls left behind. A response is what Tornado's \<^verbatim>\<open>RequestHandler\<close>
  accumulates: the status code (200 unless \<^verbatim>\<open>set_status\<close> is called), the headers,
  and the chunks passed to \<^verbatim>\<open>write\<close>, in order (a dict chunk is sent as its JSON).
  Each handler is split as the source is: the body of its \<^verbatim>\<open>try\<close> block is a
  function returning \<open>('a, 'w) res\<close>, and the handler turns a raise into the error
  response of its \<^verbatim>\<open>except\<close> clause. Logging calls are not modelled.
\<close>

section \<open>Requests and responses\<close>

text \<open>
  A request body is what \<^verbatim>\<open>json_decode(self.request.body)\<close> makes of it: a JSON
  value, or bytes that do not decode, with the decoder's message.
\<close>

datatype req_body = Body json | MalformedBody string

record request =
  req_args :: "(string \<times> string) list"
  req_body :: req_body

definition json_decode :: "req_body \<Rightarrow> exn + json" where
  "json_decode b = (case b of Body j \<Rightarrow> Inr j | MalformedBody msg \<Rightarrow> Inl (ValueError msg))"

datatype chunk = ChunkStr string | ChunkDict json

record response =
  status_code :: nat
  headers :: "(string \<times> string) list"
  chunks :: "chunk list"

text \<open>
  \<^verbatim>\<open>get_argument(name, default)\<close>: the last value given for the name, with the
  control characters U+0000..U+0008 and U+000E..U+001F replaced by spaces and then
  stripped, as Tornado does; the default when the name is absent.
\<close>

definition remove_control_chars :: "string \<Rightarrow> string" where
  "remove_control_chars s =
     map (\<lambda>c. let n = of_char c :: nat in if n \<le> 8 \<or> (14 \<le> n \<and> n \<le> 31) then CHR '' '' else c) s"

definition get_argument :: "string \<Rightarrow> (string \<times> string) list \<Rightarrow> string option" where
  "get_argument name args =
     (case [v. (k, v) \<leftarrow> args, k = name] of
        [] \<Rightarrow> None
      | vs \<Rightarrow> Some (py_strip (remove_control_chars (last vs))))"

definition get_argument_or :: "string \<Rightarrow> string \<Rightarrow> (string \<times> string) list \<Rightarrow> string" where
  "get_argument_or name dflt args = (case get_argument name args of None \<Rightarrow> dflt | Some v \<Rightarrow> v)"

definition set_header :: "string \<Rightarrow> string \<Rightarrow> response \<Rightarrow> response" where
  "set_header k v r = r\<lparr>headers := (k, v) # filter (\<lambda>(k', _). k' \<noteq> k) (headers r)\<rparr>"

definition set_status :: "nat \<Rightarrow> response \<Rightarrow> response" where
  "set_status n r = r\<lparr>status_code := n\<rparr>"

text \<open>
  \<^verbatim>\<open>RequestHandler.write\<close>: a dict chunk is sent as its JSON, and Tornado then sets
  \<^verbatim>\<open>Content-Type: application/json; charset=UTF-8\<close>; a string chunk leaves the headers.
\<close>

definition dict_content_type :: string where
  "dict_content_type = ''application/json; charset=UTF-8''"

definition write_chunk :: "chunk \<Rightarrow> response \<Rightarrow> response" where
  "write_chunk c r =
     (let r' = r\<lparr>chunks := chunks r @ [c]\<rparr> in
      case c of ChunkDict _ \<Rightarrow> set_header ''Content-Type'' dict_content_type r' | ChunkStr _ \<Rightarrow> r')"

section \<open>BaseHandler\<close>

definition set_default_headers :: "response \<Rightarrow> response" where
  "set_default_headers r = set_header ''Content-Type'' ''application/json'' r"

text \<open>The response a handler starts from: status 200, the default headers, no chunk.\<close>

definition init_response :: response where
  "init_response = set_default_headers \<lparr>status_code = 200, headers = [], chunks = []\<rparr>"

text \<open>
  \<^verbatim>\<open>ServerResponse\<close> (\<^verbatim>\<open>src/server/structures/response.py\<close>, not among the sources):
  the uniform envelope of the spec, section 7, a status word and the message.
\<close>

definition server_response_success :: "string \<Rightarrow> json" where
  "server_response_success msg = JObj [(''status'', JStr ''success''), (''message'', JStr msg)]"

definition server_response_error :: "string \<Rightarrow> json" where
  "server_response_error msg = JObj [(''status'', JStr ''error''), (''message'', JStr msg)]"

definition base_success :: "string \<Rightarrow> response \<Rightarrow> response" where
  "base_success msg r = write_chunk (ChunkDict (server_response_success msg)) (set_status 200 r)"

definition base_error :: "string \<Rightarrow> response \<Rightarrow> response" where
  "base_error msg r = write_chunk (ChunkDict (server_response_error msg)) (set_status 500 r)"

text \<open>A handler's response when it writes one chunk, and when it returns \<^verbatim>\<open>self.error(msg)\<close>.\<close>

definition ok_response :: "chunk \<Rightarrow> response" where
  "ok_response c = write_chunk c init_response"

definition error_response :: "string \<Rightarrow> response" where
  "error_response msg = base_error msg init_response"

section \<open>CreateTaskHandler\<close>

datatype create_outcome = Created string | Unsupported

definition unsupported_type_msg :: "string \<Rightarrow> string" where
  "unsupported_type_msg t =
     ''Unsupported value for parameter '' @ quoted ''type'' @ '': '' @ t @ ''. ''
     @ ''Supported values: '' @ quoted ''queue'' @ '', '' @ quoted ''process''"

definition create_error_msg :: "exn \<Rightarrow> string" where
  "create_error_msg e = ''Unexpected error at task creating: '' @ str_exn e"

text \<open>\<^verbatim>\<open>response = json_encode(task.as_json())\<close>\<close>

definition encode_task :: "task_item \<Rightarrow> 'w \<Rightarrow> (create_outcome, 'w) res" where
  "encode_task task w = bindR (liftR (json_encode (as_json task)) w) (\<lambda>s. returnR (Created s))"

text \<open>The \<^verbatim>\<open>try\<close> block of \<^verbatim>\<open>CreateTaskHandler.post\<close>.\<close>

definition create_task_try ::
    "'w backend \<Rightarrow> string \<Rightarrow> req_body \<Rightarrow> 'w \<Rightarrow> (create_outcome, 'w) res" where
  "create_task_try B execution_type body w =
     bindR (liftR (json_decode body) w) (\<lambda>cases w1.
       (let (task, w2) = make_task_item B w1 in
        bindR (create_task B task w2) (\<lambda>_ w3.
          if execution_type = ''process'' then
            bindR (run_task B task cases w3) (\<lambda>_. encode_task task)
          else if execution_type = ''queue'' then
            bindR (publish_task B task cases w3) (\<lambda>_. encode_task task)
          else returnR Unsupported w3)))"

definition create_task_post :: "'w backend \<Rightarrow> request \<Rightarrow> 'w \<Rightarrow> response \<times> 'w" where
  "create_task_post B req w =
     (let execution_type = get_argument_or ''type'' ''queue'' (req_args req) in
      case create_task_try B execution_type (req_body req) w of
        Inl (e, w') \<Rightarrow> (error_response (create_error_msg e), w')
      | Inr (Unsupported, w') \<Rightarrow> (error_response (unsupported_type_msg execution_type), w')
      | Inr (Created s, w') \<Rightarrow> (ok_response (ChunkStr s), w'))"

section \<open>CreateTaskQueueHandler\<close>

definition create_task_queue_try :: "'w backend \<Rightarrow> req_body \<Rightarrow> 'w \<Rightarrow> (create_outcome, 'w) res" where
  "create_task_queue_try B body w =
     bindR (liftR (json_decode body) w) (\<lambda>cases w1.
       (let (task, w2) = make_task_item B w1 in
        bindR (create_task B task w2) (\<lambda>_ w3.
          bindR (publish_task B task cases w3) (\<lambda>_. encode_task task))))"

definition create_task_queue_post :: "'w backend \<Rightarrow> request \<Rightarrow> 'w \<Rightarrow> response \<times> 'w" where
  "create_task_queue_post B req w =
     (case create_task_queue_try B (req_body req) w of
        Inl (e, w') \<Rightarrow> (error_response (create_error_msg e), w')
      | Inr (Unsupported, w') \<Rightarrow> (error_response (unsupported_type_msg ''queue''), w')
      | Inr (Created s, w') \<Rightarrow> (ok_response (ChunkStr s), w'))"

section \<open>ListTaskHandler\<close>

text \<open>\<^verbatim>\<open>int(limit) if limit else None\<close>\<close>

definition limit_arg :: "string option \<Rightarrow> 'w \<Rightarrow> (int option, 'w) res" where
  "limit_arg limit w =
     (if truthy_opt limit then bindR (py_int (the limit) w) (\<lambda>n. returnR (Some n))
      else returnR None w)"

definition list_task_try ::
    "'w backend \<Rightarrow> string option \<Rightarrow> string option \<Rightarrow> 'w \<Rightarrow> (string, 'w) res" where
  "list_task_try B task_id limit w =
     bindR (if truthy_opt task_id then get_task B (the task_id) w
            else bindR (limit_arg limit w) (get_tasks B))
       (\<lambda>j. liftR (py_dumps j))"

definition list_error_msg :: "exn \<Rightarrow> string" where
  "list_error_msg e = ''Unexpected error at tasks listing: '' @ str_exn e"

definition list_task_get :: "'w backend \<Rightarrow> request \<Rightarrow> 'w \<Rightarrow> response \<times> 'w" where
  "list_task_get B req w =
     (let task_id = get_argument ''task_id'' (req_args req);
          limit = get_argument ''limit'' (req_args req) in
      case list_task_try B task_id limit w of
        Inl (e, w') \<Rightarrow> (error_response (list_error_msg e), w')
      | Inr (tasks, w') \<Rightarrow> (ok_response (ChunkStr tasks), w'))"

section \<open>ResultsHandler\<close>

text \<open>\<^verbatim>\<open>db_results.get("task", {}).get("status", "")\<close>\<close>

definition results_status :: "json \<Rightarrow> exn + json" where
  "results_status db =
     (case dict_get db ''task'' (JObj []) of
        Inl e \<Rightarrow> Inl e
      | Inr t \<Rightarrow> dict_get t ''status'' (JStr []))"

text \<open>
  The three ways the \<^verbatim>\<open>try\<close> block of \<^verbatim>\<open>ResultsHandler.get\<close> writes a result:
  from the cache, from the store without caching it (status \<open>PENDING\<close>), and from
  the store after saving it in the cache.
\<close>

datatype results_outcome = FromCache string | PendingResult string | SavedResult string

definition results_try :: "'w backend \<Rightarrow> string option \<Rightarrow> 'w \<Rightarrow> (results_outcome, 'w) res" where
  "results_try B task_id w =
     bindR (redis_get B task_id w) (\<lambda>redis_cache w1.
       if truthy_opt redis_cache then returnR (FromCache (the redis_cache)) w1
       else bindR (get_results B task_id w1) (\<lambda>db_results w2.
         bindR (liftR (py_dumps db_results) w2) (\<lambda>json_results w2'.
          bindR (liftR (results_status db_results) w2') (\<lambda>st w3.
            if st = JStr (status_str PENDING) then returnR (PendingResult json_results) w3
            else bindR (redis_set B task_id json_results w3)
                   (\<lambda>_. returnR (SavedResult json_results))))))"

primrec outcome_text :: "results_outcome \<Rightarrow> string" where
  "outcome_text (FromCache s) = s"
| "outcome_text (PendingResult s) = s"
| "outcome_text (SavedResult s) = s"

definition results_error_msg :: "exn \<Rightarrow> string" where
  "results_error_msg e = ''Unexpected error at getting results: '' @ str_exn e"

definition results_get :: "'w backend \<Rightarrow> request \<Rightarrow> 'w \<Rightarrow> response \<times> 'w" where
  "results_get B req w =
     (case results_try B (get_argument ''task_id'' (req_args req)) w of
        Inl (e, w') \<Rightarrow> (error_response (results_error_msg e), w')
      | Inr (out, w') \<Rightarrow> (ok_response (ChunkStr (outcome_text out)), w'))"

section \<open>HealthCheckHandler\<close>

definition health_get :: "'w backend \<Rightarrow> request \<Rightarrow> 'w \<Rightarrow> response \<times> 'w" where
  "health_get B req w = (ok_response (ChunkDict (JObj [(''status'', JStr ''up'')])), w)"

section \<open>The shape of a response\<close>

text \<open>
  The content type a response carries after writing the chunk: \<^verbatim>\<open>BaseHandler\<close>'s
  default for a string, Tornado's for a dict.
\<close>

primrec chunk_content_type :: "chunk \<Rightarrow> string" where
  "chunk_content_type (ChunkStr s) = ''application/json''"
| "chunk_content_type (ChunkDict j) = dict_content_type"

text \<open>
  The shape every handler's response has: one chunk, the JSON content type that
  chunk gets, and status 200 for a result or 500 with the error envelope.
\<close>

definition well_formed_response :: "response \<Rightarrow> bool" where
  "well_formed_response r \<longleftrightarrow>
     (\<exists>c. chunks r = [c] \<and> headers r = [(''Content-Type'', chunk_content_type c)] \<and>
        (status_code r = 200 \<or> (status_code r = 500 \<and> (\<exists>m. c = ChunkDict (server_response_error m)))))"

section \<open>Lemmas: the world a handler leaves\<close>

lemma encode_task_ok [simp, model_simps]:
  "encode_task task w = Inr (Created (escape_close_tag (dumps (as_json task))), w)"
  by (simp add: encode_task_def returnR_def)

lemma json_decode_simps [simp, model_simps]:
  "json_decode (Body j) = Inr j" "json_decode (MalformedBody m) = Inl (ValueError m)"
  by (simp_all add: json_decode_def)

text \<open>Every handler leaves the world its \<^verbatim>\<open>try\<close> block left, whether it returned or raised.\<close>

lemma create_task_post_world:
  "snd (create_task_post B req w) =
     res_state (create_task_try B (get_argument_or ''type'' ''queue'' (req_args req)) (req_body req) w)"
  by (auto simp add: create_task_post_def Let_def split: sum.splits create_outcome.splits)

lemma create_task_queue_post_world:
  "snd (create_task_queue_post B req w) = res_state (create_task_queue_try B (req_body req) w)"
  by (auto simp add: create_task_queue_post_def split: sum.splits create_outcome.splits)

lemma list_task_get_world:
  "snd (list_task_get B req w) =
     res_state (list_task_try B (get_argument ''task_id'' (req_args req))
                  (get_argument ''limit'' (req_args req)) w)"
  by (auto simp add: list_task_get_def Let_def split: sum.splits)

lemma results_get_world:
  "snd (results_get B req w) = res_state (results_try B (get_argument ''task_id'' (req_args req)) w)"
  by (auto simp add: results_get_def split: sum.splits)

lemma health_get_world: "snd (health_get B req w) = w"
  by (simp add: health_get_def)

lemmas handler_world =
  create_task_post_world create_task_queue_post_world list_task_get_world
  results_get_world health_get_world

section \<open>Lemmas: responses\<close>

lemma ok_response_simps [simp]:
  "status_code (ok_response c) = 200" "chunks (ok_response c) = [c]"
  "headers (ok_response c) = [(''Content-Type'', chunk_content_type c)]"
  by (cases c; simp add: ok_response_def write_chunk_def init_response_def set_default_headers_def
      set_header_def Let_def)+

lemma error_response_simps [simp]:
  "status_code (error_response m) = 500"
  "chunks (error_response m) = [ChunkDict (server_response_error m)]"
  "headers (error_response m) = [(''Content-Type'', dict_content_type)]"
  by (simp_all add: error_response_def base_error_def write_chunk_def set_status_def
      init_response_def set_default_headers_def set_header_def Let_def)

lemma well_formed_ok [simp]: "well_formed_response (ok_response c)"
  by (simp add: well_formed_response_def)

lemma well_formed_error [simp]: "well_formed_response (error_response m)"
  by (auto simp add: well_formed_response_def)

lemma create_task_post_response: "well_formed_response (fst (create_task_post B req w))"
  by (auto simp add: create_task_post_def Let_def split: sum.splits create_outcome.splits)

lemma create_task_queue_post_response: "well_formed_response (fst (create_task_queue_post B req w))"
  by (auto simp add: create_task_queue_post_def split: sum.splits create_outcome.splits)

lemma list_task_get_response: "well_formed_response (fst (list_task_get B req w))"
  by (auto simp add: list_task_get_def Let_def split: sum.splits)

lemma results_get_response: "well_formed_response (fst (results_get B req w))"
  by (auto simp add: results_get_def split: sum.splits)

lemma health_get_response: "well_formed_response (fst (health_get B req w))"
  by (simp add: health_get_def)

section \<open>Lemmas: arguments written in decimal\<close>

lemma remove_control_chars_int_str: "remove_control_chars (int_str i) = int_str i"
proof -
  have "is_digit c \<Longrightarrow> \<not> ((of_char c :: nat) \<le> 8 \<or> (14 \<le> (of_char c :: nat) \<and> (of_char c :: nat) \<le> 31))" for c
    by (simp add: is_digit_def)
  then have "remove_control_chars (nat_str n) = nat_str n" for n
    unfolding remove_control_chars_def Let_def using nat_str_digits[of n]
    by (intro map_idI) (auto simp add: list_all_iff)
  then show ?thesis by (simp add: int_str_def remove_control_chars_def Let_def)
qed

lemma get_argument_int_str: "get_argument k [(k, int_str i)] = Some (int_str i)"
  by (simp add: get_argument_def remove_control_chars_int_str py_strip_int_str)

lemma get_argument_other: "k \<noteq> k' \<Longrightarrow> get_argument k [(k', v)] = None"
  by (simp add: get_argument_def)

section \<open>Lemmas: the branches of task creation\<close>

lemma create_task_try_malformed:
  "create_task_try B t (MalformedBody m) w = Inl (ValueError m, w)"
  by (simp add: create_task_try_def)

lemma create_task_try_created:
  assumes "make_task_item B w = (task, w1)" and "create_task B task w1 = Inr ((), w2)"
  shows "create_task_try B t (Body cases) w =
     (if t = ''process'' then bindR (run_task B task cases w2) (\<lambda>_. encode_task task)
      else if t = ''queue'' then bindR (publish_task B task cases w2) (\<lambda>_. encode_task task)
      else Inr (Unsupported, w2))"
  using assms by (simp add: create_task_try_def returnR_def)

lemma create_task_try_create_fails:
  assumes "make_task_item B w = (task, w1)" and "create_task B task w1 = Inl (e, w2)"
  shows "create_task_try B t (Body cases) w = Inl (e, w2)"
  using assms by (simp add: create_task_try_def)

section \<open>Properties of the handlers, for every backend\<close>

text \<open>
  A creation request whose body does not decode as JSON is answered with the
  creation error (HTTP 500) and changes nothing, whatever the backend.
\<close>

lemma create_malformed_body:
  "req_body rq = MalformedBody m \<Longrightarrow>
     create_task_post B rq w = (error_response (create_error_msg (ValueError m)), w)"
  by (simp add: create_task_post_def create_task_try_malformed)

text \<open>
  C12: the results handler caches a store result exactly when its status, read as
  \<^verbatim>\<open>db_results.get("task", {}).get("status", "")  The stored result's integers have at most 4300 digits, so that \<^verbatim>\<open>dumps\<close> can
  write it.
\<close>, is not \<open>PENDING\<close>: on a cache
  miss, for every backend, a result whose status is anything else (a terminal status,
  but also no status at all) is written to the cache under the task identifier and
  returned.
\<close>

theorem results_gate_not_pending:
  assumes "redis_get B (Some t) w = Inr (None, w1)"
    and "get_results B (Some t) w1 = Inr (db, w2)"
    and "ints_fit db" and "results_status db = Inr st" and "st \<noteq> JStr ''PENDING''"
    and "redis_set B (Some t) (dumps db) w2 = Inr ((), w3)"
  shows "results_try B (Some t) w = Inr (SavedResult (dumps db), w3)"
  using assms by (simp add: results_try_def py_dumps_eq returnR_def Let_def)

lemma results_gate_pending:
  assumes "redis_get B (Some t) w = Inr (None, w1)"
    and "get_results B (Some t) w1 = Inr (db, w2)"
    and "ints_fit db" and "results_status db = Inr (JStr ''PENDING'')"
  shows "results_try B (Some t) w = Inr (PendingResult (dumps db), w2)"
  using assms by (simp add: results_try_def py_dumps_eq returnR_def Let_def)

lemma results_try_dumps_fails:
  assumes "redis_get B (Some t) w = Inr (None, w1)"
    and "get_results B (Some t) w1 = Inr (db, w2)" and "\<not> ints_fit db"
  shows "results_try B (Some t) w = Inl (int_str_limit_error, w2)"
  using assms by (simp add: results_try_def py_dumps_eq)

text \<open>
  C9: a results query that misses the cache and reads a store result holding an
  integer of more than 4300 digits is answered with the results error (HTTP 500)
  carrying CPython's \<^verbatim>\<open>str(int)\<close> digit-limit \<^verbatim>\<open>ValueError\<close>, raised by
  \<^verbatim>\<open>dumps(db_results, default=str)\<close>; the cache is not written, whatever the backend.
\<close>

theorem results_dumps_over_limit:
  assumes "get_argument ''task_id'' (req_args rq) = Some t"
    and "redis_get B (Some t) w = Inr (None, w1)"
    and "get_results B (Some t) w1 = Inr (db, w2)" and "\<not> ints_fit db"
  shows "results_get B rq w = (error_response (results_error_msg int_str_limit_error), w2)"
  using assms by (simp add: results_get_def results_try_dumps_fails)

text \<open>
  C14: every handler answers with exactly one chunk and a JSON content type, the
  one that chunk gets (\<^verbatim>\<open>application/json\<close> for a string, Tornado's
  \<^verbatim>\<open>application/json; charset=UTF-8\<close> for a dict): status 200 with its result, or
  status 500 with the error envelope.
\<close>

theorem handler_responses_well_formed:
  "well_formed_response (fst (create_task_post B rq w)) \<and>
   well_formed_response (fst (create_task_queue_post B rq w)) \<and>
   well_formed_response (fst (list_task_get B rq w)) \<and>
   well_formed_response (fst (results_get B rq w)) \<and>
   well_formed_response (fst (health_get B rq w))"
  by (simp add: create_task_post_response create_task_queue_post_response list_task_get_response
      results_get_response health_get_response)

lemma create_task_try_Created:
  "create_task_try B t body w = Inr (Created s, w') \<Longrightarrow>
     \<exists>task. s = escape_close_tag (dumps (as_json task))"
  by (auto simp add: create_task_try_def bindR_eq_Inr returnR_def split_def Let_def split: if_splits)

text \<open>
  C15: the body of a successful creation response never contains \<^verbatim>\<open></\<close>, whatever
  identifier the backend gives the task: \<^verbatim>\<open>json_encode\<close> escapes it.
\<close>

theorem create_response_no_close_tag:
  assumes "chunks (fst (create_task_post B rq w)) = [ChunkStr s]"
  shows "\<not> (\<exists>xs ys. s = xs @ CHR ''<'' # CHR ''/'' # ys)"
proof -
  obtain w' where "create_task_try B (get_argument_or ''type'' ''queue'' (req_args rq)) (req_body rq) w
      = Inr (Created s, w')"
    using assms
    by (auto simp add: create_task_post_def Let_def split: sum.splits create_outcome.splits)
  then obtain task where "s = escape_close_tag (dumps (as_json task))"
    by (blast dest: create_task_try_Created)
  then show ?thesis by (simp add: escape_close_tag_no_close)
qed

text \<open>
  C21: a listing request without \<^verbatim>\<open>task_id\<close> whose \<^verbatim>\<open>limit\<close> is not an integer
  literal is answered with the listing error carrying the \<^verbatim>\<open>ValueError\<close> of
  \<^verbatim>\<open>int()\<close>, whose text ends in the \<^verbatim>\<open>repr\<close> of the argument cut at 200 characters,
  before any collaborator is called, for every backend.
\<close>

theorem list_invalid_limit:
  assumes "get_argument ''task_id'' (req_args rq) = None"
    and "get_argument ''limit'' (req_args rq) = Some s" and "s \<noteq> []"
    and "int_over_limit (py_strip s) = None" and "int_literal (py_strip s) = None"
  shows "list_task_get B rq w =
           (error_response (list_error_msg (ValueError (int_invalid_msg s))), w)"
  using assms
  by (simp add: list_task_get_def list_task_try_def limit_arg_def py_int_def raiseR_def)

text \<open>
  C30: a listing request without \<^verbatim>\<open>task_id\<close> whose \<^verbatim>\<open>limit\<close> is an integer of more
  than 4300 digits is answered with the listing error carrying CPython's digit-limit
  \<^verbatim>\<open>ValueError\<close>, before any collaborator is called, for every backend.
\<close>

theorem list_limit_too_many_digits:
  assumes "get_argument ''task_id'' (req_args rq) = None"
    and "get_argument ''limit'' (req_args rq) = Some (int_str i)"
    and "max_str_digits < length (nat_str (nat \<bar>i\<bar>))"
  shows "list_task_get B rq w =
           (error_response (list_error_msg (int_limit_error (length (nat_str (nat \<bar>i\<bar>))))), w)"
  using assms
  by (simp add: list_task_get_def list_task_try_def limit_arg_def py_int_int_str)


end
