(* ===== verification/World.thy ===== *)
theory World
  imports Handlers
begin

text \<open>
  The collaborators of the handlers, modelled from the spec (sections 2, 3, 6 and 7)
  because their code (\<^verbatim>\<open>src/db/crud.py\<close>, \<^verbatim>\<open>src/cache/redis.py\<close>,
  \<^verbatim>\<open>src/queue/publisher.py\<close>, \<^verbatim>\<open>src/server/handlers/task_spawner.py\<close>) is not among
  the sources. The world holds
  \<^item> the Task Record Store: rows by identifier and the identifiers in creation order;
  \<^item> the identifier counter of \<^verbatim>\<open>TaskItem()\<close>;
  \<^item> the Result Cache (Redis): strings by key;
  \<^item> the Work Queue: (identifier, payload) messages in publication order;
  \<^item> the log of the calls made to the collaborators, in order, so that a property can
    say which calls a request made (the spec's store-read counter, section 8);
  \<^item> the services that are down: a call to a service that is down raises, as an
    infrastructure failure does (a cache that refuses writes only is \<open>CacheWrites\<close>);
  \<^item> what executing a payload yields: an error message or a result;
  \<^item> what the database engine does with a negative \<^verbatim>\<open>LIMIT\<close>, which the spec
    leaves open and engines answer differently: \<open>None\<close>, no bound (SQLite);
    \<open>Some e\<close>, the query raises \<open>e\<close> (PostgreSQL refuses it).
  Status updates follow the contract the spec leaves to the implementer (section 4.3):
  an update of a task that is no longer \<open>PENDING\<close> is a no-op.
\<close>

record task_row =
  row_id :: string
  row_status :: task_status
  row_result :: json

text \<open>
  \<open>CacheWrites\<close> is a cache that answers reads but refuses writes (a read-only
  replica, or a server out of memory).
\<close>

datatype service = Database | Cache | CacheWrites | Broker | Executor

datatype call =
    CallCreate string
  | CallGetTask string
  | CallGetTasks
  | CallGetResults "string option"
  | CallUpdate string task_status
  | CallRun string
  | CallPublish string
  | CallDeliver string
  | CallRedisGet "string option"
  | CallRedisSet "string option"

record world =
  store :: "string \<rightharpoonup> task_row"
  created :: "string list"
  next_id :: nat
  cache :: "string \<rightharpoonup> string"
  queue :: "(string \<times> json) list"
  calls :: "call list"
  down :: "service set"
  work :: "json \<Rightarrow> string + json"
  neg_limit :: "exn option"

definition log_call :: "call \<Rightarrow> world \<Rightarrow> world" where
  "log_call c w = w\<lparr>calls := calls w @ [c]\<rparr>"

definition row_json :: "task_row \<Rightarrow> json" where
  "row_json r = task_json (row_id r) (row_status r)"

definition results_json :: "task_row \<Rightarrow> json" where
  "results_json r = JObj [(''task'', row_json r), (''results'', row_result r)]"

definition db_down_error :: exn where
  "db_down_error = OperationalError ''could not connect to server''"

section \<open>TaskItem\<close>

definition world_task_item :: "world \<Rightarrow> task_item \<times> world" where
  "world_task_item w = (new_task_item (next_id w), w\<lparr>next_id := Suc (next_id w)\<rparr>)"

section \<open>TaskCrud: the Task Record Store\<close>

definition crud_create_task :: "task_item \<Rightarrow> world \<Rightarrow> (unit, world) res" where
  "crud_create_task t w0 =
     (let w = log_call (CallCreate (item_id t)) w0 in
      if Database \<in> down w then raiseR db_down_error w
      else if item_id t \<in> dom (store w) then raiseR (IntegrityError ''duplicate key value'') w
      else returnR ()
        (w\<lparr>store := (store w)(item_id t \<mapsto>
              \<lparr>row_id = item_id t, row_status = item_status t, row_result = JNull\<rparr>),
           created := created w @ [item_id t]\<rparr>))"

definition crud_get_task :: "string \<Rightarrow> world \<Rightarrow> (json, world) res" where
  "crud_get_task tid w0 =
     (let w = log_call (CallGetTask tid) w0 in
      if Database \<in> down w then raiseR db_down_error w
      else returnR (case store w tid of None \<Rightarrow> JNull | Some r \<Rightarrow> row_json r) w)"

text \<open>
  The rows in creation order, at most \<open>limit\<close> of them; a negative limit is passed
  to the engine, which answers as \<open>neg_limit\<close> says.
\<close>

definition crud_get_tasks :: "int option \<Rightarrow> world \<Rightarrow> (json, world) res" where
  "crud_get_tasks limit w0 =
     (let w = log_call CallGetTasks w0;
          rows = List.map_filter (store w) (created w) in
      if Database \<in> down w then raiseR db_down_error w
      else case limit of
        None \<Rightarrow> returnR (JList (map row_json rows)) w
      | Some n \<Rightarrow>
          if n < 0 then
            (case neg_limit w of
               None \<Rightarrow> returnR (JList (map row_json rows)) w
             | Some e \<Rightarrow> raiseR e w)
          else returnR (JList (map row_json (take (nat n) rows))) w)"

definition crud_get_results :: "string option \<Rightarrow> world \<Rightarrow> (json, world) res" where
  "crud_get_results tid w0 =
     (let w = log_call (CallGetResults tid) w0 in
      if Database \<in> down w then raiseR db_down_error w
      else case tid of
        None \<Rightarrow> raiseR (TaskNotFound ''Task None not found'') w
      | Some t \<Rightarrow>
          (case store w t of
             None \<Rightarrow> raiseR (TaskNotFound (''Task '' @ t @ '' not found'')) w
           | Some r \<Rightarrow> returnR (results_json r) w))"

definition crud_update_status ::
    "string \<Rightarrow> task_status \<Rightarrow> json \<Rightarrow> world \<Rightarrow> (unit, world) res" where
  "crud_update_status tid st result w0 =
     (let w = log_call (CallUpdate tid st) w0 in
      if Database \<in> down w then raiseR db_down_error w
      else case store w tid of
        None \<Rightarrow> raiseR (TaskNotFound (''Task '' @ tid @ '' not found'')) w
      | Some r \<Rightarrow>
          if row_status r = PENDING
          then returnR () (w\<lparr>store := (store w)(tid \<mapsto> r\<lparr>row_status := st, row_result := result\<rparr>)\<rparr>)
          else returnR () w)"

section \<open>Executing a payload\<close>

text \<open>
  The terminal transition of the spec, section 4.3: \<open>SUCCESS\<close> with the result when
  the work succeeds, \<open>ERROR\<close> with the message when it fails.
\<close>

definition complete_task :: "string \<Rightarrow> json \<Rightarrow> world \<Rightarrow> (unit, world) res" where
  "complete_task tid cases w =
     (case work w cases of
        Inl msg \<Rightarrow> crud_update_status tid ERROR (JStr msg) w
      | Inr result \<Rightarrow> crud_update_status tid SUCCESS result w)"

section \<open>TaskSpawner\<close>

definition spawner_run_task :: "task_item \<Rightarrow> json \<Rightarrow> world \<Rightarrow> (unit, world) res" where
  "spawner_run_task t cases w0 =
     (let w = log_call (CallRun (item_id t)) w0 in
      if Executor \<in> down w then raiseR (SpawnError ''executor unavailable'') w
      else complete_task (item_id t) cases w)"

section \<open>Publisher: the Work Queue\<close>

definition publisher_publish_task :: "task_item \<Rightarrow> json \<Rightarrow> world \<Rightarrow> (unit, world) res" where
  "publisher_publish_task t cases w0 =
     (let w = log_call (CallPublish (item_id t)) w0 in
      if Broker \<in> down w then raiseR (AMQPError ''connection closed'') w
      else returnR () (w\<lparr>queue := queue w @ [(item_id t, cases)]\<rparr>))"

text \<open>
  Delivering one queued message to the consumer, which performs the terminal
  transition; draining delivers the queued messages in order and stops at the first
  delivery that raises, leaving that message and the ones after it queued (they are
  not acknowledged).
\<close>

definition deliver :: "string \<times> json \<Rightarrow> world \<Rightarrow> (unit, world) res" where
  "deliver m w = complete_task (fst m) (snd m) (log_call (CallDeliver (fst m)) w)"

fun drain :: "(string \<times> json) list \<Rightarrow> world \<Rightarrow> world" where
  "drain [] w = w\<lparr>queue := []\<rparr>"
| "drain (m # ms) w =
     (case deliver m w of
        Inl (_, w') \<Rightarrow> w'\<lparr>queue := m # ms\<rparr>
      | Inr (_, w') \<Rightarrow> drain ms w')"

definition publisher_process_data_events :: "world \<Rightarrow> world" where
  "publisher_process_data_events w = (if Broker \<in> down w then w else drain (queue w) w)"

section \<open>RedisCache\<close>

definition redis_down_error :: exn where
  "redis_down_error = ConnectionError ''Error connecting to Redis''"

definition none_key_error :: exn where
  "none_key_error = DataError ''Invalid input of type: NoneType''"

definition cache_get :: "string option \<Rightarrow> world \<Rightarrow> (string option, world) res" where
  "cache_get key w0 =
     (let w = log_call (CallRedisGet key) w0 in
      if Cache \<in> down w then raiseR redis_down_error w
      else case key of
        None \<Rightarrow> raiseR none_key_error w
      | Some k \<Rightarrow> returnR (cache w k) w)"

definition redis_readonly_error :: exn where
  "redis_readonly_error = ResponseError (''READONLY You can'' @ [CHR 0x27] @ ''t write against a read only replica.'')"

definition cache_set :: "string option \<Rightarrow> string \<Rightarrow> world \<Rightarrow> (unit, world) res" where
  "cache_set key v w0 =
     (let w = log_call (CallRedisSet key) w0 in
      if Cache \<in> down w then raiseR redis_down_error w
      else if CacheWrites \<in> down w then raiseR redis_readonly_error w
      else case key of
        None \<Rightarrow> raiseR none_key_error w
      | Some k \<Rightarrow> returnR () (w\<lparr>cache := (cache w)(k \<mapsto> v)\<rparr>))"

section \<open>The backend\<close>

definition world_backend :: "world backend" where
  "world_backend =
     \<lparr>make_task_item = world_task_item,
      create_task = crud_create_task,
      get_task = crud_get_task,
      get_tasks = crud_get_tasks,
      get_results = crud_get_results,
      run_task = spawner_run_task,
      publish_task = publisher_publish_task,
      process_data_events = publisher_process_data_events,
      redis_get = cache_get,
      redis_set = cache_set\<rparr>"

definition init_world :: "(json \<Rightarrow> string + json) \<Rightarrow> exn option \<Rightarrow> world" where
  "init_world f e =
     \<lparr>store = Map.empty, created = [], next_id = 1, cache = Map.empty, queue = [],
      calls = [], down = {}, work = f, neg_limit = e\<rparr>"

section \<open>The invariant of the world\<close>

text \<open>
  The store: creation order without repetition and with the store's identifiers,
  each row under its own identifier, every identifier drawn from the counter below
  its current value (so the next one is fresh).
\<close>

definition store_wf :: "world \<Rightarrow> bool" where
  "store_wf w \<longleftrightarrow>
     distinct (created w) \<and> set (created w) = dom (store w)
     \<and> (\<forall>t r. store w t = Some r \<longrightarrow> row_id r = t)
     \<and> (\<forall>t \<in> dom (store w). \<exists>n < next_id w. t = tid_of n)"

text \<open>
  The cache holds, for each key it holds, the serialised results of a terminal task
  of the store (spec, section 3: a result is cached only if its status is terminal,
  and a cached result is authoritative).
\<close>

definition cache_coherent :: "world \<Rightarrow> bool" where
  "cache_coherent w \<longleftrightarrow>
     (\<forall>t v. cache w t = Some v \<longrightarrow>
        (\<exists>r. store w t = Some r \<and> terminal (row_status r) \<and> v = dumps (results_json r)))"

definition queue_wf :: "world \<Rightarrow> bool" where
  "queue_wf w \<longleftrightarrow> (\<forall>m \<in> set (queue w). fst m \<in> dom (store w))"

definition wf :: "world \<Rightarrow> bool" where
  "wf w \<longleftrightarrow> store_wf w \<and> cache_coherent w \<and> queue_wf w"

section \<open>Lemmas: the backend\<close>

lemma ints_fit_row_json [simp]: "ints_fit (row_json r)"
  by (simp add: row_json_def)

lemma ints_fit_results_json [simp]: "ints_fit (results_json r) \<longleftrightarrow> ints_fit (row_result r)"
  by (simp add: results_json_def)

lemma world_backend_simps [simp, model_simps]:
  "make_task_item world_backend = world_task_item"
  "create_task world_backend = crud_create_task"
  "get_task world_backend = crud_get_task"
  "get_tasks world_backend = crud_get_tasks"
  "get_results world_backend = crud_get_results"
  "run_task world_backend = spawner_run_task"
  "publish_task world_backend = publisher_publish_task"
  "process_data_events world_backend = publisher_process_data_events"
  "redis_get world_backend = cache_get"
  "redis_set world_backend = cache_set"
  by (simp_all add: world_backend_def)

section \<open>Lemmas: the invariant of the world\<close>

lemmas wf_defs [inv_simps] = wf_def store_wf_def cache_coherent_def queue_wf_def

lemmas world_ops_defs [model_simps] =
  crud_create_task_def crud_get_task_def crud_get_tasks_def crud_get_results_def
  crud_update_status_def complete_task_def spawner_run_task_def publisher_publish_task_def
  deliver_def cache_get_def cache_set_def world_task_item_def

section \<open>Lemmas: frames\<close>

lemma log_call_simps [simp]:
  "store (log_call c w) = store w" "created (log_call c w) = created w"
  "next_id (log_call c w) = next_id w" "cache (log_call c w) = cache w"
  "queue (log_call c w) = queue w" "down (log_call c w) = down w"
  "work (log_call c w) = work w" "neg_limit (log_call c w) = neg_limit w" "calls (log_call c w) = calls w @ [c]"
  by (simp_all add: log_call_def)

lemma wf_log_call [simp]: "wf (log_call c w) = wf w"
  by (simp add: wf_defs)

lemma wf_down_update [simp]: "wf (w\<lparr>down := S\<rparr>) = wf w"
  by (simp add: wf_defs)

text \<open>The reads change nothing but the log.\<close>

lemma crud_get_task_state: "res_state (crud_get_task t w) = log_call (CallGetTask t) w"
  by (simp add: crud_get_task_def raiseR_def returnR_def Let_def)

lemma crud_get_tasks_state: "res_state (crud_get_tasks n w) = log_call CallGetTasks w"
  by (simp add: crud_get_tasks_def raiseR_def returnR_def Let_def split: option.splits)

lemma crud_get_results_state: "res_state (crud_get_results t w) = log_call (CallGetResults t) w"
  by (simp add: crud_get_results_def raiseR_def returnR_def Let_def split: option.splits)

lemma cache_get_state: "res_state (cache_get k w) = log_call (CallRedisGet k) w"
  by (simp add: cache_get_def raiseR_def returnR_def Let_def split: option.splits)

text \<open>An update changes at most the row of a task still \<open>PENDING\<close>.\<close>

lemma crud_update_status_store:
  "store (res_state (crud_update_status t st res w)) =
     (case store w t of
        Some r \<Rightarrow>
          if Database \<notin> down w \<and> row_status r = PENDING
          then (store w)(t \<mapsto> r\<lparr>row_status := st, row_result := res\<rparr>) else store w
      | None \<Rightarrow> store w)"
  by (simp add: crud_update_status_def raiseR_def returnR_def Let_def split: option.splits)

lemma crud_update_status_frame:
  "created (res_state (crud_update_status t st res w)) = created w \<and>
   next_id (res_state (crud_update_status t st res w)) = next_id w \<and>
   cache (res_state (crud_update_status t st res w)) = cache w \<and>
   queue (res_state (crud_update_status t st res w)) = queue w \<and>
   down (res_state (crud_update_status t st res w)) = down w \<and>
   work (res_state (crud_update_status t st res w)) = work w"
  by (simp add: crud_update_status_def raiseR_def returnR_def Let_def split: option.splits)

section \<open>Lemmas: every call keeps the invariant\<close>

lemma coherent_pending_uncached:
  assumes "cache_coherent w" and "store w t = Some r" and "row_status r = PENDING"
  shows "cache w t = None"
proof (rule ccontr)
  assume "cache w t \<noteq> None"
  then obtain v where "cache w t = Some v" by auto
  with assms(1) obtain r' where "store w t = Some r'" and "terminal (row_status r')"
    unfolding cache_coherent_def by blast
  with assms(2,3) show False by simp
qed

lemma coherent_cached_in_store: "cache_coherent w \<Longrightarrow> cache w t = Some v \<Longrightarrow> t \<in> dom (store w)"
  by (auto simp add: cache_coherent_def)

lemma wf_crud_update_status: "wf w \<Longrightarrow> wf (res_state (crud_update_status t st res w))"
  unfolding wf_defs crud_update_status_store
  using crud_update_status_frame[of t st res w]
  by (auto split: option.splits if_splits
      dest: coherent_pending_uncached[unfolded cache_coherent_def])

lemma dom_store_update_status: "dom (store (res_state (crud_update_status t st res w))) = dom (store w)"
  by (auto simp add: crud_update_status_store split: option.splits if_splits)

lemma wf_complete_task: "wf w \<Longrightarrow> wf (res_state (complete_task t cases w))"
  by (simp add: complete_task_def wf_crud_update_status split: sum.splits)

lemma complete_task_frame:
  "dom (store (res_state (complete_task t cases w))) = dom (store w) \<and>
   queue (res_state (complete_task t cases w)) = queue w \<and>
   down (res_state (complete_task t cases w)) = down w \<and>
   work (res_state (complete_task t cases w)) = work w"
  by (simp add: complete_task_def dom_store_update_status crud_update_status_frame split: sum.splits)

lemma wf_spawner_run_task: "wf w \<Longrightarrow> wf (res_state (spawner_run_task t cases w))"
  by (simp add: spawner_run_task_def raiseR_def Let_def wf_complete_task)

lemma wf_queue_update:
  "wf w \<Longrightarrow> \<forall>m \<in> set q. fst m \<in> dom (store w) \<Longrightarrow> wf (w\<lparr>queue := q\<rparr>)"
  by (simp add: wf_defs)

lemma wf_drain: "wf w \<Longrightarrow> \<forall>m \<in> set ms. fst m \<in> dom (store w) \<Longrightarrow> wf (drain ms w)"
proof (induction ms arbitrary: w)
  case Nil
  then show ?case by (simp add: wf_queue_update)
next
  case (Cons m ms)
  let ?r = "deliver m w"
  have wf': "wf (res_state ?r)" and dom': "dom (store (res_state ?r)) = dom (store w)"
    using Cons.prems(1) wf_complete_task complete_task_frame by (simp_all add: deliver_def)
  show ?case
  proof (cases ?r)
    case (Inl ew)
    with wf' dom' Cons.prems(2) show ?thesis
      by (cases ew) (simp add: wf_queue_update)
  next
    case (Inr aw)
    with wf' dom' Cons.prems(2) Cons.IH show ?thesis
      by (cases aw) simp
  qed
qed

lemma wf_process_data_events:
  assumes "wf w"
  shows "wf (publisher_process_data_events w)"
proof -
  from assms have "\<forall>m \<in> set (queue w). fst m \<in> dom (store w)"
    by (simp add: wf_defs)
  with assms have "wf (drain (queue w) w)" by (rule wf_drain)
  with assms show ?thesis by (simp add: publisher_process_data_events_def)
qed

lemma wf_world_task_item: "wf w \<Longrightarrow> wf (snd (world_task_item w))"
  by (fastforce simp add: world_task_item_def wf_defs less_Suc_eq)

lemma world_task_item_fresh:
  assumes "wf w"
  shows "item_id (fst (world_task_item w)) \<notin> dom (store w)"
proof
  assume "item_id (fst (world_task_item w)) \<in> dom (store w)"
  then have "tid_of (next_id w) \<in> dom (store w)"
    by (simp add: world_task_item_def new_task_item_def)
  with assms obtain n where "n < next_id w" and "tid_of (next_id w) = tid_of n"
    unfolding wf_defs by blast
  then show False by simp
qed

lemma wf_crud_create_task:
  assumes "wf w" and "\<exists>n < next_id w. item_id t = tid_of n"
  shows "wf (res_state (crud_create_task t w))"
  using assms
  by (auto simp add: crud_create_task_def raiseR_def returnR_def Let_def wf_defs
      dest: coherent_cached_in_store[unfolded cache_coherent_def])

lemma wf_publisher_publish_task:
  "wf w \<Longrightarrow> item_id t \<in> dom (store w) \<Longrightarrow> wf (res_state (publisher_publish_task t cases w))"
  by (auto simp add: publisher_publish_task_def raiseR_def returnR_def Let_def wf_defs)

lemma wf_cache_set:
  assumes "wf w"
    and "\<And>k. key = Some k \<Longrightarrow> \<exists>r. store w k = Some r \<and> terminal (row_status r) \<and> v = dumps (results_json r)"
  shows "wf (res_state (cache_set key v w))"
  using assms
  by (auto simp add: cache_set_def raiseR_def returnR_def Let_def wf_defs split: option.splits)

end
