(* ===== verification/System.thy ===== *)
theory System
  imports World
begin

text \<open>
  The server of \<^verbatim>\<open>src/server.py\<close> as a whole: the handlers running on the
  collaborators of \<open>World\<close>, the routing table of \<^verbatim>\<open>make_app\<close>, and the server's
  steps: an HTTP request, a tick of the periodic callback that calls
  \<^verbatim>\<open>publisher.process_data_events()\<close>, and a service going down or coming back.
  The reachable worlds are those a run of steps makes from an empty world; the world
  invariant \<open>wf\<close> holds in all of them, which gives the cache-aside contract of the
  spec (a cached result is the store's terminal result), and the status of every
  task moves only along the lifecycle of \<open>Task\<close> (a refinement of the abstract
  lifecycle).
\<close>

section \<open>Routing: \<^verbatim>\<open>make_app\<close>\<close>

datatype http_method = GET | POST | PUT | DELETE | PATCH | HEAD | OPTIONS

datatype handler_class =
    CreateTaskHandler | CreateTaskQueueHandler | ListTaskHandler | ResultsHandler
  | HealthCheckHandler

definition make_app :: "(string \<times> handler_class) list" where
  "make_app =
     [(''/api/tasks/create'', CreateTaskHandler),
      (''/api/tasks/list'', ListTaskHandler),
      (''/api/results'', ResultsHandler),
      (''/api/health'', HealthCheckHandler)]"

text \<open>The methods each handler class implements (\<^verbatim>\<open>post\<close> or \<^verbatim>\<open>get\<close>).\<close>

fun handler_method ::
    "handler_class \<Rightarrow> http_method \<Rightarrow> ('w backend \<Rightarrow> request \<Rightarrow> 'w \<Rightarrow> response \<times> 'w) option" where
  "handler_method CreateTaskHandler POST = Some create_task_post"
| "handler_method CreateTaskQueueHandler POST = Some create_task_queue_post"
| "handler_method ListTaskHandler GET = Some list_task_get"
| "handler_method ResultsHandler GET = Some results_get"
| "handler_method HealthCheckHandler GET = Some health_get"
| "handler_method _ _ = None"

text \<open>
  Tornado's answers when no handler runs: an unknown path is answered by its default
  handler with 404; a method the handler does not implement raises 405 inside the
  handler, whose \<^verbatim>\<open>send_error\<close> clears the response (so \<^verbatim>\<open>set_default_headers\<close>
  applies again) and writes Tornado's error page.
\<close>

definition error_page :: "nat \<Rightarrow> string \<Rightarrow> string" where
  "error_page code reason =
     ''<html><title>'' @ nat_str code @ '': '' @ reason @ ''</title><body>''
     @ nat_str code @ '': '' @ reason @ ''</body></html>''"

definition not_found_response :: response where
  "not_found_response =
     \<lparr>status_code = 404, headers = [(''Content-Type'', ''text/html; charset=UTF-8'')],
      chunks = [ChunkStr (error_page 404 ''Not Found'')]\<rparr>"

definition method_not_allowed_response :: response where
  "method_not_allowed_response =
     \<lparr>status_code = 405, headers = [(''Content-Type'', ''application/json'')],
      chunks = [ChunkStr (error_page 405 ''Method Not Allowed'')]\<rparr>"

record http_request =
  req_path :: string
  req_method :: http_method
  req :: request

definition serve :: "'w backend \<Rightarrow> http_request \<Rightarrow> 'w \<Rightarrow> response \<times> 'w" where
  "serve B hr w =
     (case map_of make_app (req_path hr) of
        None \<Rightarrow> (not_found_response, w)
      | Some cls \<Rightarrow>
          (case handler_method cls (req_method hr) of
             None \<Rightarrow> (method_not_allowed_response, w)
           | Some h \<Rightarrow> h B (req hr) w))"

section \<open>The server's steps\<close>

text \<open>
  \<^verbatim>\<open>__main__\<close>: the tables are created, the application listens on port 8888, and
  a \<^verbatim>\<open>PeriodicCallback\<close> calls \<^verbatim>\<open>publisher.process_data_events()\<close> every
  \<^verbatim>\<open>callback_time=1.000\<close>, which Tornado reads in milliseconds.
\<close>

record server_config =
  listen_port :: nat
  poll_interval_ms :: nat
  routes :: "(string \<times> handler_class) list"

definition server_main :: server_config where
  "server_main = \<lparr>listen_port = 8888, poll_interval_ms = 1, routes = make_app\<rparr>"

text \<open>How many times the periodic callback fires in \<open>t\<close> milliseconds.\<close>

definition polls_within :: "nat \<Rightarrow> nat" where
  "polls_within t = t div poll_interval_ms server_main"

datatype event =
    HttpRequest http_request
  | PollTick
  | ServiceFails service
  | ServiceRecovers service

fun server_step :: "world \<Rightarrow> event \<Rightarrow> world" where
  "server_step w (HttpRequest hr) = snd (serve world_backend hr w)"
| "server_step w PollTick = process_data_events world_backend w"
| "server_step w (ServiceFails s) = w\<lparr>down := insert s (down w)\<rparr>"
| "server_step w (ServiceRecovers s) = w\<lparr>down := down w - {s}\<rparr>"

fun run_events :: "world \<Rightarrow> event list \<Rightarrow> world" where
  "run_events w [] = w"
| "run_events w (e # es) = run_events (server_step w e) es"

inductive reachable :: "world \<Rightarrow> bool" where
  start: "reachable (init_world f e)"
| step: "reachable w \<Longrightarrow> reachable (server_step w e)"

section \<open>Creation of a fresh task\<close>

text \<open>The world after \<^verbatim>\<open>TaskItem()\<close> and \<^verbatim>\<open>TaskCrud.create_task\<close> of a fresh task.\<close>

definition with_new_task :: "world \<Rightarrow> world" where
  "with_new_task w =
     w\<lparr>next_id := Suc (next_id w),
       store := (store w)(tid_of (next_id w) \<mapsto>
          \<lparr>row_id = tid_of (next_id w), row_status = PENDING, row_result = JNull\<rparr>),
       created := created w @ [tid_of (next_id w)],
       calls := calls w @ [CallCreate (tid_of (next_id w))]\<rparr>"

definition created_response :: "world \<Rightarrow> response" where
  "created_response w =
     ok_response (ChunkStr (escape_close_tag (dumps (task_json (tid_of (next_id w)) PENDING))))"

text \<open>
  The row a fresh task gets, and the row \<^verbatim>\<open>TaskCrud.update_status\<close> leaves once the
  executor has run its payload: \<open>ERROR\<close> with the failure's message, or
  \<open>SUCCESS\<close> with the result.
\<close>

definition new_row :: "string \<Rightarrow> task_row" where
  "new_row t = \<lparr>row_id = t, row_status = PENDING, row_result = JNull\<rparr>"

definition complete_row :: "task_row \<Rightarrow> string + json \<Rightarrow> task_row" where
  "complete_row r out =
     (case out of
        Inl msg \<Rightarrow> r\<lparr>row_status := ERROR, row_result := JStr msg\<rparr>
      | Inr res \<Rightarrow> r\<lparr>row_status := SUCCESS, row_result := res\<rparr>)"

section \<open>The store's lifecycle\<close>

text \<open>
  How the row of one identifier may change: it is never removed, and a row changes
  only from \<open>PENDING\<close> to a terminal status, under the same identifier.
\<close>

definition row_evolves :: "task_row option \<Rightarrow> task_row option \<Rightarrow> bool" where
  "row_evolves a b =
     (case a of
        None \<Rightarrow> True
      | Some r \<Rightarrow>
          (case b of
             None \<Rightarrow> False
           | Some r' \<Rightarrow> r' = r \<or> (row_status r = PENDING \<and> terminal (row_status r') \<and> row_id r' = row_id r)))"

definition evolves :: "world \<Rightarrow> world \<Rightarrow> bool" where
  "evolves w w' \<longleftrightarrow> (\<forall>t. row_evolves (store w t) (store w' t))"

section \<open>What the handlers do to the world\<close>

lemma res_state_bindR_encode: "res_state (bindR m (\<lambda>_. encode_task task)) = res_state m"
  by (cases m) auto

lemma crud_create_task_Inr:
  "crud_create_task t w = Inr (u, w') \<Longrightarrow> item_id t \<in> dom (store w')"
  by (auto simp add: crud_create_task_def raiseR_def returnR_def Let_def split: if_splits)

lemma limit_arg_state: "res_state (limit_arg l w) = w \<and> (\<forall>n w'. limit_arg l w = Inr (n, w') \<longrightarrow> w' = w)"
proof (cases "truthy_opt l")
  case True
  then show ?thesis
    using py_int_state[of "the l" w]
    by (cases "py_int (the l) w") (auto simp add: limit_arg_def returnR_def)
next
  case False
  then show ?thesis by (simp add: limit_arg_def returnR_def)
qed

lemma log_call_eq: "log_call c w = w\<lparr>calls := calls w @ [c]\<rparr>"
  by (simp add: log_call_def)

lemma list_task_try_state:
  "\<exists>cs. res_state (list_task_try world_backend tid lim w) = w\<lparr>calls := cs\<rparr>"
proof -
  have lim: "\<exists>cs. res_state (bindR (limit_arg lim w) crud_get_tasks) = w\<lparr>calls := cs\<rparr>"
  proof (cases "limit_arg lim w")
    case (Inl ew)
    with limit_arg_state[of lim w] show ?thesis by (cases ew) (auto intro: exI[of _ "calls w"])
  next
    case (Inr nw)
    with limit_arg_state[of lim w] show ?thesis
      by (cases nw) (auto simp add: crud_get_tasks_state log_call_eq)
  qed
  have "\<exists>cs. res_state (if truthy_opt tid then crud_get_task (the tid) w
                       else bindR (limit_arg lim w) crud_get_tasks) = w\<lparr>calls := cs\<rparr>"
    using lim by (auto simp add: crud_get_task_state log_call_eq)
  then show ?thesis
    unfolding list_task_try_def world_backend_simps
    by (cases "if truthy_opt tid then crud_get_task (the tid) w
               else bindR (limit_arg lim w) crud_get_tasks") (auto simp add: returnR_def)
qed


lemma crud_get_results_Inr:
  "crud_get_results tid w = Inr (db, w') \<Longrightarrow>
     \<exists>t r. tid = Some t \<and> store w t = Some r \<and> db = results_json r
           \<and> w' = log_call (CallGetResults tid) w"
  by (auto simp add: crud_get_results_def raiseR_def returnR_def Let_def
      split: if_splits option.splits)

lemma results_status_results_json [simp]:
  "results_status (results_json r) = Inr (JStr (status_str (row_status r)))"
  by (simp add: results_status_def results_json_def row_json_def task_json_def)

lemma cache_get_Inr:
  "cache_get k w = Inr (c, w') \<Longrightarrow> w' = log_call (CallRedisGet k) w"
  by (auto simp add: cache_get_def raiseR_def returnR_def Let_def split: if_splits option.splits)

lemma cache_set_state:
  "res_state (cache_set k v w) = log_call (CallRedisSet k) w \<or>
   (\<exists>t. k = Some t \<and> res_state (cache_set k v w) = (log_call (CallRedisSet k) w)\<lparr>cache := (cache w)(t \<mapsto> v)\<rparr>)"
  by (auto simp add: cache_set_def raiseR_def returnR_def Let_def split: option.splits)

text \<open>
  The world the results handler leaves: the log extended, and at most one new cache
  entry, for a task of the store in a terminal status, holding its serialised results.
\<close>

lemma results_try_state:
  "\<exists>cs. res_state (results_try world_backend tid w) = w\<lparr>calls := cs\<rparr> \<or>
     (\<exists>t r. tid = Some t \<and> store w t = Some r \<and> terminal (row_status r) \<and>
        res_state (results_try world_backend tid w) =
          w\<lparr>calls := cs, cache := (cache w)(t \<mapsto> dumps (results_json r))\<rparr>)"
proof (cases "cache_get tid w")
  case (Inl ew)
  with cache_get_state[of tid w] show ?thesis
    by (cases ew) (auto simp add: results_try_def log_call_eq)
next
  case (Inr cw)
  then obtain c w1 where cg: "cache_get tid w = Inr (c, w1)" by (cases cw) auto
  then have w1: "w1 = log_call (CallRedisGet tid) w" by (rule cache_get_Inr)
  show ?thesis
  proof (cases "truthy_opt c")
    case True
    with cg w1 show ?thesis by (auto simp add: results_try_def returnR_def log_call_eq)
  next
    case nc: False
    show ?thesis
    proof (cases "crud_get_results tid w1")
      case (Inl ew)
      with cg w1 nc crud_get_results_state[of tid w1] show ?thesis
        by (cases ew) (auto simp add: results_try_def log_call_eq)
    next
      case (Inr dw)
      then obtain db w2 where gr: "crud_get_results tid w1 = Inr (db, w2)" by (cases dw) auto
      then obtain t r where t: "tid = Some t" "store w1 t = Some r" "db = results_json r"
        and w2: "w2 = log_call (CallGetResults tid) w1"
        by (blast dest: crud_get_results_Inr)
      show ?thesis
      proof (cases "ints_fit db")
        case False
        with cg gr nc w1 w2 show ?thesis
          by (auto simp add: results_try_def py_dumps_eq log_call_eq)
      next
        case fit: True
        show ?thesis
        proof (cases "row_status r = PENDING")
          case True
          with cg gr nc t w1 w2 fit show ?thesis
            by (auto simp add: results_try_def py_dumps_eq returnR_def log_call_eq)
        next
          case False
          with cg gr nc t w1 w2 fit cache_set_state[of tid "dumps db" w2] show ?thesis
            by (auto simp add: results_try_def py_dumps_eq returnR_def log_call_eq terminal_iff_not_pending
                Let_def)
        qed
      qed
    qed
  qed
qed

section \<open>The handlers keep the invariant\<close>

lemma wf_calls_update [simp]: "wf (w\<lparr>calls := cs\<rparr>) = wf w"
  by (simp add: wf_defs)

lemma wf_cache_put:
  "wf w \<Longrightarrow> store w t = Some r \<Longrightarrow> terminal (row_status r) \<Longrightarrow>
     wf (w\<lparr>cache := (cache w)(t \<mapsto> dumps (results_json r))\<rparr>)"
  by (auto simp add: wf_defs)

text \<open>
  The steps task creation shares between the two creation handlers: decoding, a new
  item, its record; then the dispatch \<open>d\<close> keeps the invariant if it keeps it for an
  item that is in the store, whatever the payload.
\<close>

lemma wf_after_create:
  assumes wf: "wf w"
    and dispatch: "\<And>cases task w2. wf w2 \<Longrightarrow> item_id task \<in> dom (store w2) \<Longrightarrow>
       wf (res_state (d cases task w2))"
  shows "wf (res_state (bindR (liftR (json_decode body) w) (\<lambda>cases w1.
           (let (task, w2) = world_task_item w1 in
            bindR (crud_create_task task w2) (\<lambda>_. d cases task)))))"
proof (cases "json_decode body")
  case (Inl e)
  with wf show ?thesis by simp
next
  case (Inr cases)
  obtain task w1 where ti: "world_task_item w = (task, w1)" by fastforce
  have wf1: "wf w1" using wf_world_task_item[OF wf] ti by simp
  have fresh: "\<exists>n < next_id w1. item_id task = tid_of n"
    using ti by (auto simp add: world_task_item_def new_task_item_def)
  have wf2: "wf (res_state (crud_create_task task w1))"
    using wf_crud_create_task[OF wf1 fresh] .
  show ?thesis
  proof (cases "crud_create_task task w1")
    case (Inl ew)
    with Inr ti wf2 show ?thesis by (cases ew) simp
  next
    case (Inr uw)
    then obtain w2 where cr: "crud_create_task task w1 = Inr ((), w2)" by (cases uw) auto
    with wf2 have "wf w2" by simp
    moreover from cr have "item_id task \<in> dom (store w2)" by (rule crud_create_task_Inr)
    ultimately have "wf (res_state (d cases task w2))" by (rule dispatch)
    with \<open>json_decode body = Inr cases\<close> ti cr show ?thesis by simp
  qed
qed

lemma wf_create_task_try: "wf w \<Longrightarrow> wf (res_state (create_task_try world_backend t body w))"
  unfolding create_task_try_def world_backend_simps
  by (rule wf_after_create)
     (auto simp add: res_state_bindR_encode returnR_def wf_spawner_run_task wf_publisher_publish_task)

lemma wf_create_task_queue_try: "wf w \<Longrightarrow> wf (res_state (create_task_queue_try world_backend body w))"
  unfolding create_task_queue_try_def world_backend_simps
  by (rule wf_after_create) (auto simp add: res_state_bindR_encode wf_publisher_publish_task)

lemma wf_list_task_try: "wf w \<Longrightarrow> wf (res_state (list_task_try world_backend tid lim w))"
  using list_task_try_state[of tid lim w] by auto

lemma wf_results_try: "wf w \<Longrightarrow> wf (res_state (results_try world_backend tid w))"
  using results_try_state[of tid w] wf_cache_put[of "w\<lparr>calls := cs\<rparr>" for cs] by fastforce

section \<open>Lemmas: the store refines the lifecycle\<close>

lemma row_evolves_refl [simp]: "row_evolves a a"
  by (simp add: row_evolves_def split: option.splits)

lemma evolves_refl [simp]: "evolves w w"
  by (simp add: evolves_def)

lemma evolves_same_store: "store w' = store w \<Longrightarrow> evolves w w'"
  by (simp add: evolves_def row_evolves_def split: option.splits)

lemma row_evolves_trans: "row_evolves a b \<Longrightarrow> row_evolves b c \<Longrightarrow> row_evolves a c"
  by (cases a; cases b; cases c) (auto simp add: row_evolves_def)

lemma evolves_trans: "evolves x y \<Longrightarrow> evolves y z \<Longrightarrow> evolves x z"
  unfolding evolves_def by (blast intro: row_evolves_trans)

lemma evolves_crud_create_task: "evolves w (res_state (crud_create_task t w))"
  by (auto simp add: evolves_def row_evolves_def crud_create_task_def raiseR_def returnR_def Let_def
      split: option.splits)

lemma evolves_crud_update_status:
  "terminal st \<Longrightarrow> evolves w (res_state (crud_update_status t st res w))"
  by (auto simp add: evolves_def row_evolves_def crud_update_status_store split: option.splits)

lemma evolves_complete_task: "evolves w (res_state (complete_task t cases w))"
  by (simp add: complete_task_def evolves_crud_update_status split: sum.splits)

lemma evolves_spawner_run_task: "evolves w (res_state (spawner_run_task t cases w))"
  using evolves_complete_task[where t = "item_id t" and cases = cases and w = "log_call (CallRun (item_id t)) w"]
  by (auto simp add: spawner_run_task_def raiseR_def Let_def evolves_def)

lemma evolves_deliver: "evolves w (res_state (deliver m w))"
  using evolves_complete_task[where t = "fst m" and cases = "snd m" and w = "log_call (CallDeliver (fst m)) w"]
  by (simp add: deliver_def evolves_def)

lemma evolves_publish: "evolves w (res_state (publisher_publish_task t cases w))"
  by (rule evolves_same_store) (simp add: publisher_publish_task_def raiseR_def returnR_def Let_def)

lemma evolves_cache_set: "evolves w (res_state (cache_set k v w))"
  by (rule evolves_same_store) (simp add: cache_set_def raiseR_def returnR_def Let_def split: option.splits)

lemma evolves_drain: "evolves w (drain ms w)"
proof (induction ms arbitrary: w)
  case Nil
  then show ?case by (simp add: evolves_same_store)
next
  case (Cons m ms)
  show ?case
  proof (cases "deliver m w")
    case (Inl ew)
    with evolves_deliver[of w m] show ?thesis
      by (cases ew) (auto simp add: evolves_def)
  next
    case (Inr aw)
    with evolves_deliver[of w m] Cons.IH show ?thesis
      by (cases aw) (auto intro: evolves_trans)
  qed
qed

lemma evolves_after_create:
  assumes "\<And>cases task w2. evolves w2 (res_state (d cases task w2))"
  shows "evolves w (res_state (bindR (liftR (json_decode body) w) (\<lambda>cases w1.
           (let (task, w2) = world_task_item w1 in
            bindR (crud_create_task task w2) (\<lambda>_. d cases task)))))"
proof (rule bindR_res_state_rel[where R = evolves])
  fix cases w1
  obtain task w2 where ti: "world_task_item w1 = (task, w2)" by fastforce
  then have "evolves w1 w2" by (auto simp add: world_task_item_def intro: evolves_same_store)
  moreover have "evolves w2 (res_state (bindR (crud_create_task task w2) (\<lambda>_. d cases task)))"
    by (rule bindR_res_state_rel[where R = evolves])
       (auto simp add: evolves_crud_create_task assms intro: evolves_trans)
  ultimately show "evolves w1 (res_state (let (task, w2) = world_task_item w1 in
        bindR (crud_create_task task w2) (\<lambda>_. d cases task)))"
    using ti by (auto intro: evolves_trans)
qed (auto intro: evolves_trans)


lemma evolves_calls_update [simp]: "evolves w (w\<lparr>calls := cs\<rparr>)"
  by (simp add: evolves_same_store)

lemma evolves_create_task_try: "evolves w (res_state (create_task_try world_backend t body w))"
  unfolding create_task_try_def world_backend_simps
  by (rule evolves_after_create)
     (auto simp add: res_state_bindR_encode evolves_spawner_run_task evolves_publish returnR_def)

lemma evolves_create_task_queue_try: "evolves w (res_state (create_task_queue_try world_backend body w))"
  unfolding create_task_queue_try_def world_backend_simps
  by (rule evolves_after_create) (auto simp add: res_state_bindR_encode evolves_publish)

lemma evolves_list_task_try: "evolves w (res_state (list_task_try world_backend tid lim w))"
  using list_task_try_state[of tid lim w] by auto

lemma evolves_results_try: "evolves w (res_state (results_try world_backend tid w))"
  using results_try_state[of tid w] by (auto intro: evolves_same_store)

section \<open>Lemmas: the invariant in every reachable world\<close>

lemma wf_init_world: "wf (init_world f e)"
  by (simp add: init_world_def wf_defs)

lemma wf_serve: "wf w \<Longrightarrow> wf (snd (serve world_backend hr w))"
proof -
  assume wf: "wf w"
  have "wf (snd (h world_backend rq w))" if "handler_method cls m = Some h" for cls m h rq
    using that wf
    by (cases cls; cases m)
       (simp_all add: handler_world wf_create_task_try wf_create_task_queue_try
          wf_list_task_try wf_results_try)
  with wf show ?thesis
    by (simp add: serve_def split: option.splits)
qed

lemma wf_server_step: "wf w \<Longrightarrow> wf (server_step w e)"
  by (cases e) (simp_all add: wf_serve wf_process_data_events)

lemma reachable_run_events: "reachable w \<Longrightarrow> reachable (run_events w es)"
  by (induction es arbitrary: w) (auto intro: reachable.step)

section \<open>The read path on the world\<close>


lemma reachable_imp_wf: "reachable w \<Longrightarrow> wf w"
  by (induction rule: reachable.induct) (simp_all add: wf_init_world wf_server_step)

lemma dumps_nonempty: "dumps j \<noteq> []"
  using nat_str_digits by (cases j) (simp_all add: json_str_def int_str_def)

lemma results_try_hit:
  assumes "Cache \<notin> down w" and "cache w t = Some v" and "v \<noteq> []"
  shows "results_try world_backend (Some t) w = Inr (FromCache v, log_call (CallRedisGet (Some t)) w)"
  using assms by (simp add: results_try_def cache_get_def returnR_def Let_def)

lemma results_try_miss:
  assumes "Cache \<notin> down w" and "Database \<notin> down w" and "cache w t = None"
    and "store w t = Some r" and "ints_fit (row_result r)"
  shows "results_try world_backend (Some t) w =
     (let w2 = log_call (CallGetResults (Some t)) (log_call (CallRedisGet (Some t)) w) in
      if row_status r = PENDING then Inr (PendingResult (dumps (results_json r)), w2)
      else bindR (cache_set (Some t) (dumps (results_json r)) w2)
             (\<lambda>_. returnR (SavedResult (dumps (results_json r)))))"
  using assms
  by (simp add: results_try_def cache_get_def crud_get_results_def py_dumps_eq returnR_def Let_def)

lemma cache_set_ok:
  "Cache \<notin> down w \<Longrightarrow> CacheWrites \<notin> down w \<Longrightarrow>
     cache_set (Some t) v w = Inr ((), (log_call (CallRedisSet (Some t)) w)\<lparr>cache := (cache w)(t \<mapsto> v)\<rparr>)"
  by (simp add: cache_set_def returnR_def Let_def)

lemma results_get_arg:
  "get_argument ''task_id'' (req_args rq) = Some t \<Longrightarrow>
     results_get B rq w =
       (case results_try B (Some t) w of
          Inl (e, w') \<Rightarrow> (error_response (results_error_msg e), w')
        | Inr (out, w') \<Rightarrow> (ok_response (ChunkStr (outcome_text out)), w'))"
  by (simp add: results_get_def)

lemma results_miss_caches:
  assumes "Cache \<notin> down w" and "CacheWrites \<notin> down w" and "Database \<notin> down w"
    and "get_argument ''task_id'' (req_args rq) = Some t"
    and "store w t = Some r" and "ints_fit (row_result r)" and "terminal (row_status r)" and "cache w t = None"
  shows "results_get world_backend rq w =
           (ok_response (ChunkStr (dumps (results_json r))),
            w\<lparr>cache := (cache w)(t \<mapsto> dumps (results_json r)),
              calls := calls w @ [CallRedisGet (Some t), CallGetResults (Some t), CallRedisSet (Some t)]\<rparr>)"
  using assms
  by (simp add: results_get_arg results_try_miss cache_set_ok terminal_iff_not_pending log_call_def
      returnR_def)

text \<open>
  C1: the cache-aside read path is transparent. In every reachable world, with the
  cache and the store up, a results query for a task in a terminal status answers
  exactly the store's serialised results, whether the cache held them or not.
  The stored result's integers have at most 4300 digits, so that \<^verbatim>\<open>dumps\<close> can
  write it.
\<close>
theorem results_cache_transparent:
  assumes "reachable w" and "Cache \<notin> down w" and "CacheWrites \<notin> down w" and "Database \<notin> down w"
    and "get_argument ''task_id'' (req_args rq) = Some t"
    and "store w t = Some r" and "ints_fit (row_result r)" and "terminal (row_status r)"
  shows "fst (results_get world_backend rq w) = ok_response (ChunkStr (dumps (results_json r)))"
proof (cases "cache w t")
  case None
  with assms show ?thesis
    by (simp add: results_get_arg results_try_miss cache_set_ok terminal_iff_not_pending Let_def returnR_def)
next
  case (Some v)
  from assms(1) have "cache_coherent w" by (simp add: reachable_imp_wf[unfolded wf_def])
  with Some assms(6) have "v = dumps (results_json r)"
    unfolding cache_coherent_def by fastforce
  with Some assms show ?thesis
    by (simp add: results_get_arg results_try_hit dumps_nonempty)
qed


lemma reachable_coherent: "reachable w \<Longrightarrow> cache_coherent w"
  by (simp add: reachable_imp_wf[unfolded wf_def])

lemma reachable_fresh: "reachable w \<Longrightarrow> tid_of (next_id w) \<notin> dom (store w)"
  using world_task_item_fresh[OF reachable_imp_wf]
  by (simp add: world_task_item_def new_task_item_def)

lemma fresh_not_cached:
  assumes "reachable w"
  shows "cache w (tid_of (next_id w)) = None"
proof (rule ccontr)
  assume "cache w (tid_of (next_id w)) \<noteq> None"
  then obtain v where "cache w (tid_of (next_id w)) = Some v" by blast
  moreover have "cache_coherent w" using reachable_imp_wf[OF assms] by (simp add: wf_def)
  ultimately have "tid_of (next_id w) \<in> dom (store w)" unfolding cache_coherent_def by blast
  with reachable_fresh[OF assms] show False by simp
qed

text \<open>
  C5: a results query whose task is in the cache is answered with the cached value
  and makes no other call: the store is not read.
\<close>
theorem results_hit_no_store_read:
  assumes "reachable w" and "Cache \<notin> down w"
    and "get_argument ''task_id'' (req_args rq) = Some t" and "cache w t = Some v"
  shows "results_get world_backend rq w = (ok_response (ChunkStr v), log_call (CallRedisGet (Some t)) w)"
proof -
  from reachable_coherent[OF assms(1)] assms(4) have "v = dumps (results_json (the (store w t)))"
    unfolding cache_coherent_def by fastforce
  then have "v \<noteq> []" by (simp add: dumps_nonempty)
  with assms show ?thesis by (simp add: results_get_arg results_try_hit)
qed

text \<open>
  C3: a results query for a task still \<open>PENDING  The stored result's integers have at most 4300 digits, so that \<^verbatim>\<open>dumps\<close> can
  write it.
\<close> answers the store's current view
  and leaves the cache as it was: no cache entry is created for it.
\<close>
theorem results_pending_not_cached:
  assumes "reachable w" and "Cache \<notin> down w" and "Database \<notin> down w"
    and "get_argument ''task_id'' (req_args rq) = Some t"
    and "store w t = Some r" and "ints_fit (row_result r)" and "row_status r = PENDING"
  shows "results_get world_backend rq w =
           (ok_response (ChunkStr (dumps (results_json r))),
            w\<lparr>calls := calls w @ [CallRedisGet (Some t), CallGetResults (Some t)]\<rparr>)"
proof -
  have "cache w t = None"
    using coherent_pending_uncached[OF reachable_coherent[OF assms(1)] assms(5,7)] .
  with assms show ?thesis
    by (simp add: results_get_arg results_try_miss log_call_def)
qed

text \<open>
  C4: the first results query for a terminal task that is not cached reads the cache,
  reads the store, writes the serialised results into the cache under the task's
  identifier, and answers them.
  The stored result's integers have at most 4300 digits, so that \<^verbatim>\<open>dumps\<close> can
  write it.
\<close>
theorem results_first_read_populates:
  assumes "reachable w" and "Cache \<notin> down w" and "CacheWrites \<notin> down w" and "Database \<notin> down w"
    and "get_argument ''task_id'' (req_args rq) = Some t"
    and "store w t = Some r" and "ints_fit (row_result r)" and "terminal (row_status r)" and "cache w t = None"
  shows "results_get world_backend rq w =
           (ok_response (ChunkStr (dumps (results_json r))),
            w\<lparr>cache := (cache w)(t \<mapsto> dumps (results_json r)),
              calls := calls w @ [CallRedisGet (Some t), CallGetResults (Some t), CallRedisSet (Some t)]\<rparr>)"
  using assms
  by (simp add: results_get_arg results_try_miss cache_set_ok terminal_iff_not_pending log_call_def
      returnR_def)

text \<open>
  C10: a results query for an identifier the store does not hold fails with the
  generic results error (HTTP 500), after reading the cache and the store.
\<close>
theorem results_unknown_task:
  assumes "reachable w" and "Cache \<notin> down w" and "Database \<notin> down w"
    and "get_argument ''task_id'' (req_args rq) = Some t" and "store w t = None"
  shows "results_get world_backend rq w =
           (error_response (results_error_msg (TaskNotFound (''Task '' @ t @ '' not found''))),
            w\<lparr>calls := calls w @ [CallRedisGet (Some t), CallGetResults (Some t)]\<rparr>)"
proof -
  have "cache w t = None"
    using coherent_cached_in_store[OF reachable_coherent[OF assms(1)]] assms(5) by fastforce
  with assms show ?thesis
    by (simp add: results_get_arg results_try_def cache_get_def crud_get_results_def returnR_def
        raiseR_def Let_def log_call_def)
qed

text \<open>
  C11: when the cache refuses the write that follows a successful store read, the
  results query fails with HTTP 500 instead of answering the results it has read.
  The stored result's integers have at most 4300 digits, so that \<^verbatim>\<open>dumps\<close> can
  write it.
\<close>
theorem results_cache_write_failure:
  assumes "reachable w" and "Cache \<notin> down w" and "CacheWrites \<in> down w" and "Database \<notin> down w"
    and "get_argument ''task_id'' (req_args rq) = Some t"
    and "store w t = Some r" and "ints_fit (row_result r)" and "terminal (row_status r)" and "cache w t = None"
  shows "fst (results_get world_backend rq w) = error_response (results_error_msg redis_readonly_error)"
  using assms
  by (simp add: results_get_arg results_try_miss cache_set_def terminal_iff_not_pending raiseR_def Let_def)


lemma create_prefix:
  assumes "reachable w" and "Database \<notin> down w"
  shows "world_task_item w = (new_task_item (next_id w), w\<lparr>next_id := Suc (next_id w)\<rparr>)"
    and "crud_create_task (new_task_item (next_id w)) (w\<lparr>next_id := Suc (next_id w)\<rparr>) =
           Inr ((), with_new_task w)"
  using assms reachable_fresh[OF assms(1)]
  by (auto simp add: world_task_item_def crud_create_task_def new_task_item_def with_new_task_def
      returnR_def Let_def log_call_def)

lemma create_task_post_body:
  "get_argument_or ''type'' ''queue'' (req_args rq) = ty \<Longrightarrow> req_body rq = Body cases \<Longrightarrow>
     create_task_post B rq w =
       (case create_task_try B ty (Body cases) w of
          Inl (e, w') \<Rightarrow> (error_response (create_error_msg e), w')
        | Inr (Unsupported, w') \<Rightarrow> (error_response (unsupported_type_msg ty), w')
        | Inr (Created s, w') \<Rightarrow> (ok_response (ChunkStr s), w'))"
  by (simp add: create_task_post_def)

lemma create_queue_post:
  assumes "reachable w" and "Database \<notin> down w" and "Broker \<notin> down w"
    and "get_argument_or ''type'' ''queue'' (req_args rq) = ''queue''" and "req_body rq = Body cases"
  shows "create_task_post world_backend rq w =
           (created_response w,
            (with_new_task w)\<lparr>queue := queue w @ [(tid_of (next_id w), cases)],
               calls := calls (with_new_task w) @ [CallPublish (tid_of (next_id w))]\<rparr>)"
  using assms create_prefix[OF assms(1,2)]
  by (simp add: create_task_post_body create_task_try_created publisher_publish_task_def
      created_response_def as_json_def new_task_item_def returnR_def Let_def log_call_def)
     (simp add: with_new_task_def)

lemma create_process_post:
  assumes "reachable w" and "Database \<notin> down w" and "Executor \<notin> down w"
    and "get_argument_or ''type'' ''queue'' (req_args rq) = ''process''" and "req_body rq = Body cases"
  shows "create_task_post world_backend rq w =
           (created_response w,
            (with_new_task w)\<lparr>store := (store w)(tid_of (next_id w) \<mapsto>
               complete_row (new_row (tid_of (next_id w))) (work w cases)),
               calls := calls (with_new_task w) @ [CallRun (tid_of (next_id w)),
                 CallUpdate (tid_of (next_id w)) (row_status (complete_row (new_row (tid_of (next_id w))) (work w cases)))]\<rparr>)"
  using assms create_prefix[OF assms(1,2)]
  by (simp add: create_task_post_body create_task_try_created spawner_run_task_def complete_task_def
      crud_update_status_def created_response_def as_json_def new_task_item_def returnR_def Let_def
      log_call_def with_new_task_def complete_row_def new_row_def split: sum.split)

text \<open>
  C6: a creation request in \<^verbatim>\<open>queue\<close> mode creates one \<open>PENDING\<close> record under
  a fresh identifier, then publishes the identifier with the payload, in that order,
  and answers the task as created.
\<close>
theorem create_queue_pending:
  assumes "reachable w" and "Database \<notin> down w" and "Broker \<notin> down w"
    and "get_argument_or ''type'' ''queue'' (req_args rq) = ''queue''" and "req_body rq = Body cases"
  shows "create_task_post world_backend rq w =
           (created_response w,
            (with_new_task w)\<lparr>queue := queue w @ [(tid_of (next_id w), cases)],
               calls := calls (with_new_task w) @ [CallPublish (tid_of (next_id w))]\<rparr>)"
  using assms by (rule create_queue_post)

text \<open>
  C7: a creation request with an execution type other than \<^verbatim>\<open>process\<close> and
  \<^verbatim>\<open>queue\<close> is answered with the unsupported-type error (HTTP 500) naming the
  value and the two accepted ones; the record created before the check stays
  \<open>PENDING\<close>, and nothing is run or published.
\<close>
theorem create_unsupported_type:
  assumes "reachable w" and "Database \<notin> down w"
    and "get_argument_or ''type'' ''queue'' (req_args rq) = ty" and "ty \<noteq> ''process''" and "ty \<noteq> ''queue''"
    and "req_body rq = Body cases"
  shows "create_task_post world_backend rq w = (error_response (unsupported_type_msg ty), with_new_task w)"
  using assms create_prefix[OF assms(1,2)]
  by (simp add: create_task_post_body create_task_try_created)

text \<open>
  C8: a creation request in \<^verbatim>\<open>process\<close> mode whose work fails runs the task in
  the request: the record goes from \<open>PENDING\<close> to \<open>ERROR\<close> with the failure's
  message before the answer, which is the task as created.
\<close>
theorem create_process_work_fails:
  assumes "reachable w" and "Database \<notin> down w" and "Executor \<notin> down w"
    and "get_argument_or ''type'' ''queue'' (req_args rq) = ''process''" and "req_body rq = Body cases"
    and "work w cases = Inl msg"
  shows "create_task_post world_backend rq w =
           (created_response w,
            (with_new_task w)\<lparr>
               store := (store w)(tid_of (next_id w) \<mapsto>
                  \<lparr>row_id = tid_of (next_id w), row_status = ERROR, row_result = JStr msg\<rparr>),
               calls := calls (with_new_task w) @
                  [CallRun (tid_of (next_id w)), CallUpdate (tid_of (next_id w)) ERROR]\<rparr>)"
  using assms create_prefix[OF assms(1,2)]
  by (simp add: create_task_post_body create_task_try_created spawner_run_task_def complete_task_def
      crud_update_status_def created_response_def as_json_def new_task_item_def returnR_def Let_def
      log_call_def with_new_task_def)


section \<open>The queue is drained by the periodic callback\<close>

lemma store_update_status_keeps_terminal:
  "store w t = Some r \<Longrightarrow> terminal (row_status r) \<Longrightarrow>
     store (res_state (crud_update_status t' st res w)) t = Some r"
  by (auto simp add: crud_update_status_store terminal_iff_not_pending split: option.splits)

lemma deliver_ok:
  assumes "Database \<notin> down w" and "fst m \<in> dom (store w)"
  shows "\<exists>w'. deliver m w = Inr ((), w') \<and> (\<exists>r. store w' (fst m) = Some r \<and> terminal (row_status r))
           \<and> dom (store w') = dom (store w) \<and> down w' = down w
           \<and> (\<forall>t r. store w t = Some r \<longrightarrow> terminal (row_status r) \<longrightarrow> store w' t = Some r)"
  using assms
  by (auto simp add: deliver_def complete_task_def crud_update_status_def returnR_def Let_def
      terminal_iff_not_pending split: sum.splits if_splits)

lemma drain_ok:
  "Database \<notin> down w \<Longrightarrow> \<forall>m \<in> set ms. fst m \<in> dom (store w) \<Longrightarrow>
     queue (drain ms w) = [] \<and>
     (\<forall>m \<in> set ms. \<exists>r. store (drain ms w) (fst m) = Some r \<and> terminal (row_status r)) \<and>
     (\<forall>t r. store w t = Some r \<longrightarrow> terminal (row_status r) \<longrightarrow> store (drain ms w) t = Some r)"
proof (induction ms arbitrary: w)
  case Nil
  then show ?case by simp
next
  case (Cons m ms)
  then obtain w' where d: "deliver m w = Inr ((), w')"
    and m: "\<exists>r. store w' (fst m) = Some r \<and> terminal (row_status r)"
    and dom': "dom (store w') = dom (store w)" and down': "down w' = down w"
    and keep: "\<forall>t r. store w t = Some r \<longrightarrow> terminal (row_status r) \<longrightarrow> store w' t = Some r"
    using deliver_ok[of w m] by auto
  have IH: "queue (drain ms w') = [] \<and>
     (\<forall>m \<in> set ms. \<exists>r. store (drain ms w') (fst m) = Some r \<and> terminal (row_status r)) \<and>
     (\<forall>t r. store w' t = Some r \<longrightarrow> terminal (row_status r) \<longrightarrow> store (drain ms w') t = Some r)"
    using Cons.IH[of w'] Cons.prems dom' down' by simp
  from m IH have "\<exists>r. store (drain ms w') (fst m) = Some r \<and> terminal (row_status r)" by blast
  with d IH keep show ?case by auto
qed

lemma terminal_complete_row [simp]: "terminal (row_status (complete_row r out))"
  by (simp add: complete_row_def split: sum.splits)

lemma deliver_frame:
  assumes "Database \<notin> down w" and "fst m \<in> dom (store w)"
  shows "\<exists>w'. deliver m w = Inr ((), w') \<and> (\<forall>t. t \<noteq> fst m \<longrightarrow> store w' t = store w t)
           \<and> dom (store w') = dom (store w) \<and> cache w' = cache w \<and> down w' = down w \<and> work w' = work w"
  using assms
  by (auto simp add: deliver_def complete_task_def crud_update_status_def returnR_def Let_def
      split: sum.splits if_splits)

lemma deliver_pending:
  assumes "Database \<notin> down w" and "store w t = Some r" and "row_status r = PENDING"
  shows "\<exists>w'. deliver (t, c) w = Inr ((), w') \<and> store w' t = Some (complete_row r (work w c))
           \<and> cache w' = cache w \<and> down w' = down w"
  using assms
  by (auto simp add: deliver_def complete_task_def crud_update_status_def complete_row_def returnR_def
      Let_def split: sum.splits)

lemma drain_snoc:
  "Database \<notin> down w \<Longrightarrow> \<forall>m \<in> set ms. fst m \<in> dom (store w) \<and> fst m \<noteq> t \<Longrightarrow>
     store w t = Some r \<Longrightarrow> row_status r = PENDING \<Longrightarrow>
     store (drain (ms @ [(t, c)]) w) t = Some (complete_row r (work w c)) \<and>
     cache (drain (ms @ [(t, c)]) w) = cache w \<and> down (drain (ms @ [(t, c)]) w) = down w"
proof (induction ms arbitrary: w)
  case Nil
  then obtain w' where "deliver (t, c) w = Inr ((), w')" "store w' t = Some (complete_row r (work w c))"
    "cache w' = cache w" "down w' = down w"
    using deliver_pending by blast
  then show ?case by simp
next
  case (Cons m ms)
  then obtain w' where d: "deliver m w = Inr ((), w')"
    and f: "\<forall>t. t \<noteq> fst m \<longrightarrow> store w' t = store w t" "dom (store w') = dom (store w)"
      "cache w' = cache w" "down w' = down w" "work w' = work w"
    using deliver_frame[of w m] by auto
  with Cons.prems have "store (drain (ms @ [(t, c)]) w') t = Some (complete_row r (work w' c)) \<and>
      cache (drain (ms @ [(t, c)]) w') = cache w' \<and> down (drain (ms @ [(t, c)]) w') = down w'"
    by (intro Cons.IH) auto
  with d f show ?case by simp
qed

section \<open>Lemmas: identifiers and routes\<close>

lemma map_of_make_app: "map_of make_app p = Some cls \<Longrightarrow> cls \<noteq> CreateTaskQueueHandler"
  by (auto simp add: make_app_def split: if_splits)

lemma serve_create:
  "req_path hr = ''/api/tasks/create'' \<Longrightarrow> req_method hr = POST \<Longrightarrow>
     serve B hr w = create_task_post B (req hr) w"
  by (simp add: serve_def make_app_def)

section \<open>Lemmas: every step moves rows along the lifecycle\<close>

lemma evolves_serve: "evolves w (snd (serve world_backend hr w))"
proof -
  have "evolves w (snd (h world_backend rq w))" if "handler_method cls m = Some h" for cls m h rq
    using that
    by (cases cls; cases m)
       (simp_all add: handler_world evolves_create_task_try evolves_create_task_queue_try
          evolves_list_task_try evolves_results_try)
  then show ?thesis
    by (simp add: serve_def split: option.splits)
qed

lemma evolves_server_step: "evolves w (server_step w e)"
  by (cases e)
     (simp_all add: evolves_serve publisher_process_data_events_def evolves_drain evolves_same_store)

lemma evolves_run_events: "evolves w (run_events w es)"
  by (induction es arbitrary: w) (auto intro: evolves_trans evolves_server_step)

lemma row_evolves_task_evolves:
  "row_evolves a b \<Longrightarrow> task_evolves (map_option row_status a) (map_option row_status b)"
  by (cases a; cases b)
     (auto simp add: row_evolves_def task_evolves_def lifecycle_steps_iff terminal_iff_not_pending)

text \<open>
  C2: in every reachable world the cache holds, under each key, the serialised
  results of the task of that identifier, and that task is in a terminal status.
\<close>

theorem reachable_cache_coherent:
  assumes "reachable w" and "cache w t = Some v"
  shows "\<exists>r. store w t = Some r \<and> terminal (row_status r) \<and> v = dumps (results_json r)"
  using reachable_coherent[OF assms(1)] assms(2) unfolding cache_coherent_def by blast

text \<open>
  C13: one tick of the periodic callback, with the store and the broker up, delivers
  every queued message: the queue is empty afterwards and every task that was queued
  is in a terminal status.
\<close>

theorem poll_completes_queued:
  assumes "reachable w" and "Database \<notin> down w" and "Broker \<notin> down w"
  shows "queue (server_step w PollTick) = [] \<and>
         (\<forall>m \<in> set (queue w). \<exists>r. store (server_step w PollTick) (fst m) = Some r \<and> terminal (row_status r))"
proof -
  have "\<forall>m \<in> set (queue w). fst m \<in> dom (store w)"
    using reachable_imp_wf[OF assms(1)] by (simp add: wf_defs)
  with assms(2) have "queue (drain (queue w) w) = [] \<and>
      (\<forall>m \<in> set (queue w). \<exists>r. store (drain (queue w) w) (fst m) = Some r \<and> terminal (row_status r))"
    using drain_ok by blast
  with assms(3) show ?thesis by (simp add: publisher_process_data_events_def)
qed

text \<open>
  C16: a listing request without \<^verbatim>\<open>task_id\<close> and with a \<^verbatim>\<open>limit\<close> of \<open>n\<close> answers
  the first \<open>n\<close> tasks of the store in creation order, and only reads the store.
\<close>

theorem list_tasks_limit:
  assumes "Database \<notin> down w"
    and "get_argument ''task_id'' (req_args rq) = None"
    and "get_argument ''limit'' (req_args rq) = Some (int_str (int n))"
    and "length (nat_str n) \<le> max_str_digits"
  shows "list_task_get world_backend rq w =
           (ok_response (ChunkStr (dumps (JList (map row_json (take n (List.map_filter (store w) (created w))))))),
            log_call CallGetTasks w)"
  using assms int_str_nonempty[of "int n"]
  by (simp add: list_task_get_def list_task_try_def limit_arg_def py_int_int_str py_dumps_eq
      crud_get_tasks_def returnR_def Let_def list_all_iff del: int_str_nonempty)

section \<open>Lemmas: a created task is stored\<close>

lemma evolves_dom: "evolves w w' \<Longrightarrow> dom (store w) \<subseteq> dom (store w')"
  by (force simp add: evolves_def row_evolves_def split: option.splits)

lemma create_task_try_Created_stored:
  assumes "create_task_try world_backend ty body w = Inr (Created s, w')"
  shows "s = escape_close_tag (dumps (task_json (tid_of (next_id w)) PENDING)) \<and>
         tid_of (next_id w) \<in> dom (store w')"
proof -
  let ?task = "new_task_item (next_id w)"
  let ?w1 = "w\<lparr>next_id := Suc (next_id w)\<rparr>"
  have mk: "make_task_item world_backend w = (?task, ?w1)"
    by (simp add: world_task_item_def)
  obtain cases where body: "body = Body cases"
    using assms by (cases body) (simp_all add: create_task_try_malformed)
  obtain w2 where c: "crud_create_task ?task ?w1 = Inr ((), w2)"
  proof (cases "crud_create_task ?task ?w1")
    case (Inl p)
    with assms mk body show ?thesis
      by (cases p) (simp add: create_task_try_create_fails)
  next
    case (Inr p)
    then show ?thesis by (cases p) (simp add: that)
  qed
  have stored: "tid_of (next_id w) \<in> dom (store w2)"
    using crud_create_task_Inr[OF c] by (simp add: new_task_item_def)
  have run: "s = escape_close_tag (dumps (as_json ?task)) \<and> evolves w2 w'"
    using assms create_task_try_created[OF mk, of w2 ty cases] c body
      evolves_spawner_run_task[of w2 ?task cases] evolves_publish[of w2 ?task cases]
    by (auto simp add: bindR_eq_Inr split: if_splits)
  then have "tid_of (next_id w) \<in> dom (store w')"
    using stored evolves_dom[of w2 w'] by blast
  with run show ?thesis
    by (simp add: as_json_def new_task_item_def)
qed

section \<open>Lemmas: repeated results queries\<close>

lemma serve_results:
  "req_path hr = ''/api/results'' \<Longrightarrow> req_method hr = GET \<Longrightarrow>
     serve B hr w = results_get B (req hr) w"
  by (simp add: serve_def make_app_def)

lemma run_events_cache_hits:
  assumes "req_path hr = ''/api/results''" and "req_method hr = GET"
    and "get_argument ''task_id'' (req_args (req hr)) = Some t"
    and "Cache \<notin> down w" and "cache w t = Some v" and "v \<noteq> []"
  shows "run_events w (replicate n (HttpRequest hr)) =
           w\<lparr>calls := calls w @ replicate n (CallRedisGet (Some t))\<rparr>"
  using assms(4-6)
proof (induction n arbitrary: w)
  case 0
  then show ?case by simp
next
  case (Suc n)
  have "server_step w (HttpRequest hr) = w\<lparr>calls := calls w @ [CallRedisGet (Some t)]\<rparr>"
    using Suc.prems assms(1-3)
    by (simp add: serve_results results_get_arg results_try_hit log_call_def)
  with Suc show ?case by simp
qed

section \<open>More branches of the handlers on the world\<close>

text \<open>
  C19: repeated results queries for a terminal task return the same answer, and
  the repetition is served from the cache alone: the second query makes one cache
  read and no store read.
  The stored result's integers have at most 4300 digits, so that \<^verbatim>\<open>dumps\<close> can
  write it.
\<close>

theorem results_repeat_from_cache:
  assumes "reachable w" and "Cache \<notin> down w" and "CacheWrites \<notin> down w" and "Database \<notin> down w"
    and "get_argument ''task_id'' (req_args rq) = Some t"
    and "store w t = Some r" and "ints_fit (row_result r)" and "terminal (row_status r)"
  shows "results_get world_backend rq (snd (results_get world_backend rq w)) =
           (fst (results_get world_backend rq w),
            log_call (CallRedisGet (Some t)) (snd (results_get world_backend rq w)))"
proof -
  define v where "v = dumps (results_json r)"
  have v: "v \<noteq> []" by (simp add: v_def dumps_nonempty)
  obtain w1 where first: "results_get world_backend rq w = (ok_response (ChunkStr v), w1)"
    and w1: "cache w1 t = Some v" "down w1 = down w"
  proof (cases "cache w t")
    case None
    with assms show ?thesis
      by (intro that[of "(log_call (CallRedisSet (Some t)) (log_call (CallGetResults (Some t))
            (log_call (CallRedisGet (Some t)) w)))\<lparr>cache := (cache w)(t \<mapsto> v)\<rparr>"])
         (simp_all add: results_get_arg results_try_miss cache_set_ok terminal_iff_not_pending v_def
            returnR_def Let_def)
  next
    case (Some v')
    with reachable_coherent[OF assms(1)] assms(6) have "v' = v"
      unfolding cache_coherent_def v_def by fastforce
    with Some assms v show ?thesis
      by (intro that[of "log_call (CallRedisGet (Some t)) w"])
         (simp_all add: results_get_arg results_try_hit)
  qed
  with assms v show ?thesis
    by (simp add: results_get_arg results_try_hit)
qed


text \<open>
  C22: a listing request with a non-empty \<^verbatim>\<open>task_id\<close> answers that task's row, or
  \<^verbatim>\<open>null\<close> when the store has no such task, ignoring \<^verbatim>\<open>limit\<close>, and only reads
  the store.
\<close>

theorem list_single_task:
  assumes "Database \<notin> down w"
    and "get_argument ''task_id'' (req_args rq) = Some t" and "t \<noteq> []"
  shows "list_task_get world_backend rq w =
           (ok_response (ChunkStr (dumps (case store w t of None \<Rightarrow> JNull | Some r \<Rightarrow> row_json r))),
            log_call (CallGetTask t) w)"
  using assms
  by (simp add: list_task_get_def list_task_try_def crud_get_task_def py_dumps_eq returnR_def Let_def
      split: option.splits)

text \<open>
  C23: when the cache is down, a results query fails with HTTP 500 after the failed
  cache read, without falling back to the store, which is never read.
\<close>

theorem results_cache_down:
  assumes "Cache \<in> down w"
  shows "results_get world_backend rq w =
           (error_response (results_error_msg redis_down_error),
            log_call (CallRedisGet (get_argument ''task_id'' (req_args rq))) w)"
  using assms
  by (simp add: results_get_def results_try_def cache_get_def raiseR_def Let_def)

text \<open>
  C24: a creation request in \<^verbatim>\<open>queue\<close> mode whose publish fails is answered with
  the creation error naming the broker's error; the record created before the publish
  stays \<open>PENDING\<close> and nothing is queued.
\<close>

theorem create_publish_fails:
  assumes "reachable w" and "Database \<notin> down w" and "Broker \<in> down w"
    and "get_argument_or ''type'' ''queue'' (req_args rq) = ''queue''" and "req_body rq = Body cases"
  shows "create_task_post world_backend rq w =
           (error_response (create_error_msg (AMQPError ''connection closed'')),
            (with_new_task w)\<lparr>calls := calls (with_new_task w) @ [CallPublish (tid_of (next_id w))]\<rparr>)"
  using assms create_prefix[OF assms(1,2)]
  by (simp add: create_task_post_body create_task_try_created publisher_publish_task_def
      new_task_item_def raiseR_def Let_def log_call_def)
     (simp add: with_new_task_def)

text \<open>
  C25: a creation request while the store is down is answered with the creation
  error; the identifier counter has advanced, and nothing is stored or dispatched.
\<close>

theorem create_db_down:
  assumes "Database \<in> down w" and "req_body rq = Body cases"
  shows "create_task_post world_backend rq w =
           (error_response (create_error_msg db_down_error),
            w\<lparr>next_id := Suc (next_id w), calls := calls w @ [CallCreate (tid_of (next_id w))]\<rparr>)"
  using assms
  by (simp add: create_task_post_def create_task_try_def world_task_item_def crud_create_task_def
      new_task_item_def raiseR_def Let_def log_call_def)

text \<open>
  C26: a creation request in \<^verbatim>\<open>process\<close> mode whose work succeeds runs the task
  in the request: the record goes from \<open>PENDING\<close> to \<open>SUCCESS\<close> with the work's
  result before the answer, which is the task as created.
\<close>

theorem create_process_succeeds:
  assumes "reachable w" and "Database \<notin> down w" and "Executor \<notin> down w"
    and "get_argument_or ''type'' ''queue'' (req_args rq) = ''process''" and "req_body rq = Body cases"
    and "work w cases = Inr res"
  shows "create_task_post world_backend rq w =
           (created_response w,
            (with_new_task w)\<lparr>
               store := (store w)(tid_of (next_id w) \<mapsto>
                  \<lparr>row_id = tid_of (next_id w), row_status = SUCCESS, row_result = res\<rparr>),
               calls := calls (with_new_task w) @
                  [CallRun (tid_of (next_id w)), CallUpdate (tid_of (next_id w)) SUCCESS]\<rparr>)"
  using assms create_prefix[OF assms(1,2)]
  by (simp add: create_task_post_body create_task_try_created spawner_run_task_def complete_task_def
      crud_update_status_def created_response_def as_json_def new_task_item_def returnR_def Let_def
      log_call_def with_new_task_def)

text \<open>
  C27: a results query without \<^verbatim>\<open>task_id\<close> passes \<^verbatim>\<open>None\<close> to the cache, which
  refuses it, and the handler answers HTTP 500; no listing is returned.
\<close>

theorem results_missing_task_id:
  assumes "Cache \<notin> down w" and "get_argument ''task_id'' (req_args rq) = None"
  shows "results_get world_backend rq w =
           (error_response (results_error_msg none_key_error), log_call (CallRedisGet None) w)"
  using assms
  by (simp add: results_get_def results_try_def cache_get_def raiseR_def Let_def)

text \<open>
  C28: a successful creation response names a task that the store already holds
  when the response is written, in either dispatch mode, so a results query issued
  right after creation finds a record (spec, section 4.1, step 1).
\<close>

theorem create_response_task_stored:
  assumes "fst (create_task_post world_backend rq w) = ok_response (ChunkStr s)"
  shows "s = escape_close_tag (dumps (task_json (tid_of (next_id w)) PENDING)) \<and>
         tid_of (next_id w) \<in> dom (store (snd (create_task_post world_backend rq w)))"
proof -
  obtain w' where "create_task_try world_backend (get_argument_or ''type'' ''queue'' (req_args rq)) (req_body rq) w
      = Inr (Created s, w')" and "snd (create_task_post world_backend rq w) = w'"
    using assms
    by (auto simp add: create_task_post_def Let_def ok_response_def error_response_def base_error_def
        write_chunk_def set_status_def init_response_def set_default_headers_def set_header_def
        split: sum.splits create_outcome.splits)
  then show ?thesis by (simp add: create_task_try_Created_stored)
qed

text \<open>
  C29: over any number of results queries for a terminal task that is not cached
  yet, the store is read exactly once: the first query reads the cache, the store,
  and writes the cache; every later one makes a single cache read (spec, section 8).
  The stored result's integers have at most 4300 digits, so that \<^verbatim>\<open>dumps\<close> can
  write it.
\<close>

theorem results_store_read_once:
  assumes "reachable w" and "Cache \<notin> down w" and "CacheWrites \<notin> down w" and "Database \<notin> down w"
    and "req_path hr = ''/api/results''" and "req_method hr = GET"
    and "get_argument ''task_id'' (req_args (req hr)) = Some t"
    and "store w t = Some r" and "ints_fit (row_result r)" and "terminal (row_status r)" and "cache w t = None"
  shows "calls (run_events w (replicate (Suc n) (HttpRequest hr))) =
           calls w @ [CallRedisGet (Some t), CallGetResults (Some t), CallRedisSet (Some t)]
             @ replicate n (CallRedisGet (Some t))"
proof -
  let ?v = "dumps (results_json r)"
  let ?w1 = "w\<lparr>cache := (cache w)(t \<mapsto> ?v),
              calls := calls w @ [CallRedisGet (Some t), CallGetResults (Some t), CallRedisSet (Some t)]\<rparr>"
  have first: "server_step w (HttpRequest hr) = ?w1"
    using assms
    by (simp add: serve_results results_get_arg results_try_miss cache_set_ok terminal_iff_not_pending
        log_call_def returnR_def Let_def)
  have "run_events ?w1 (replicate n (HttpRequest hr)) =
          ?w1\<lparr>calls := calls ?w1 @ replicate n (CallRedisGet (Some t))\<rparr>"
    using assms(2) dumps_nonempty[of "results_json r"] by (intro run_events_cache_hits[OF assms(5-7)]) simp_all
  with first show ?thesis by simp
qed

section \<open>A task from creation to its cached result\<close>

text \<open>
  C17: a task created in \<^verbatim>\<open>queue\<close> mode through \<^verbatim>\<open>POST /api/tasks/create\<close>, on any
  reachable server whose services are up, is answered as created; after one tick of
  the periodic callback the consumer has run its payload, and the first results query
  for it answers the task's terminal row (\<open>SUCCESS\<close> with the result, or
  \<open>ERROR\<close> with the failure's message) and leaves exactly that in the cache, whatever
  else was queued before (given the result's integers fit the 4300-digit limit).
\<close>

theorem queue_task_lifecycle:
  assumes "reachable w" and "Database \<notin> down w" and "Broker \<notin> down w"
    and "Cache \<notin> down w" and "CacheWrites \<notin> down w"
    and "req_path hc = ''/api/tasks/create''" and "req_method hc = POST"
    and "get_argument_or ''type'' ''queue'' (req_args (req hc)) = ''queue''" and "req_body (req hc) = Body cases"
    and "req_path hq = ''/api/results''" and "req_method hq = GET"
    and "get_argument ''task_id'' (req_args (req hq)) = Some (tid_of (next_id w))"
    and "ints_fit (row_result (complete_row (new_row (tid_of (next_id w))) (work w cases)))"
  shows "fst (serve world_backend hc w) = created_response w \<and>
         (let w2 = run_events w [HttpRequest hc, PollTick];
              v = dumps (results_json (complete_row (new_row (tid_of (next_id w))) (work w cases))) in
          fst (serve world_backend hq w2) = ok_response (ChunkStr v) \<and>
          cache (server_step w2 (HttpRequest hq)) (tid_of (next_id w)) = Some v)"
proof -
  define t where "t = tid_of (next_id w)"
  define w1 where "w1 = (with_new_task w)\<lparr>queue := queue w @ [(t, cases)],
    calls := calls (with_new_task w) @ [CallPublish t]\<rparr>"
  have c: "serve world_backend hc w = (created_response w, w1)"
    using assms(1-9) by (simp add: serve_create create_queue_post w1_def t_def)
  have q: "\<forall>m \<in> set (queue w). fst m \<in> dom (store w1) \<and> fst m \<noteq> t"
    using reachable_imp_wf[OF assms(1)] reachable_fresh[OF assms(1)]
    by (auto simp add: wf_defs w1_def with_new_task_def t_def)
  have "store w1 t = Some (new_row t)" "Database \<notin> down w1"
    by (simp_all add: w1_def with_new_task_def new_row_def t_def assms(2))
  with q have d: "store (drain (queue w @ [(t, cases)]) w1) t = Some (complete_row (new_row t) (work w cases))
      \<and> cache (drain (queue w @ [(t, cases)]) w1) = cache w \<and> down (drain (queue w @ [(t, cases)]) w1) = down w"
    using drain_snoc[of w1 "queue w" t "new_row t" cases]
    by (simp add: w1_def with_new_task_def new_row_def)
  have w2: "run_events w [HttpRequest hc, PollTick] = drain (queue w @ [(t, cases)]) w1"
    using c assms(3) by (simp add: publisher_process_data_events_def w1_def with_new_task_def)
  show ?thesis
    using c d w2 assms fresh_not_cached[OF assms(1)]
    by (simp add: serve_results results_miss_caches t_def Let_def)
qed

text \<open>
  C18: a task created in \<^verbatim>\<open>process\<close> mode is run during the creation request;
  the first results query for it answers its terminal row and caches it (given the
  result's integers fit the 4300-digit limit).
\<close>

theorem process_task_lifecycle:
  assumes "reachable w" and "Database \<notin> down w" and "Executor \<notin> down w"
    and "Cache \<notin> down w" and "CacheWrites \<notin> down w"
    and "req_path hc = ''/api/tasks/create''" and "req_method hc = POST"
    and "get_argument_or ''type'' ''queue'' (req_args (req hc)) = ''process''" and "req_body (req hc) = Body cases"
    and "req_path hq = ''/api/results''" and "req_method hq = GET"
    and "get_argument ''task_id'' (req_args (req hq)) = Some (tid_of (next_id w))"
    and "ints_fit (row_result (complete_row (new_row (tid_of (next_id w))) (work w cases)))"
  shows "fst (serve world_backend hc w) = created_response w \<and>
         (let w1 = server_step w (HttpRequest hc);
              v = dumps (results_json (complete_row (new_row (tid_of (next_id w))) (work w cases))) in
          fst (serve world_backend hq w1) = ok_response (ChunkStr v) \<and>
          cache (server_step w1 (HttpRequest hq)) (tid_of (next_id w)) = Some v)"
proof -
  have c: "serve world_backend hc w = create_task_post world_backend (req hc) w"
    using assms(6,7) by (rule serve_create)
  show ?thesis
    using c create_process_post[OF assms(1-3,8,9)] assms fresh_not_cached[OF assms(1)]
    by (simp add: serve_results results_miss_caches with_new_task_def Let_def)
qed

section \<open>The listing without a bound, and with a negative one\<close>

text \<open>
  C34: a listing request without \<^verbatim>\<open>task_id\<close> whose \<^verbatim>\<open>limit\<close> is absent or empty
  calls \<^verbatim>\<open>TaskCrud.get_tasks(None)\<close> and answers every task of the store in creation
  order, and only reads the store.
\<close>

theorem list_all_tasks:
  assumes "Database \<notin> down w"
    and "get_argument ''task_id'' (req_args rq) = None"
    and "\<not> truthy_opt (get_argument ''limit'' (req_args rq))"
  shows "list_task_get world_backend rq w =
           (ok_response (ChunkStr (dumps (JList (map row_json (List.map_filter (store w) (created w)))))),
            log_call CallGetTasks w)"
  using assms
  by (simp add: list_task_get_def list_task_try_def limit_arg_def py_dumps_eq
      crud_get_tasks_def returnR_def Let_def list_all_iff)

text \<open>
  C35: the listing does not check the sign of \<^verbatim>\<open>limit\<close>: a negative integer is passed
  to \<^verbatim>\<open>TaskCrud.get_tasks\<close> unchanged, so the answer is the database engine's: every
  task, when the engine reads a negative \<^verbatim>\<open>LIMIT\<close> as no bound, or the listing
  error with the engine's exception, when it refuses it.
\<close>

theorem list_limit_unchecked_sign:
  assumes "Database \<notin> down w"
    and "get_argument ''task_id'' (req_args rq) = None"
    and "get_argument ''limit'' (req_args rq) = Some (int_str i)" and "i < 0"
    and "length (nat_str (nat \<bar>i\<bar>)) \<le> max_str_digits"
  shows "list_task_get world_backend rq w =
           (case neg_limit w of
              None \<Rightarrow> (ok_response (ChunkStr (dumps (JList (map row_json (List.map_filter (store w) (created w)))))),
                       log_call CallGetTasks w)
            | Some e \<Rightarrow> (error_response (list_error_msg e), log_call CallGetTasks w))"
  using assms int_str_nonempty[of i]
  by (simp add: list_task_get_def list_task_try_def limit_arg_def py_int_int_str py_dumps_eq
      crud_get_tasks_def returnR_def raiseR_def Let_def list_all_iff split: option.split
      del: int_str_nonempty)

end
