(* ===== verification/JsonDecode.thy ===== *)
theory JsonDecode
  imports Json
begin

text \<open>
  Tornado's \<^verbatim>\<open>tornado.escape.json_decode(self.request.body)\<close>, which the creation
  handlers of \<^verbatim>\<open>src/server.py\<close> call on the request body: \<^verbatim>\<open>json.loads(body)\<close> on
  bytes, decoded with the encoding \<^verbatim>\<open>json.detect_encoding\<close> picks, then scanned by
  CPython's C scanner (\<^verbatim>\<open>_json.scan_once\<close>, \<^verbatim>\<open>scanstring\<close>, the object and array
  parsers) with the error messages of \<^verbatim>\<open>json.JSONDecodeError\<close>, a \<^verbatim>\<open>ValueError\<close>
  whose text ends in \<^verbatim>\<open>": line L column C (char P)"\<close>.

  The scanner works on the remaining input: a failure carries the suffix at which it
  is raised, whose length gives Python's index. Its result is a \<open>scan\<close>:
  \<^item> \<open>Done v rest\<close>: the value and the input after it;
  \<^item> \<open>Fail msg rest\<close>: a \<^verbatim>\<open>JSONDecodeError\<close> raised at \<open>rest\<close>;
  \<^item> \<open>Bad e\<close>: another exception, the \<^verbatim>\<open>ValueError\<close> of an integer literal over
    CPython's limit of 4300 digits (\<^verbatim>\<open>sys.get_int_max_str_digits()\<close>);
  \<^item> \<open>Beyond\<close>: an input the model does not represent, on which it claims nothing:
    a float, \<^verbatim>\<open>NaN\<close> or \<^verbatim>\<open>Infinity\<close> (the model has no floats), a \<^verbatim>\<open>\uXXXX\<close>
    escape above \<^verbatim>\<open>\u00ff\<close> (the model's characters are bytes), nesting deeper than
    \<open>json_depth_bound\<close> (CPython raises \<^verbatim>\<open>RecursionError\<close> near its recursion limit,
    which depends on the interpreter's stack), and a body that is not ASCII or that
    \<^verbatim>\<open>detect_encoding\<close> reads as UTF-16 or UTF-32;
  \<^item> \<open>NoFuel\<close>: the fuel ran out. The scanner recurses through nested arrays and
    objects, so it spends one unit of fuel per call; \<open>JsonDecode.scan_document_terminates\<close>
    shows that the fuel \<open>json_fuel\<close> it is given is always enough.
  Objects are built as Python builds a dict from its pairs: a repeated key keeps its
  first position and takes the last value. The messages are those of CPython 3.12;
  3.13 reports a trailing comma as \<^verbatim>\<open>"Illegal trailing comma before end of array"\<close>.
\<close>

datatype 'a scan = Fail string string | Bad exn | Done 'a string | Beyond | NoFuel

text \<open>Sequencing: the value and the rest go to the continuation, every other outcome passes through.\<close>

definition scan_then :: "'a scan \<Rightarrow> ('a \<Rightarrow> string \<Rightarrow> 'b scan) \<Rightarrow> 'b scan" where
  "scan_then m f =
     (case m of
        Done v r \<Rightarrow> f v r
      | Fail msg r \<Rightarrow> Fail msg r
      | Bad e \<Rightarrow> Bad e
      | Beyond \<Rightarrow> Beyond
      | NoFuel \<Rightarrow> NoFuel)"

section \<open>Characters\<close>

text \<open>\<^verbatim>\<open>IS_WHITESPACE\<close> of \<^verbatim>\<open>_json.c\<close>: space, tab, newline, carriage return.\<close>

definition is_ws :: "char \<Rightarrow> bool" where
  "is_ws c \<longleftrightarrow> c = CHR '' '' \<or> c = CHR 0x09 \<or> c = CHR 0x0A \<or> c = CHR 0x0D"

definition skip_ws :: "string \<Rightarrow> string" where
  "skip_ws ts = dropWhile is_ws ts"

definition hex_val :: "char \<Rightarrow> nat option" where
  "hex_val c =
     (let n = of_char c :: nat in
      if 48 \<le> n \<and> n \<le> 57 then Some (n - 48)
      else if 97 \<le> n \<and> n \<le> 102 then Some (n - 87)
      else if 65 \<le> n \<and> n \<le> 70 then Some (n - 55)
      else None)"

text \<open>The four hex digits of a \<^verbatim>\<open>\uXXXX\<close> escape.\<close>

fun hex4 :: "string \<Rightarrow> nat option" where
  "hex4 (a # b # c # d # _) =
     (case (hex_val a, hex_val b, hex_val c, hex_val d) of
        (Some w, Some x, Some y, Some z) \<Rightarrow> Some (((w * 16 + x) * 16 + y) * 16 + z)
      | _ \<Rightarrow> None)"
| "hex4 _ = None"

text \<open>The escapes of one character after a backslash.\<close>

definition short_escape :: "char \<Rightarrow> char option" where
  "short_escape c =
     (if c = dquote then Some dquote
      else if c = bslash then Some bslash
      else if c = CHR ''/'' then Some (CHR ''/'')
      else if c = CHR ''b'' then Some (CHR 0x08)
      else if c = CHR ''f'' then Some (CHR 0x0C)
      else if c = CHR ''n'' then Some (CHR 0x0A)
      else if c = CHR ''r'' then Some (CHR 0x0D)
      else if c = CHR ''t'' then Some (CHR 0x09)
      else None)"

section \<open>Strings: \<^verbatim>\<open>scanstring_unicode\<close>\<close>

definition unterminated_msg :: string where
  "unterminated_msg = ''Unterminated string starting at''"

definition bad_uescape_msg :: string where
  "bad_uescape_msg = ''Invalid '' @ [bslash] @ ''uXXXX escape''"

definition bad_escape_msg :: string where
  "bad_escape_msg = ''Invalid '' @ [bslash] @ ''escape''"

definition control_char_msg :: string where
  "control_char_msg = ''Invalid control character at''"

text \<open>
  The characters of a string literal after its opening quote; \<open>q\<close> is the input at
  the quote, where an unterminated string is reported. A \<^verbatim>\<open>\u\<close> escape needs four
  hex digits and one more character after them (\<^verbatim>\<open>end >= len\<close> in \<^verbatim>\<open>_json.c\<close>);
  both of its errors are reported at the \<^verbatim>\<open>u\<close>.
\<close>

fun scan_str :: "string \<Rightarrow> string \<Rightarrow> string \<Rightarrow> string scan" where
  "scan_str q acc [] = Fail unterminated_msg q"
| "scan_str q acc (c # cs) =
     (if c = dquote then Done acc cs
      else if c = bslash then
        (case cs of
           [] \<Rightarrow> Fail unterminated_msg q
         | e # r \<Rightarrow>
             if e = CHR ''u'' then
               (if length r \<le> 4 then Fail bad_uescape_msg cs
                else case hex4 r of
                  None \<Rightarrow> Fail bad_uescape_msg cs
                | Some n \<Rightarrow> if n < 256 then scan_str q (acc @ [char_of n]) (drop 4 r) else Beyond)
             else
               (case short_escape e of
                  None \<Rightarrow> Fail bad_escape_msg (c # cs)
                | Some ch \<Rightarrow> scan_str q (acc @ [ch]) r))
      else if of_char c < (32::nat) then Fail control_char_msg (c # cs)
      else scan_str q (acc @ [c]) cs)"

section \<open>Numbers and constants: \<^verbatim>\<open>_match_number_unicode\<close>\<close>

text \<open>The integer part: \<^verbatim>\<open>0\<close>, or a nonzero digit and the digits after it.\<close>

definition int_part :: "string \<Rightarrow> (string \<times> string) option" where
  "int_part ts =
     (case ts of
        c # r \<Rightarrow>
          if c = CHR ''0'' then Some ([c], r)
          else if is_digit c then Some (c # takeWhile is_digit r, dropWhile is_digit r)
          else None
      | [] \<Rightarrow> None)"

text \<open>A fraction: a dot followed by at least one digit, else nothing is taken.\<close>

definition frac_part :: "string \<Rightarrow> string \<times> string" where
  "frac_part ts =
     (case ts of
        c # d # r \<Rightarrow>
          if c = CHR ''.'' \<and> is_digit d then (c # d # takeWhile is_digit r, dropWhile is_digit r)
          else ([], ts)
      | _ \<Rightarrow> ([], ts))"

text \<open>An exponent: \<^verbatim>\<open>e\<close> or \<^verbatim>\<open>E\<close>, an optional sign, digits; without digits the scanner backtracks.\<close>

definition exp_sign :: "string \<Rightarrow> string \<times> string" where
  "exp_sign r =
     (case r of
        x # r' \<Rightarrow> if x = CHR ''+'' \<or> x = CHR ''-'' then ([x], r') else ([], r)
      | [] \<Rightarrow> ([], r))"

definition exp_part :: "string \<Rightarrow> string \<times> string" where
  "exp_part ts =
     (case ts of
        c # r \<Rightarrow>
          if c = CHR ''e'' \<or> c = CHR ''E'' then
            (case exp_sign r of
               (s, r1) \<Rightarrow>
                 if takeWhile is_digit r1 = [] then ([], ts)
                 else (c # s @ takeWhile is_digit r1, dropWhile is_digit r1))
          else ([], ts)
      | [] \<Rightarrow> ([], ts))"

definition expecting_value_msg :: string where
  "expecting_value_msg = ''Expecting value''"

definition scan_number :: "string \<Rightarrow> json scan" where
  "scan_number ts =
     (let (neg, t1) = (case ts of c # r \<Rightarrow> if c = CHR ''-'' then (True, r) else (False, ts) | [] \<Rightarrow> (False, ts)) in
      case int_part t1 of
        None \<Rightarrow> Fail expecting_value_msg ts
      | Some (ds, r1) \<Rightarrow>
          (let (fr, r2) = frac_part r1; (ex, r3) = exp_part r2 in
           if fr \<noteq> [] \<or> ex \<noteq> [] then Beyond
           else if max_str_digits < length ds then Bad (int_limit_error (length ds))
           else Done (JInt (if neg then - int (digits_acc 0 ds) else int (digits_acc 0 ds))) r3))"

text \<open>\<^verbatim>\<open>null\<close>, \<^verbatim>\<open>true\<close>, \<^verbatim>\<open>false\<close>, the float constants, and otherwise a number.\<close>

definition scan_literal :: "string \<Rightarrow> json scan" where
  "scan_literal ts =
     (if take 4 ts = ''null'' then Done JNull (drop 4 ts)
      else if take 4 ts = ''true'' then Done (JBool True) (drop 4 ts)
      else if take 5 ts = ''false'' then Done (JBool False) (drop 5 ts)
      else if take 3 ts = ''NaN'' \<or> take 8 ts = ''Infinity'' \<or> take 9 ts = ''-Infinity'' then Beyond
      else scan_number ts)"

section \<open>Arrays, objects and values: \<^verbatim>\<open>scan_once_unicode\<close>\<close>

text \<open>\<^verbatim>\<open>d[k] = v\<close> on the pairs of a dict in insertion order.\<close>

fun dict_set :: "(string \<times> json) list \<Rightarrow> string \<Rightarrow> json \<Rightarrow> (string \<times> json) list" where
  "dict_set [] k v = [(k, v)]"
| "dict_set ((k', v') # kvs) k v = (if k' = k then (k, v) # kvs else (k', v') # dict_set kvs k v)"

definition json_depth_bound :: nat where
  "json_depth_bound = 100"

definition comma_msg :: string where
  "comma_msg = ''Expecting '' @ quoted '','' @ '' delimiter''"

definition colon_msg :: string where
  "colon_msg = ''Expecting '' @ quoted '':'' @ '' delimiter''"

definition property_msg :: string where
  "property_msg = ''Expecting property name enclosed in double quotes''"

text \<open>
  \<open>scan_value f d ts\<close> scans one value at \<open>ts\<close> inside \<open>d\<close> enclosing arrays and
  objects; \<open>scan_items\<close> and \<open>scan_members\<close> are the loops of
  \<^verbatim>\<open>_parse_array_unicode\<close> and \<^verbatim>\<open>_parse_object_unicode\<close> after the first
  whitespace, with the items read so far.
\<close>

fun scan_value :: "nat \<Rightarrow> nat \<Rightarrow> string \<Rightarrow> json scan"
and scan_items :: "nat \<Rightarrow> nat \<Rightarrow> json list \<Rightarrow> string \<Rightarrow> json scan"
and scan_members :: "nat \<Rightarrow> nat \<Rightarrow> (string \<times> json) list \<Rightarrow> string \<Rightarrow> json scan" where
  "scan_value 0 d ts = NoFuel"
| "scan_value (Suc f) d ts =
     (case ts of
        [] \<Rightarrow> Fail expecting_value_msg ts
      | c # cs \<Rightarrow>
          if c = dquote then scan_then (scan_str ts [] cs) (\<lambda>s r. Done (JStr s) r)
          else if c = CHR ''['' then
            (if json_depth_bound \<le> d then Beyond
             else case skip_ws cs of
               e # r \<Rightarrow> if e = CHR '']'' then Done (JList []) r else scan_items f (Suc d) [] (e # r)
             | [] \<Rightarrow> scan_items f (Suc d) [] [])
          else if c = CHR ''{'' then
            (if json_depth_bound \<le> d then Beyond
             else case skip_ws cs of
               e # r \<Rightarrow> if e = CHR ''}'' then Done (JObj []) r else scan_members f (Suc d) [] (e # r)
             | [] \<Rightarrow> scan_members f (Suc d) [] [])
          else scan_literal ts)"
| "scan_items 0 d acc ts = NoFuel"
| "scan_items (Suc f) d acc ts =
     scan_then (scan_value f d ts) (\<lambda>v r.
       case skip_ws r of
         e # r' \<Rightarrow>
           if e = CHR '']'' then Done (JList (acc @ [v])) r'
           else if e = CHR '','' then scan_items f d (acc @ [v]) (skip_ws r')
           else Fail comma_msg (e # r')
       | [] \<Rightarrow> Fail comma_msg [])"
| "scan_members 0 d acc ts = NoFuel"
| "scan_members (Suc f) d acc ts =
     (case ts of
        c # cs \<Rightarrow>
          if c = dquote then
            scan_then (scan_str ts [] cs) (\<lambda>k r.
              case skip_ws r of
                e # r' \<Rightarrow>
                  if e = CHR '':'' then
                    scan_then (scan_value f d (skip_ws r')) (\<lambda>v r2.
                      case skip_ws r2 of
                        g # r3 \<Rightarrow>
                          if g = CHR ''}'' then Done (JObj (dict_set acc k v)) r3
                          else if g = CHR '','' then scan_members f d (dict_set acc k v) (skip_ws r3)
                          else Fail comma_msg (g # r3)
                      | [] \<Rightarrow> Fail comma_msg [])
                  else Fail colon_msg (e # r')
              | [] \<Rightarrow> Fail colon_msg [])
          else Fail property_msg ts
      | [] \<Rightarrow> Fail property_msg ts)"

section \<open>The document: \<^verbatim>\<open>JSONDecoder.decode\<close> and \<^verbatim>\<open>json.loads\<close>\<close>

text \<open>Two units of fuel per character, and two more, are enough (\<open>scan_document_terminates\<close>).\<close>

definition json_fuel :: "string \<Rightarrow> nat" where
  "json_fuel s = 2 * length s + 2"

text \<open>Whitespace, one value, whitespace, and nothing else (\<^verbatim>\<open>"Extra data"\<close>).\<close>

definition scan_document :: "string \<Rightarrow> json scan" where
  "scan_document s =
     scan_then (scan_value (json_fuel s) 0 (skip_ws s)) (\<lambda>v r.
       case skip_ws r of [] \<Rightarrow> Done v [] | r' \<Rightarrow> Fail ''Extra data'' r')"

text \<open>
  \<^verbatim>\<open>JSONDecodeError(msg, doc, pos)\<close>: its text gives the line (newlines before
  \<open>pos\<close>, plus one) and the column (characters since the last of them, plus one).
\<close>

definition decode_error :: "string \<Rightarrow> string \<Rightarrow> string \<Rightarrow> exn" where
  "decode_error doc msg rest =
     (let pos = length doc - length rest; pre = take pos doc in
      ValueError (msg @ '': line '' @ nat_str (Suc (count_list pre (CHR 0x0A)))
        @ '' column '' @ nat_str (Suc (length (takeWhile (\<lambda>c. c \<noteq> CHR 0x0A) (rev pre))))
        @ '' (char '' @ nat_str pos @ '')''))"

text \<open>
  Bodies the model reads: ASCII, which UTF-8 decodes unchanged, and for which
  \<^verbatim>\<open>detect_encoding\<close> chooses UTF-8 (it chooses UTF-16 or UTF-32 when one of the
  first two bytes of a body of length 2 or at least 4 is zero).
\<close>

definition ascii_utf8 :: "string \<Rightarrow> bool" where
  "ascii_utf8 b \<longleftrightarrow>
     list_all (\<lambda>c. of_char c < (128::nat)) b \<and>
     \<not> ((length b = 2 \<or> 4 \<le> length b) \<and> (b ! 0 = CHR 0x00 \<or> b ! 1 = CHR 0x00))"

text \<open>\<^verbatim>\<open>json.loads(body)\<close>: \<open>None\<close> where the model claims nothing.\<close>

definition json_loads :: "string \<Rightarrow> (exn + json) option" where
  "json_loads b =
     (if \<not> ascii_utf8 b then None
      else case scan_document b of
        Done v _ \<Rightarrow> Some (Inr v)
      | Fail msg r \<Rightarrow> Some (Inl (decode_error b msg r))
      | Bad e \<Rightarrow> Some (Inl e)
      | Beyond \<Rightarrow> None
      | NoFuel \<Rightarrow> None)"

section \<open>What the round trip needs of a value\<close>

text \<open>
  The values \<^verbatim>\<open>json.loads\<close> gives back from \<^verbatim>\<open>json.dumps\<close>: no object of the
  model's \<open>JOther\<close>, distinct keys in every object (a dict's), integers within the
  digit limit, and nesting within \<open>json_depth_bound\<close>.
\<close>

fun keys_distinct :: "json \<Rightarrow> bool" where
  "keys_distinct (JList xs) = list_all keys_distinct xs"
| "keys_distinct (JObj kvs) = (distinct (map fst kvs) \<and> list_all (\<lambda>(k, v). keys_distinct v) kvs)"
| "keys_distinct _ = True"

fun fits_depth :: "nat \<Rightarrow> json \<Rightarrow> bool" where
  "fits_depth n (JList xs) = (0 < n \<and> list_all (fits_depth (n - 1)) xs)"
| "fits_depth n (JObj kvs) = (0 < n \<and> list_all (\<lambda>(k, v). fits_depth (n - 1) v) kvs)"
| "fits_depth n _ = True"

definition loadable :: "json \<Rightarrow> bool" where
  "loadable j \<longleftrightarrow> plain_json j \<and> keys_distinct j \<and> ints_fit j \<and> fits_depth json_depth_bound j"

section \<open>Lemmas: sequencing and whitespace\<close>

lemma scan_then_simps [simp]:
  "scan_then (Done v r) f = f v r" "scan_then (Fail m r) f = Fail m r" "scan_then (Bad e) f = Bad e"
  "scan_then Beyond f = Beyond" "scan_then NoFuel f = NoFuel"
  by (simp_all add: scan_then_def)

lemma scan_then_eq_Done:
  "scan_then m f = Done v r \<longleftrightarrow> (\<exists>u r0. m = Done u r0 \<and> f u r0 = Done v r)"
  by (cases m) simp_all

lemma scan_then_eq_NoFuel:
  "scan_then m f = NoFuel \<longleftrightarrow> m = NoFuel \<or> (\<exists>u r0. m = Done u r0 \<and> f u r0 = NoFuel)"
  by (cases m) simp_all

lemma length_skip_ws [simp]: "length (skip_ws ts) \<le> length ts"
  by (simp add: skip_ws_def length_dropWhile_le)

lemma skip_ws_Cons_length: "skip_ws ts = c # r \<Longrightarrow> length r < length ts"
  using length_skip_ws[of ts] by simp

section \<open>Lemmas: every scan that succeeds consumes input\<close>

lemma scan_str_consumes: "scan_str q acc ts = Done s r \<Longrightarrow> length r < length ts"
proof (induction q acc ts rule: scan_str.induct)
  case (1 q acc)
  then show ?case by simp
next
  case (2 q acc c cs)
  show ?case
  proof (cases "c = bslash")
    case False
    with 2 show ?thesis by (auto split: if_splits)
  next
    case True
    with "2.prems" obtain e r0 where cs: "cs = e # r0" by (cases cs) auto
    show ?thesis
    proof (cases "e = CHR ''u''")
      case True
      with 2 \<open>c = bslash\<close> cs have "length r < length (drop 4 r0)"
        by (auto split: if_splits option.splits)
      with cs show ?thesis by simp
    next
      case False
      with "2.prems" \<open>c = bslash\<close> cs obtain ch where
        "short_escape e = Some ch" and "scan_str q (acc @ [ch]) r0 = Done s r"
        by (auto split: option.splits)
      with 2 \<open>c = bslash\<close> cs False have "length r < length r0" by simp
      with cs show ?thesis by simp
    qed
  qed
qed

lemma int_part_consumes: "int_part ts = Some (ds, r) \<Longrightarrow> length r < length ts"
  by (auto simp add: int_part_def length_dropWhile_le le_imp_less_Suc split: list.splits if_splits)

lemma frac_part_length: "frac_part ts = (fr, r) \<Longrightarrow> length r \<le> length ts"
  by (auto simp add: frac_part_def length_dropWhile_le le_SucI split: list.splits if_splits)

lemma exp_sign_length: "exp_sign r = (s, r1) \<Longrightarrow> length r1 \<le> length r"
  by (auto simp add: exp_sign_def split: list.splits if_splits)

lemma exp_part_length: "exp_part ts = (ex, r) \<Longrightarrow> length r \<le> length ts"
proof -
  assume e: "exp_part ts = (ex, r)"
  show ?thesis
  proof (cases ts)
    case Nil
    with e show ?thesis by (simp add: exp_part_def)
  next
    case (Cons c r0)
    obtain s r1 where es: "exp_sign r0 = (s, r1)" by fastforce
    have "length (dropWhile is_digit r1) \<le> length r0"
      using exp_sign_length[OF es] length_dropWhile_le[of is_digit r1] by simp
    with e Cons es show ?thesis by (auto simp add: exp_part_def split: if_splits)
  qed
qed

lemma scan_number_consumes: "scan_number ts = Done v r \<Longrightarrow> length r < length ts"
proof -
  assume d: "scan_number ts = Done v r"
  obtain neg t1 where nt: "(case ts of c # r \<Rightarrow> if c = CHR ''-'' then (True, r) else (False, ts)
      | [] \<Rightarrow> (False, ts)) = (neg, t1)" by fastforce
  have t1: "length t1 \<le> length ts"
    using nt by (auto split: list.splits if_splits)
  from d nt obtain ds r1 where ip: "int_part t1 = Some (ds, r1)"
    by (auto simp add: scan_number_def split: option.splits)
  obtain fr r2 where fp: "frac_part r1 = (fr, r2)" by fastforce
  obtain ex r3 where ep: "exp_part r2 = (ex, r3)" by fastforce
  from d nt ip fp ep have "r = r3"
    by (auto simp add: scan_number_def split: if_splits)
  with int_part_consumes[OF ip] frac_part_length[OF fp] exp_part_length[OF ep] t1 show ?thesis
    by simp
qed

lemma scan_literal_consumes: "scan_literal ts = Done v r \<Longrightarrow> length r < length ts"
proof -
  assume d: "scan_literal ts = Done v r"
  have take: "take n ts = w \<Longrightarrow> w \<noteq> [] \<Longrightarrow> length (drop n ts) < length ts" for n w
    by (cases ts) auto
  from d show ?thesis
    by (auto simp add: scan_literal_def intro: take scan_number_consumes split: if_splits)
qed

section \<open>Lemmas: inversion of the loops, consumption, and enough fuel\<close>

lemma scan_items_DoneE:
  "scan_items (Suc f) d acc ts = Done v r \<Longrightarrow>
     \<exists>u r0 e r'. scan_value f d ts = Done u r0 \<and> skip_ws r0 = e # r' \<and>
       ((e = CHR '']'' \<and> v = JList (acc @ [u]) \<and> r = r') \<or>
        (e = CHR '','' \<and> scan_items f d (acc @ [u]) (skip_ws r') = Done v r))"
  by (cases "scan_value f d ts") (auto split: list.splits if_splits)

lemma scan_Nil_not_Done:
  "scan_value f d [] \<noteq> Done v r" "scan_items f d acc [] \<noteq> Done v r" "scan_members f d kvs [] \<noteq> Done v r"
proof -
  show nv: "scan_value f d [] \<noteq> Done v r" for f v r by (cases f) simp_all
  show "scan_items f d acc [] \<noteq> Done v r" by (cases f) (simp_all add: scan_then_def nv split: scan.splits)
  show "scan_members f d kvs [] \<noteq> Done v r" by (cases f) simp_all
qed

lemma scan_members_DoneE:
  "scan_members (Suc f) d kvs ts = Done v r \<Longrightarrow>
     \<exists>cs key r1 r' u r2 g r3. ts = dquote # cs \<and> scan_str ts [] cs = Done key r1 \<and>
       skip_ws r1 = CHR '':'' # r' \<and> scan_value f d (skip_ws r') = Done u r2 \<and> skip_ws r2 = g # r3 \<and>
       ((g = CHR ''}'' \<and> v = JObj (dict_set kvs key u) \<and> r = r3) \<or>
        (g = CHR '','' \<and> scan_members f d (dict_set kvs key u) (skip_ws r3) = Done v r))"
proof -
  assume a: "scan_members (Suc f) d kvs ts = Done v r"
  obtain cs where ts: "ts = dquote # cs" using a by (cases ts) (auto split: if_splits)
  show ?thesis
  proof (cases "scan_str ts [] cs")
    case (Done key r1)
    note s = this
    show ?thesis
    proof (cases "skip_ws r1")
      case (Cons e r')
      note c = this
      show ?thesis
      proof (cases "scan_value f d (skip_ws r')")
        case (Done u r2)
        with a ts s c show ?thesis by (auto split: list.splits if_splits)
      qed (use a ts s c in \<open>auto split: if_splits\<close>)
    qed (use a ts s in simp)
  qed (use a ts in simp_all)
qed

lemma scan_container_consumes:
  assumes "skip_ws cs = [] \<Longrightarrow> g [] = Done v r \<Longrightarrow> length r < 0"
    and "\<And>e r0. skip_ws cs = e # r0 \<Longrightarrow> e \<noteq> close \<Longrightarrow> g (e # r0) = Done v r \<Longrightarrow>
           length r < length (e # r0)"
    and "(case skip_ws cs of e # r0 \<Rightarrow> if e = close then Done u r0 else g (e # r0) | [] \<Rightarrow> g []) = Done v r"
    and "ts = c # cs"
  shows "length r < length ts"
proof (cases "skip_ws cs")
  case Nil
  with assms show ?thesis by simp
next
  case (Cons e r0)
  then have l: "length r0 < length cs" by (rule skip_ws_Cons_length)
  show ?thesis
  proof (cases "e = close")
    case True
    with assms Cons l show ?thesis by simp
  next
    case False
    with assms(3) Cons have "g (e # r0) = Done v r" by simp
    with assms(2)[OF Cons False] assms(4) l show ?thesis by simp
  qed
qed

lemma scan_consumes:
  "scan_value f d ts = Done v r \<Longrightarrow> length r < length ts"
  "scan_items f d acc ts = Done v r \<Longrightarrow> length r < length ts"
  "scan_members f d kvs ts = Done v r \<Longrightarrow> length r < length ts"
proof (induction f d ts and f d acc ts and f d kvs ts arbitrary: v r and v r and v r
    rule: scan_value_scan_items_scan_members.induct)
  case (2 f d ts)
  show ?case
  proof (cases ts)
    case Nil
    with "2.prems" show ?thesis by simp
  next
    case (Cons c cs)
    show ?thesis
    proof (cases "c = dquote")
      case True
      with "2.prems" Cons show ?thesis by (auto simp add: scan_then_eq_Done dest!: scan_str_consumes)
    next
      case nq: False
      show ?thesis
      proof (cases "c = CHR ''[''")
        case True
        with nq "2.prems" Cons have nd: "\<not> json_depth_bound \<le> d"
          and sc: "(case skip_ws cs of e # r0 \<Rightarrow> if e = CHR '']'' then Done (JList []) r0
                    else scan_items f (Suc d) [] (e # r0) | [] \<Rightarrow> scan_items f (Suc d) [] []) = Done v r"
          by (auto split: if_splits)
        show ?thesis
          by (rule scan_container_consumes[OF _ _ sc Cons]) (use "2.IH"(2) True nq nd Cons scan_Nil_not_Done in simp_all)
      next
        case na: False
        show ?thesis
        proof (cases "c = CHR ''{''")
          case True
          with nq na "2.prems" Cons have nd: "\<not> json_depth_bound \<le> d"
            and sc: "(case skip_ws cs of e # r0 \<Rightarrow> if e = CHR ''}'' then Done (JObj []) r0
                      else scan_members f (Suc d) [] (e # r0) | [] \<Rightarrow> scan_members f (Suc d) [] []) = Done v r"
            by (auto split: if_splits)
          show ?thesis
            by (rule scan_container_consumes[OF _ _ sc Cons]) (use "2.IH"(4) True nq na nd Cons scan_Nil_not_Done in simp_all)
        next
          case False
          with nq na "2.prems" Cons show ?thesis by (auto dest!: scan_literal_consumes)
        qed
      qed
    qed
  qed
next
  case (4 f d acc ts)
  from scan_items_DoneE[OF "4.prems"] obtain u r0 e r' where v: "scan_value f d ts = Done u r0"
    and e: "skip_ws r0 = e # r'"
    and k: "(e = CHR '']'' \<and> v = JList (acc @ [u]) \<and> r = r') \<or>
            (e = CHR '','' \<and> scan_items f d (acc @ [u]) (skip_ws r') = Done v r)"
    by blast
  have "length r0 < length ts" by (rule "4.IH"(1)[OF v])
  moreover have "length r' < length r0" using e by (rule skip_ws_Cons_length)
  moreover have "length r \<le> length r'"
  proof (cases "e = CHR '']''")
    case True
    with k show ?thesis by simp
  next
    case False
    with k have "e = CHR '',''" and it: "scan_items f d (acc @ [u]) (skip_ws r') = Done v r" by auto
    with "4.IH"(2)[OF e False] have "length r < length (skip_ws r')" by blast
    then show ?thesis using length_skip_ws[of r'] by linarith
  qed
  ultimately show ?case by simp
next
  case (6 f d kvs ts)
  from scan_members_DoneE[OF "6.prems"] obtain cs key r1 r' u r2 g r3 where
    ts: "ts = dquote # cs" and s: "scan_str ts [] cs = Done key r1" and c: "skip_ws r1 = CHR '':'' # r'"
    and v: "scan_value f d (skip_ws r') = Done u r2" and g: "skip_ws r2 = g # r3"
    and k: "(g = CHR ''}'' \<and> v = JObj (dict_set kvs key u) \<and> r = r3) \<or>
            (g = CHR '','' \<and> scan_members f d (dict_set kvs key u) (skip_ws r3) = Done v r)"
    by blast
  have "length r1 < length cs" by (rule scan_str_consumes[OF s])
  moreover have "length r' < length r1" using c by (rule skip_ws_Cons_length)
  moreover have "length r2 < length (skip_ws r')" by (rule "6.IH"(1)[OF ts _ c _ v]) simp_all
  moreover have "length r3 < length r2" using g by (rule skip_ws_Cons_length)
  moreover have "length r \<le> length r3"
  proof (cases "g = CHR ''}''")
    case True
    with k show ?thesis by simp
  next
    case False
    with k have "g = CHR '',''" and it: "scan_members f d (dict_set kvs key u) (skip_ws r3) = Done v r"
      by auto
    with "6.IH"(2)[OF ts _ c _ g False] have "length r < length (skip_ws r3)" by simp
    then show ?thesis using length_skip_ws[of r3] by linarith
  qed
  ultimately show ?case using ts length_skip_ws[of r'] by (simp del: length_skip_ws)
qed simp_all

lemma scan_str_not_NoFuel: "scan_str q acc ts \<noteq> NoFuel"
  by (induction q acc ts rule: scan_str.induct) (auto split: list.splits if_splits option.splits)

lemma scan_literal_not_NoFuel: "scan_literal ts \<noteq> NoFuel"
  by (auto simp add: scan_literal_def scan_number_def split: prod.splits option.splits)

lemma scan_container_fuel:
  assumes "skip_ws cs = [] \<Longrightarrow> g [] \<noteq> NoFuel"
    and "\<And>e r0. skip_ws cs = e # r0 \<Longrightarrow> e \<noteq> close \<Longrightarrow> g (e # r0) \<noteq> NoFuel"
  shows "(case skip_ws cs of e # r0 \<Rightarrow> if e = close then Done u r0 else g (e # r0) | [] \<Rightarrow> g []) \<noteq> NoFuel"
  using assms by (cases "skip_ws cs") auto

lemma scan_enough_fuel:
  "2 * length ts < f \<Longrightarrow> scan_value f d ts \<noteq> NoFuel"
  "2 * length ts + 1 < f \<Longrightarrow> scan_items f d acc ts \<noteq> NoFuel"
  "2 * length ts + 1 < f \<Longrightarrow> scan_members f d kvs ts \<noteq> NoFuel"
proof (induction f d ts and f d acc ts and f d kvs ts rule: scan_value_scan_items_scan_members.induct)
  case (2 f d ts)
  show ?case
  proof (cases ts)
    case Nil
    then show ?thesis by simp
  next
    case (Cons c cs)
    have short: "skip_ws cs = e # r0 \<Longrightarrow> 2 * length (e # r0) + 1 < f" for e r0
      using "2.prems" Cons skip_ws_Cons_length[of cs e r0] by simp
    have nil: "1 < f" using "2.prems" Cons by simp
    consider "c = dquote" | "c \<noteq> dquote" "c = CHR ''[''" | "c \<noteq> dquote" "c \<noteq> CHR ''[''" "c = CHR ''{''"
      | "c \<noteq> dquote" "c \<noteq> CHR ''[''" "c \<noteq> CHR ''{''" by blast
    then show ?thesis
    proof cases
      case 1
      with Cons show ?thesis by (simp add: scan_then_def scan_str_not_NoFuel split: scan.splits)
    next
      case 2
      note cc = this
      show ?thesis
      proof (cases "json_depth_bound \<le> d")
        case True
        with cc Cons show ?thesis by simp
      next
        case False
        have "(case skip_ws cs of e # r0 \<Rightarrow> if e = CHR '']'' then Done (JList []) r0
                 else scan_items f (Suc d) [] (e # r0)
               | [] \<Rightarrow> scan_items f (Suc d) [] []) \<noteq> NoFuel"
          by (rule scan_container_fuel) (use "2.IH"(1,2) cc False Cons short nil in auto)
        with cc False Cons show ?thesis by simp
      qed
    next
      case 3
      note cc = this
      show ?thesis
      proof (cases "json_depth_bound \<le> d")
        case True
        with cc Cons show ?thesis by simp
      next
        case False
        have "(case skip_ws cs of e # r0 \<Rightarrow> if e = CHR ''}'' then Done (JObj []) r0
                 else scan_members f (Suc d) [] (e # r0)
               | [] \<Rightarrow> scan_members f (Suc d) [] []) \<noteq> NoFuel"
          by (rule scan_container_fuel) (use "2.IH"(3,4) cc False Cons short nil in auto)
        with cc False Cons show ?thesis by simp
      qed
    next
      case 4
      with Cons show ?thesis by (simp add: scan_literal_not_NoFuel)
    qed
  qed
next
  case (4 f d acc ts)
  have v: "scan_value f d ts \<noteq> NoFuel" using "4.IH"(1) "4.prems" by simp
  show ?case
  proof (cases "scan_value f d ts")
    case (Done u r0)
    have l0: "length r0 < length ts" by (rule scan_consumes(1)[OF Done])
    show ?thesis
    proof (cases "skip_ws r0")
      case (Cons e r')
      have "length r' < length r0" using Cons by (rule skip_ws_Cons_length)
      with l0 "4.prems" have "2 * length (skip_ws r') + 1 < f"
        using length_skip_ws[of r'] by linarith
      with "4.IH"(2)[OF Cons] Done Cons show ?thesis by auto
    qed (use Done in simp)
  qed (use v in simp_all)
next
  case (6 f d kvs ts)
  show ?case
  proof (cases ts)
    case (Cons c cs)
    show ?thesis
    proof (cases "c = dquote \<and> (\<exists>key r1 r'. scan_str ts [] cs = Done key r1 \<and> skip_ws r1 = CHR '':'' # r')")
      case True
      then obtain key r1 r' where q: "c = dquote" and s: "scan_str ts [] cs = Done key r1"
        and col: "skip_ws r1 = CHR '':'' # r'" by blast
      have l1: "length (skip_ws r') < length ts"
        using scan_str_consumes[OF s] skip_ws_Cons_length[OF col] length_skip_ws[of r'] Cons
        by (simp del: length_skip_ws)
      have v: "scan_value f d (skip_ws r') \<noteq> NoFuel"
        using "6.IH"(1)[OF Cons q col refl] l1 "6.prems" by simp
      show ?thesis
      proof (cases "scan_value f d (skip_ws r')")
        case (Done u r2)
        have l2: "length r2 < length (skip_ws r')" by (rule scan_consumes(1)[OF Done])
        show ?thesis
        proof (cases "skip_ws r2")
          case (Cons g r3)
          have "length r3 < length r2" using Cons by (rule skip_ws_Cons_length)
          with l1 l2 "6.prems" have "2 * length (skip_ws r3) + 1 < f"
            using length_skip_ws[of r3] by linarith
          with "6.IH"(2)[OF \<open>ts = c # cs\<close> q col refl Cons] \<open>ts = c # cs\<close> q s col Done Cons
          show ?thesis by auto
        qed (use \<open>ts = c # cs\<close> q s col Done in simp)
      qed (use \<open>ts = c # cs\<close> q s col v in simp_all)
    next
      case False
      with Cons show ?thesis
        by (auto simp add: scan_then_def scan_str_not_NoFuel split: scan.splits list.splits if_splits)
    qed
  qed simp
qed simp_all

text \<open>
  The decoder always returns: the fuel \<open>json_fuel\<close> that \<^verbatim>\<open>json.loads\<close> is given
  (twice the length of the body, plus two) never runs out, on any body, so every
  body is either decoded, refused with an error, or outside the modelled inputs.
\<close>

lemma scan_document_terminates: "scan_document s \<noteq> NoFuel"
proof -
  have "scan_value (json_fuel s) 0 (skip_ws s) \<noteq> NoFuel"
    by (rule scan_enough_fuel(1)) (simp add: json_fuel_def less_Suc_eq_le order.strict_implies_order
        order_le_less_trans[OF length_skip_ws])
  then show ?thesis
    by (simp add: scan_document_def scan_then_def split: scan.splits list.splits)
qed

section \<open>Lemmas: the exceptions the decoder raises\<close>

lemma scan_then_BadE:
  assumes "scan_then m g = Bad e"
  obtains "m = Bad e" | v r where "m = Done v r" "g v r = Bad e"
  using assms by (cases m) auto

lemma scan_str_not_Bad: "scan_str q acc ts \<noteq> Bad e"
  by (induction q acc ts rule: scan_str.induct) (auto split: list.splits if_splits option.splits)

lemma scan_literal_Bad: "scan_literal ts = Bad e \<Longrightarrow> \<exists>n. e = int_limit_error n"
  by (auto simp add: scan_literal_def scan_number_def split: prod.splits option.splits if_splits)

lemma scan_Bad:
  "scan_value f d ts = Bad e \<Longrightarrow> \<exists>n. e = int_limit_error n"
  "scan_items f d acc ts = Bad e \<Longrightarrow> \<exists>n. e = int_limit_error n"
  "scan_members f d kvs ts = Bad e \<Longrightarrow> \<exists>n. e = int_limit_error n"
proof (induction f d ts and f d acc ts and f d kvs ts rule: scan_value_scan_items_scan_members.induct)
  case (2 f d ts)
  then show ?case
    by (auto split: list.splits if_splits elim!: scan_then_BadE dest: scan_literal_Bad simp: scan_str_not_Bad)
next
  case (4 f d acc ts)
  then show ?case
    by (auto split: list.splits if_splits elim!: scan_then_BadE)
next
  case (6 f d kvs ts)
  then show ?case
    by (auto split: list.splits if_splits elim!: scan_then_BadE simp: scan_str_not_Bad)
qed simp_all


lemma json_loads_Inl: "json_loads b = Some (Inl e) \<Longrightarrow> \<exists>m. e = ValueError m"
proof -
  assume l: "json_loads b = Some (Inl e)"
  show ?thesis
  proof (cases "scan_document b")
    case (Fail msg r)
    with l show ?thesis by (auto simp add: json_loads_def decode_error_def Let_def split: if_splits)
  next
    case (Bad e')
    then have "scan_value (json_fuel b) 0 (skip_ws b) = Bad e'"
      by (auto simp add: scan_document_def elim!: scan_then_BadE split: list.splits)
    then obtain n where "e' = int_limit_error n" using scan_Bad(1) by blast
    with l Bad show ?thesis by (auto simp add: json_loads_def int_limit_error_def split: if_splits)
  qed (use l in \<open>auto simp add: json_loads_def split: if_splits\<close>)
qed

section \<open>Lemmas: a body of whitespace only\<close>

lemma skip_ws_Nil [simp]: "skip_ws [] = []"
  by (simp add: skip_ws_def)

lemma is_ws_ascii: "is_ws c \<Longrightarrow> 0 < (of_char c :: nat) \<and> of_char c < (128::nat)"
  unfolding is_ws_def by (elim disjE) simp_all

text \<open>CPython reports the error at the end of the body, after the whitespace.\<close>

lemma json_loads_blank:
  "list_all is_ws b \<Longrightarrow> json_loads b = Some (Inl (decode_error b expecting_value_msg []))"
proof -
  assume ws: "list_all is_ws b"
  then have sk: "skip_ws b = []" by (simp add: skip_ws_def list_all_iff)
  have p: "0 < (of_char c :: nat) \<and> of_char c < (128::nat)" if "c \<in> set b" for c
    using ws that is_ws_ascii by (simp add: list_all_iff)
  then have "list_all (\<lambda>c. of_char c < (128::nat)) b" by (simp add: list_all_iff)
  moreover have "b ! 0 \<noteq> CHR 0x00 \<and> b ! 1 \<noteq> CHR 0x00" if "length b = 2 \<or> 4 \<le> length b"
  proof -
    have "0 < length b" "1 < length b" using that by auto
    then have "0 < (of_char (b ! 0) :: nat)" "0 < (of_char (b ! 1) :: nat)" using p nth_mem by blast+
    then show ?thesis by auto
  qed
  ultimately have "ascii_utf8 b" unfolding ascii_utf8_def by blast
  have "scan_document b = Fail expecting_value_msg []"
    using sk by (simp add: scan_document_def json_fuel_def numeral_2_eq_2)
  with \<open>ascii_utf8 b\<close> show ?thesis by (simp add: json_loads_def)
qed

end
