(* ===== verification/JsonRoundTrip.thy ===== *)
theory JsonRoundTrip
  imports JsonDecode
begin

text \<open>
  The round trip between the encoder of Json (\<^verbatim>\<open>json.dumps\<close>) and the decoder of
  JsonDecode (\<^verbatim>\<open>json.loads\<close> as \<^verbatim>\<open>tornado.escape.json_decode\<close> runs it): every value the
  decoder can return, written by \<^verbatim>\<open>dumps\<close>, reads back as itself. The proof goes
  bottom up: a string literal (escapes included), an integer literal followed by a
  delimiter, the items of an array and the members of an object, then any value by
  induction on it, with the fuel bound of \<^term>\<open>json_fuel\<close>.
\<close>

section \<open>Where a value may end\<close>

text \<open>What may follow a value inside a document: its end, a comma or a closing bracket.\<close>

definition value_end :: "string \<Rightarrow> bool" where
  "value_end rest \<longleftrightarrow> (case rest of [] \<Rightarrow> True | c # _ \<Rightarrow> c = CHR '','' \<or> c = CHR '']'' \<or> c = CHR ''}'')"

text \<open>The members of an object as \<^verbatim>\<open>dumps\<close> writes them, before they are joined.\<close>

abbreviation member_strs :: "(string \<times> json) list \<Rightarrow> string list" where
  "member_strs kvs \<equiv> map (\<lambda>(k, v). json_str k @ '': '' @ dumps v) kvs"

section \<open>Lemmas: characters\<close>

lemma char_eq_of_char: "c = d \<longleftrightarrow> (of_char c :: nat) = of_char d"
  by (metis char_of_char)

lemma of_char_lt_256: "(of_char c :: nat) < 256"
  by (metis char_of_char of_char_of mod_less_divisor zero_less_numeral)

lemma hex_val_hex_char: "k < 16 \<Longrightarrow> hex_val (hex_char k) = Some k"
  by (simp add: hex_val_def hex_char_def of_char_of Let_def)

lemma hex_val_zero [simp]: "hex_val (CHR ''0'') = Some 0"
  by (simp add: hex_val_def)

lemma char_of_escapes:
  "char_of (34::nat) = dquote" "char_of (92::nat) = bslash" "char_of (10::nat) = CHR 0x0A"
  "char_of (13::nat) = CHR 0x0D" "char_of (9::nat) = CHR 0x09" "char_of (8::nat) = CHR 0x08"
  "char_of (12::nat) = CHR 0x0C"
  by code_simp+

section \<open>Lemmas: string literals\<close>

lemma json_esc_char_scan:
  assumes "more \<noteq> []"
  shows "scan_str q acc (json_esc_char c @ more) = scan_str q (acc @ [c]) more"
proof -
  define n where "n = (of_char c :: nat)"
  have n256: "n < 256" by (simp add: n_def of_char_lt_256)
  have ch: "c = char_of n" by (simp add: n_def)
  consider "n = 0x22" | "n = 0x5C" | "n = 0x0A" | "n = 0x0D" | "n = 0x09" | "n = 0x08" | "n = 0x0C"
    | "n \<notin> {0x22, 0x5C, 0x0A, 0x0D, 0x09, 0x08, 0x0C}" "n < 0x20 \<or> 0x7F \<le> n"
    | "n \<notin> {0x22, 0x5C, 0x0A, 0x0D, 0x09, 0x08, 0x0C}" "\<not> (n < 0x20 \<or> 0x7F \<le> n)"
    by blast
  then show ?thesis
  proof cases
    case 8
    have hd: "n div 16 < 16" using n256 by simp
    have hx: "hex4 (CHR ''0'' # CHR ''0'' # hex_char (n div 16) # hex_char (n mod 16) # more) = Some n"
      using hex_val_hex_char[OF hd] hex_val_hex_char[of "n mod 16"] by simp
    have "json_esc_char c = [bslash, CHR ''u'', CHR ''0'', CHR ''0'', hex_char (n div 16), hex_char (n mod 16)]"
      using 8 by (simp add: json_esc_char_def n_def[symmetric])
    with hx n256 assms ch show ?thesis by simp
  next
    case 9
    then have "json_esc_char c = [c]" by (simp add: json_esc_char_def n_def[symmetric])
    moreover have "c \<noteq> dquote" "c \<noteq> bslash" "\<not> n < 32"
      using 9 by (auto simp add: n_def)
    ultimately show ?thesis by (simp add: n_def)
  qed (simp_all add: ch json_esc_char_def short_escape_def char_of_escapes)
qed

lemma scan_str_json_esc:
  "scan_str q acc (concat (map json_esc_char s) @ dquote # rest) = Done (acc @ s) rest"
  by (induction s arbitrary: acc) (simp_all add: json_esc_char_scan)


section \<open>Lemmas: integer literals\<close>

lemma nat_str_shape:
  "\<exists>c cs. nat_str n = c # cs \<and> is_digit c \<and> list_all is_digit cs \<and>
     (c = CHR ''0'' \<longleftrightarrow> n = 0) \<and> (n = 0 \<longrightarrow> cs = [])"
proof (induction n rule: nat_str.induct)
  case (1 n)
  show ?case
  proof (cases "n < 10")
    case True
    have "digit_char n = CHR ''0'' \<longleftrightarrow> n = 0"
      using True by (auto simp add: digit_char_def char_eq_of_char[of "char_of (48 + n)"] of_char_of)
    with True show ?thesis by (simp add: nat_str.simps[of n] digit_char_props)
  next
    case False
    then obtain c cs where ih: "nat_str (n div 10) = c # cs" "is_digit c" "list_all is_digit cs"
      "c = CHR ''0'' \<longleftrightarrow> n div 10 = 0"
      using "1.IH"[OF False] by auto
    with False show ?thesis by (simp add: nat_str.simps[of n] digit_char_props)
  qed
qed

lemma value_end_not_digit: "value_end rest \<Longrightarrow> takeWhile is_digit rest = [] \<and> dropWhile is_digit rest = rest"
  by (auto simp add: value_end_def is_digit_def split: list.splits)

lemma value_end_parts: "value_end rest \<Longrightarrow> frac_part rest = ([], rest) \<and> exp_part rest = ([], rest)"
  by (auto simp add: value_end_def frac_part_def exp_part_def split: list.splits)

lemma int_part_nat_str:
  assumes "value_end rest"
  shows "int_part (nat_str n @ rest) = Some (nat_str n, rest)"
proof -
  obtain c cs where s: "nat_str n = c # cs" "is_digit c" "list_all is_digit cs"
    "c = CHR ''0'' \<longleftrightarrow> n = 0" "n = 0 \<longrightarrow> cs = []"
    using nat_str_shape by blast
  have "takeWhile is_digit (cs @ rest) = cs" "dropWhile is_digit (cs @ rest) = rest"
    using s(3) value_end_not_digit[OF assms]
    by (simp_all add: takeWhile_append2 dropWhile_append2 list_all_iff)
  with s show ?thesis by (auto simp add: int_part_def)
qed

lemma scan_number_int_str:
  assumes "value_end rest"
  shows "scan_number (int_str i @ rest) =
           (if max_str_digits < length (nat_str (nat \<bar>i\<bar>))
            then Bad (int_limit_error (length (nat_str (nat \<bar>i\<bar>)))) else Done (JInt i) rest)"
proof (cases "i < 0")
  case True
  then show ?thesis
    using assms int_part_nat_str[OF assms(1), of "nat (- i)"] value_end_parts[OF assms(1)]
    by (simp add: scan_number_def int_str_def digits_acc_nat_str)
next
  case False
  obtain c cs where s: "nat_str (nat i) = c # cs" "is_digit c"
    using nat_str_shape by blast
  have "c \<noteq> CHR ''-''" using s(2) by (auto simp add: is_digit_def)
  moreover have "digits_acc (digit_val c) cs = nat i"
    using digits_acc_nat_str[of "nat i"] s(1) by simp
  ultimately show ?thesis
    using False s assms int_part_nat_str[OF assms(1), of "nat i"] value_end_parts[OF assms(1)]
    by (simp add: scan_number_def int_str_def)
qed

lemma scan_literal_int_str:
  assumes "value_end rest"
  shows "scan_literal (int_str i @ rest) =
           (if max_str_digits < length (nat_str (nat \<bar>i\<bar>))
            then Bad (int_limit_error (length (nat_str (nat \<bar>i\<bar>)))) else Done (JInt i) rest)"
proof -
  obtain c cs where s: "nat_str (nat \<bar>i\<bar>) = c # cs" "is_digit c"
    using nat_str_shape by blast
  have lit: "c \<noteq> CHR ''n'' \<and> c \<noteq> CHR ''t'' \<and> c \<noteq> CHR ''f'' \<and> c \<noteq> CHR ''N'' \<and> c \<noteq> CHR ''I'' \<and> c \<noteq> CHR ''-''"
    using s(2) by (auto simp add: is_digit_def)
  have "scan_literal (int_str i @ rest) = scan_number (int_str i @ rest)"
  proof (cases "i < 0")
    case True
    with s lit show ?thesis by (simp add: scan_literal_def int_str_def)
  next
    case False
    with s lit show ?thesis by (simp add: scan_literal_def int_str_def)
  qed
  with scan_number_int_str[OF assms] show ?thesis by simp
qed


section \<open>Lemmas: the text around a value\<close>

lemma dumps_first:
  "\<exists>c cs. dumps j = c # cs \<and> \<not> is_ws c \<and> c \<noteq> CHR '']'' \<and> c \<noteq> CHR ''}''"
proof (cases j)
  case (JInt i)
  obtain c cs where s: "nat_str (nat \<bar>i\<bar>) = c # cs" "is_digit c"
    using nat_str_shape by blast
  then have "\<not> is_ws c \<and> c \<noteq> CHR '']'' \<and> c \<noteq> CHR ''}''"
    by (auto simp add: is_digit_def is_ws_def)
  with s JInt show ?thesis by (auto simp add: int_str_def is_ws_def)
qed (auto simp add: is_ws_def json_str_def)

lemma skip_ws_dumps [simp]: "skip_ws (dumps j @ rest) = dumps j @ rest"
  using dumps_first[of j] by (auto simp add: skip_ws_def)

lemma dumps_Cons_ne [simp]:
  "dumps j @ rest \<noteq> CHR '']'' # r" "dumps j @ rest \<noteq> CHR ''}'' # r" "dumps j @ rest \<noteq> []"
  using dumps_first[of j] by auto

lemma skip_ws_space [simp]: "skip_ws (CHR '' '' # ts) = skip_ws ts"
  by (simp add: skip_ws_def is_ws_def)

lemma skip_ws_delims [simp]:
  "skip_ws (CHR '','' # ts) = CHR '','' # ts" "skip_ws (CHR '']'' # ts) = CHR '']'' # ts"
  "skip_ws (CHR ''}'' # ts) = CHR ''}'' # ts" "skip_ws (CHR '':'' # ts) = CHR '':'' # ts"
  "skip_ws (dquote # ts) = dquote # ts"
  by (simp_all add: skip_ws_def is_ws_def)

lemma value_end_delims [simp]:
  "value_end (CHR '','' # ts)" "value_end (CHR '']'' # ts)" "value_end (CHR ''}'' # ts)" "value_end []"
  by (simp_all add: value_end_def)

lemma skip_ws_py_join_dumps [simp]:
  "skip_ws (py_join '', '' (dumps y # ys) @ r) = py_join '', '' (dumps y # ys) @ r"
  by (cases ys) simp_all

section \<open>Lemmas: arrays\<close>

lemma scan_items_dumps:
  assumes "\<forall>x \<in> set xs. \<forall>f rest. value_end rest \<longrightarrow> 2 * length (dumps x @ rest) < f \<longrightarrow>
             scan_value f d (dumps x @ rest) = Done x rest"
    and "xs \<noteq> []"
    and "2 * length (py_join '', '' (map dumps xs) @ CHR '']'' # rest) + 1 < f"
  shows "scan_items f d acc (py_join '', '' (map dumps xs) @ CHR '']'' # rest) = Done (JList (acc @ xs)) rest"
  using assms
proof (induction xs arbitrary: acc f rule: induct_list012)
  case (2 x)
  then obtain f' where f: "f = Suc f'" by (cases f) auto
  have "scan_value f' d (dumps x @ CHR '']'' # rest) = Done x (CHR '']'' # rest)"
    using "2.prems"(1,3) f by simp
  with f show ?case by simp
next
  case (3 x y ys)
  then obtain f' where f: "f = Suc f'" by (cases f) auto
  let ?P = "py_join '', '' (map dumps (y # ys)) @ CHR '']'' # rest"
  have v: "scan_value f' d (dumps x @ CHR '','' # CHR '' '' # ?P) = Done x (CHR '','' # CHR '' '' # ?P)"
    using "3.prems"(1,3) f by simp
  have "scan_items f' d (acc @ [x]) ?P = Done (JList ((acc @ [x]) @ y # ys)) rest"
    using "3.IH"(2)[where acc = "acc @ [x]" and f = f'] "3.prems"(1,3) f by simp
  with v f show ?case by simp
qed simp


section \<open>Lemmas: objects\<close>

lemma dict_set_fresh: "k \<notin> set (map fst acc) \<Longrightarrow> dict_set acc k v = acc @ [(k, v)]"
  by (induction acc) auto

lemma scan_str_json_str:
  "json_str k @ rest = dquote # cs \<Longrightarrow> scan_str (dquote # cs) [] cs = Done k rest"
  using scan_str_json_esc[of "dquote # cs" "[]" k rest] by (simp add: json_str_def)

lemma skip_ws_py_join_members [simp]:
  "skip_ws (py_join '', '' ((json_str k @ w) # ys) @ r) = py_join '', '' ((json_str k @ w) # ys) @ r"
  by (cases ys) (simp_all add: json_str_def)

lemma scan_members_dumps:
  assumes "\<forall>(k, v) \<in> set kvs. \<forall>f rest. value_end rest \<longrightarrow> 2 * length (dumps v @ rest) < f \<longrightarrow>
             scan_value f d (dumps v @ rest) = Done v rest"
    and "kvs \<noteq> []" and "distinct (map fst (acc @ kvs))"
    and "2 * length (py_join '', '' (member_strs kvs) @ CHR ''}'' # rest) + 1 < f"
  shows "scan_members f d acc (py_join '', '' (member_strs kvs) @ CHR ''}'' # rest) = Done (JObj (acc @ kvs)) rest"
  using assms
proof (induction kvs arbitrary: acc f rule: induct_list012)
  case (2 x)
  obtain k v where x: "x = (k, v)" by (cases x)
  obtain f' where f: "f = Suc f'" using "2.prems"(4) by (cases f) auto
  obtain cs where cs: "json_str k @ CHR '':'' # CHR '' '' # dumps v @ CHR ''}'' # rest = dquote # cs"
    by (simp add: json_str_def)
  have v: "scan_value f' d (dumps v @ CHR ''}'' # rest) = Done v (CHR ''}'' # rest)"
    using "2.prems"(1,4) f x by simp
  have k: "k \<notin> set (map fst acc)" using "2.prems"(3) x by simp
  show ?case
    using scan_str_json_str[OF cs] cs v k f x by (simp add: dict_set_fresh)
next
  case (3 x y ys)
  obtain k v where x: "x = (k, v)" by (cases x)
  obtain f' where f: "f = Suc f'" using "3.prems"(4) by (cases f) auto
  let ?P = "py_join '', '' (member_strs (y # ys)) @ CHR ''}'' # rest"
  obtain cs where cs: "json_str k @ CHR '':'' # CHR '' '' # dumps v @ CHR '','' # CHR '' '' # ?P = dquote # cs"
    by (simp add: json_str_def)
  have v: "scan_value f' d (dumps v @ CHR '','' # CHR '' '' # ?P) = Done v (CHR '','' # CHR '' '' # ?P)"
    using "3.prems"(1,4) f x by simp
  have k: "k \<notin> set (map fst acc)" using "3.prems"(3) x by simp
  have "scan_members f' d (acc @ [(k, v)]) ?P = Done (JObj ((acc @ [(k, v)]) @ y # ys)) rest"
    using "3.IH"(2)[where acc = "acc @ [(k, v)]" and f = f'] "3.prems"(1,3,4) f x by simp
  moreover obtain k' v' where "y = (k', v')" by (cases y)
  ultimately show ?case
    using scan_str_json_str[OF cs] cs v k f x by (simp add: dict_set_fresh)
qed simp


section \<open>Lemmas: any value\<close>

lemma int_str_first: "\<exists>c cs. int_str i = c # cs \<and> c \<noteq> dquote \<and> c \<noteq> CHR ''['' \<and> c \<noteq> CHR ''{''"
proof -
  obtain c cs where s: "nat_str (nat \<bar>i\<bar>) = c # cs" "is_digit c"
    using nat_str_shape by blast
  have "c \<noteq> dquote \<and> c \<noteq> CHR ''['' \<and> c \<noteq> CHR ''{''" using s(2) by (auto simp add: is_digit_def)
  with s show ?thesis by (auto simp add: int_str_def)
qed

lemma scan_value_dumps:
  assumes "plain_json j" and "keys_distinct j" and "ints_fit j" and "fits_depth (json_depth_bound - d) j"
    and "value_end rest" and "2 * length (dumps j @ rest) < f"
  shows "scan_value f d (dumps j @ rest) = Done j rest"
  using assms
proof (induction j arbitrary: d f rest)
  case JNull
  then obtain f' where "f = Suc f'" by (cases f) auto
  then show ?case by (simp add: scan_literal_def)
next
  case (JBool b)
  then obtain f' where "f = Suc f'" by (cases f) auto
  then show ?case by (cases b) (simp_all add: scan_literal_def)
next
  case (JInt i)
  then obtain f' where f: "f = Suc f'" by (cases f) auto
  obtain c cs where c: "int_str i = c # cs" "c \<noteq> dquote" "c \<noteq> CHR ''[''" "c \<noteq> CHR ''{''"
    using int_str_first by blast
  have "scan_literal (int_str i @ rest) = Done (JInt i) rest"
    using JInt.prems scan_literal_int_str[of rest i] by simp
  with f c show ?case by simp
next
  case (JStr s)
  then obtain f' where f: "f = Suc f'" by (cases f) auto
  obtain cs where cs: "json_str s @ rest = dquote # cs" by (simp add: json_str_def)
  with scan_str_json_str[OF cs] f show ?case by simp
next
  case (JList xs)
  then obtain f' where f: "f = Suc f'" by (cases f) auto
  have nd: "\<not> json_depth_bound \<le> d" using JList.prems(4) by simp
  show ?case
  proof (cases "xs = []")
    case True
    with f nd show ?thesis by simp
  next
    case False
    have "\<forall>x \<in> set xs. \<forall>f rest. value_end rest \<longrightarrow> 2 * length (dumps x @ rest) < f \<longrightarrow>
             scan_value f (Suc d) (dumps x @ rest) = Done x rest"
    proof (intro ballI allI impI)
      fix x f rest assume x: "x \<in> set xs" "value_end rest" "2 * length (dumps x @ rest) < f"
      have "fits_depth (json_depth_bound - d - 1) x" using JList.prems(4) x(1) by (simp add: list_all_iff)
      then have "fits_depth (json_depth_bound - Suc d) x" by (simp add: diff_diff_left)
      moreover have "plain_json x" "keys_distinct x" "ints_fit x"
        using JList.prems(1-3) x(1) by (simp_all add: list_all_iff)
      ultimately show "scan_value f (Suc d) (dumps x @ rest) = Done x rest"
        using JList.IH[OF x(1)] x(2,3) by blast
    qed
    from scan_items_dumps[OF this False, of rest f' "[]"] JList.prems(6) f nd False
    obtain y ys where "xs = y # ys" "scan_items f' (Suc d) [] (py_join '', '' (map dumps xs) @ CHR '']'' # rest) = Done (JList xs) rest"
      by (cases xs) simp_all
    moreover obtain c cs where "dumps y = c # cs" "\<not> is_ws c" "c \<noteq> CHR '']''"
      using dumps_first[of y] by blast
    ultimately show ?thesis using f nd by (cases ys) (simp_all add: skip_ws_def)
  qed
next
  case (JObj kvs)
  then obtain f' where f: "f = Suc f'" by (cases f) auto
  have nd: "\<not> json_depth_bound \<le> d" using JObj.prems(4) by simp
  show ?case
  proof (cases "kvs = []")
    case True
    with f nd show ?thesis by simp
  next
    case False
    have "\<forall>(k, v) \<in> set kvs. \<forall>f rest. value_end rest \<longrightarrow> 2 * length (dumps v @ rest) < f \<longrightarrow>
             scan_value f (Suc d) (dumps v @ rest) = Done v rest"
    proof (intro ballI allI impI, clarify)
      fix k v f rest assume x: "(k, v) \<in> set kvs" "value_end rest" "2 * length (dumps v @ rest) < f"
      have "fits_depth (json_depth_bound - d - 1) v" using JObj.prems(4) x(1) by (fastforce simp add: list_all_iff)
      then have "fits_depth (json_depth_bound - Suc d) v" by (simp add: diff_diff_left)
      moreover have "plain_json v" "keys_distinct v" "ints_fit v"
        using JObj.prems(1-3) x(1) by (fastforce simp add: list_all_iff)+
      moreover have "v \<in> Basic_BNFs.snds (k, v)" by simp
      ultimately show "scan_value f (Suc d) (dumps v @ rest) = Done v rest"
        using JObj.IH[OF x(1)] x(2,3) by blast
    qed
    moreover have "distinct (map fst ([] @ kvs))" using JObj.prems(2) by simp
    ultimately have m: "scan_members f' (Suc d) [] (py_join '', '' (member_strs kvs) @ CHR ''}'' # rest)
        = Done (JObj ([] @ kvs)) rest"
      using JObj.prems(6) f False by (intro scan_members_dumps) simp_all
    obtain k v ys where kvs: "kvs = (k, v) # ys" using False by (cases kvs) auto
    with m f nd show ?thesis by (cases ys) (simp_all add: json_str_def skip_ws_def is_ws_def)
  qed
qed simp


section \<open>Lemmas: the encoder writes printable ASCII\<close>

lemma hex_char_printable: "d < 16 \<Longrightarrow> 32 \<le> (of_char (hex_char d) :: nat) \<and> of_char (hex_char d) < (127::nat)"
  by (simp add: hex_char_def)

lemma json_esc_char_printable: "\<forall>c' \<in> set (json_esc_char c). 32 \<le> (of_char c' :: nat) \<and> of_char c' < (127::nat)"
proof -
  have "of_char c div 16 < (16::nat)" using of_char_lt_256[of c] by (simp add: div_less_iff_less_mult)
  then show ?thesis
    using hex_char_printable[of "of_char c div 16"] hex_char_printable[of "of_char c mod 16"]
    by (auto simp add: json_esc_char_def Let_def)
qed

lemma py_join_printable:
  "\<forall>c \<in> set sep. P c \<Longrightarrow> \<forall>x \<in> set xs. \<forall>c \<in> set x. P c \<Longrightarrow> \<forall>c \<in> set (py_join sep xs). P c"
  by (induction sep xs rule: py_join.induct) auto


lemma json_str_printable: "\<forall>c \<in> set (json_str s). 32 \<le> (of_char c :: nat) \<and> of_char c < (127::nat)"
  using json_esc_char_printable by (simp add: json_str_def)

lemma dumps_printable: "\<forall>c \<in> set (dumps j). 32 \<le> (of_char c :: nat) \<and> of_char c < (127::nat)"
proof (induction j)
  case JNull
  show ?case by simp
next
  case (JBool b)
  show ?case by simp
next
  case (JInt i)
  have d: "48 \<le> (of_char c :: nat) \<and> of_char c \<le> (57::nat)" if "c \<in> set (nat_str n)" for c n
    using nat_str_digits[of n] that by (simp add: list_all_iff is_digit_def)
  show ?case by (auto simp add: int_str_def dest!: d)
next
  case (JStr s)
  show ?case using json_str_printable by simp
next
  case (JOther s)
  show ?case using json_str_printable by simp
next
  case (JList xs)
  have "\<forall>c \<in> set (py_join '', '' (map dumps xs)). 32 \<le> (of_char c :: nat) \<and> of_char c < (127::nat)"
    by (rule py_join_printable) (use JList.IH in simp_all)
  then show ?case by simp
next
  case (JObj kvs)
  have "\<forall>c \<in> set (json_str k @ '': '' @ dumps v). 32 \<le> (of_char c :: nat) \<and> of_char c < (127::nat)"
    if "(k, v) \<in> set kvs" for k v
    using JObj.IH[OF that, of v] json_str_printable[of k] by (simp add: ball_Un)
  then have "\<forall>c \<in> set (py_join '', '' (map (\<lambda>(k, v). json_str k @ '': '' @ dumps v) kvs)).
      32 \<le> (of_char c :: nat) \<and> of_char c < (127::nat)"
    by (intro py_join_printable) auto
  then show ?case by simp
qed


lemma ascii_utf8_dumps: "ascii_utf8 (dumps j)"
proof -
  have p: "\<forall>c \<in> set (dumps j). 32 \<le> (of_char c :: nat) \<and> of_char c < (127::nat)"
    by (rule dumps_printable)
  then have "list_all (\<lambda>c. of_char c < (128::nat)) (dumps j)" by (auto simp add: list_all_iff)
  moreover have nz: "dumps j ! n \<noteq> CHR 0x00" if "n < length (dumps j)" for n
    using p nth_mem[OF that] by fastforce
  moreover have "dumps j ! 0 \<noteq> CHR 0x00 \<and> dumps j ! 1 \<noteq> CHR 0x00"
    if "length (dumps j) = 2 \<or> 4 \<le> length (dumps j)"
  proof -
    have "0 < length (dumps j)" "1 < length (dumps j)" using that by auto
    then show ?thesis using nz by blast
  qed
  ultimately show ?thesis by (auto simp add: ascii_utf8_def)
qed

section \<open>The round trip\<close>

text \<open>
  \<^verbatim>\<open>json.loads(json.dumps(v)) == v\<close> for every value the decoder can return: a
  value built of \<^verbatim>\<open>null\<close>, booleans, integers of at most 4300 digits, strings of byte
  characters, arrays and objects with distinct keys, nested fewer than 100 deep.
\<close>

lemma json_loads_dumps: "loadable j \<Longrightarrow> json_loads (dumps j) = Some (Inr j)"
proof -
  assume "loadable j"
  then have "scan_value (json_fuel (dumps j)) 0 (dumps j @ []) = Done j []"
    by (intro scan_value_dumps) (simp_all add: loadable_def json_fuel_def value_end_def)
  moreover have "skip_ws (dumps j) = dumps j" using skip_ws_dumps[of j "[]"] by simp
  ultimately show ?thesis by (simp add: json_loads_def scan_document_def ascii_utf8_dumps skip_ws_def)
qed

section \<open>An integer literal over the digit limit\<close>

lemma json_loads_int_limit:
  "max_str_digits < length (nat_str (nat \<bar>i\<bar>)) \<Longrightarrow>
   json_loads (int_str i) = Some (Inl (int_limit_error (length (nat_str (nat \<bar>i\<bar>)))))"
proof -
  assume big: "max_str_digits < length (nat_str (nat \<bar>i\<bar>))"
  obtain c cs where c: "int_str i = c # cs" "c \<noteq> dquote" "c \<noteq> CHR ''[''" "c \<noteq> CHR ''{''"
    using int_str_first by blast
  have sk: "skip_ws (int_str i) = int_str i" using skip_ws_dumps[of "JInt i" "[]"] by simp
  have asc: "ascii_utf8 (int_str i)" using ascii_utf8_dumps[of "JInt i"] by simp
  have lit: "scan_literal (int_str i) = Bad (int_limit_error (length (nat_str (nat \<bar>i\<bar>))))"
    using scan_literal_int_str[of "[]" i] big by (simp add: value_end_def)
  obtain f where f: "json_fuel (int_str i) = Suc f" by (simp add: json_fuel_def)
  have "scan_value (Suc f) 0 (int_str i) = scan_literal (int_str i)"
    using c by simp
  then have "scan_document (int_str i) = Bad (int_limit_error (length (nat_str (nat \<bar>i\<bar>))))"
    using lit sk f by (simp add: scan_document_def)
  with asc show ?thesis by (simp add: json_loads_def)
qed

end
