(* ===== verification/RequestBody.thy ===== *)
theory RequestBody
  imports Handlers JsonRoundTrip
begin

text \<open>
  The step between the bytes of a request and the \<open>req_body\<close> the handlers of
  Handlers take: \<^verbatim>\<open>body = json_decode(self.request.body)\<close> in
  \<^verbatim>\<open>CreateTaskHandler.post\<close> and \<^verbatim>\<open>CreateTaskQueueHandler.post\<close>, with the decoder of
  JsonDecode. The handlers were written against an abstract body, a JSON value or a
  decoding error with its message; here the decoder is shown to refine it, and the
  creation handler of \<^verbatim>\<open>/api/tasks/create\<close> is run on raw bodies: a blank body and a body holding an
  integer over CPython's digit limit.
\<close>

section \<open>From bytes to a request\<close>

text \<open>
  What \<^verbatim>\<open>json_decode(self.request.body)\<close> returns or raises, as a \<open>req_body\<close>;
  \<open>None\<close> on the bodies the decoder does not model.
\<close>

definition body_of_bytes :: "string \<Rightarrow> req_body option" where
  "body_of_bytes b =
     (case json_loads b of
        Some (Inr j) \<Rightarrow> Some (Body j)
      | Some (Inl (ValueError m)) \<Rightarrow> Some (MalformedBody m)
      | _ \<Rightarrow> None)"

definition request_of_bytes :: "(string \<times> string) list \<Rightarrow> string \<Rightarrow> request option" where
  "request_of_bytes args b = map_option (\<lambda>rb. \<lparr>req_args = args, req_body = rb\<rparr>) (body_of_bytes b)"

section \<open>Lemmas: bodies\<close>

lemma body_of_bytes_Inl:
  "json_loads b = Some (Inl e) \<Longrightarrow> \<exists>m. e = ValueError m \<and> body_of_bytes b = Some (MalformedBody m)"
  using json_loads_Inl[of b e] by (auto simp add: body_of_bytes_def)

text \<open>A body the decoder refuses: the creation handler answers with the decoder's exception.\<close>

lemma create_post_decode_error:
  assumes "json_loads b = Some (Inl e)"
  shows "map_option (\<lambda>rq. create_task_post B rq w) (request_of_bytes args b) =
           Some (error_response (create_error_msg e), w)"
proof -
  obtain m where "e = ValueError m" "body_of_bytes b = Some (MalformedBody m)"
    using body_of_bytes_Inl[OF assms] by blast
  then show ?thesis by (simp add: request_of_bytes_def create_malformed_body)
qed

section \<open>Properties\<close>

text \<open>
  The decoder refines the body the handlers were written against: on every body
  the model decodes, \<^verbatim>\<open>json_decode(self.request.body)\<close> returns or raises exactly
  what the handlers' \<open>json_decode\<close> of the corresponding \<open>req_body\<close> does; in
  particular every exception it raises is a \<^verbatim>\<open>ValueError\<close> (a
  \<^verbatim>\<open>JSONDecodeError\<close> or the digit limit), whose text the handlers report.
\<close>

lemma body_of_bytes_refines: "map_option json_decode (body_of_bytes b) = json_loads b"
proof (cases "json_loads b")
  case (Some r)
  then show ?thesis
  proof (cases r)
    case (Inl e)
    with Some body_of_bytes_Inl[of b e] show ?thesis by auto
  qed (simp add: body_of_bytes_def)
qed (simp add: body_of_bytes_def)

text \<open>
  C31: a creation request whose body is empty or whitespace only is answered, by
  \<^verbatim>\<open>CreateTaskHandler\<close> for every \<^verbatim>\<open>type\<close>, with the creation error carrying CPython's
  \<^verbatim>\<open>"Expecting value: line L column C (char P)"\<close> at the end of the body, and nothing
  is created, whatever the backend.
\<close>

theorem create_blank_body:
  "list_all is_ws b \<Longrightarrow>
     map_option (\<lambda>rq. create_task_post B rq w) (request_of_bytes args b) =
       Some (error_response (create_error_msg (decode_error b expecting_value_msg [])), w)"
  by (intro create_post_decode_error json_loads_blank)

text \<open>
  C32: a creation request whose body is an integer of more than 4300 digits is
  answered by \<^verbatim>\<open>CreateTaskHandler\<close> with the creation error carrying the digit-limit
  \<^verbatim>\<open>ValueError\<close>, and nothing is created, whatever the backend.
\<close>

theorem create_int_over_limit:
  "max_str_digits < length (nat_str (nat \<bar>i\<bar>)) \<Longrightarrow>
     map_option (\<lambda>rq. create_task_post B rq w) (request_of_bytes args (int_str i)) =
       Some (error_response (create_error_msg (int_limit_error (length (nat_str (nat \<bar>i\<bar>))))), w)"
  by (intro create_post_decode_error json_loads_int_limit)

end
