(* ===== verification/Spec2Isabelle.thy ===== *)
theory Spec2Isabelle
  imports System RequestBody
begin

text \<open>
  \<^bold>\<open>A verification model of the task server of \<^verbatim>\<open>src/server.py\<close>.\<close>

  \<^bold>\<open>The program.\<close> \<^verbatim>\<open>src/server.py\<close> is a Tornado application with four routes
  (\<^verbatim>\<open>make_app\<close>): \<^verbatim>\<open>POST /api/tasks/create\<close> (\<^verbatim>\<open>CreateTaskHandler.post\<close>) makes a
  \<^verbatim>\<open>TaskItem\<close>, records it through \<^verbatim>\<open>TaskCrud.create_task\<close> and dispatches the
  request body either in-process (\<^verbatim>\<open>TaskSpawner.run_task\<close>, \<^verbatim>\<open>type=process\<close>) or
  to the message queue (\<^verbatim>\<open>publisher.publish_task\<close>, \<^verbatim>\<open>type=queue\<close>, the default);
  \<^verbatim>\<open>GET /api/tasks/list\<close> (\<^verbatim>\<open>ListTaskHandler.get\<close>) returns one task or the first
  \<^verbatim>\<open>limit\<close> tasks; \<^verbatim>\<open>GET /api/results\<close> (\<^verbatim>\<open>ResultsHandler.get\<close>) serves a result
  cache-aside: Redis first, then \<^verbatim>\<open>TaskCrud.get_results\<close>, writing the result to Redis
  unless its status is \<open>PENDING\<close>; \<^verbatim>\<open>GET /api/health\<close> answers \<^verbatim>\<open>{"status": "up"}\<close>.
  Every handler extends \<^verbatim>\<open>BaseHandler\<close>, whose \<^verbatim>\<open>error\<close> answers HTTP 500 with the
  \<^verbatim>\<open>ServerResponse\<close> envelope. \<^verbatim>\<open>__main__\<close> listens on port 8888 and installs a
  \<^verbatim>\<open>PeriodicCallback\<close> calling \<^verbatim>\<open>publisher.process_data_events()\<close>.
  \<^verbatim>\<open>CreateTaskQueueHandler\<close> (queue-only creation) is defined but not routed.

  \<^bold>\<open>The theories.\<close>
  \<^item> \<open>Prelude\<close>: Python exceptions (\<open>exn\<close>); calls that change a state and may raise,
    \<open>('a, 'w) res\<close>, sequenced by \<open>bindR\<close> as the statements of a \<^verbatim>\<open>try\<close> block are;
    the built-ins the handlers use on strings (truthiness, \<^verbatim>\<open>str.strip\<close>,
    \<^verbatim>\<open>sep.join\<close>, \<^verbatim>\<open>str(int)\<close>, \<^verbatim>\<open>int(str)\<close>) with the round trip
    \<open>int_literal (int_str i) = Some i\<close>; \<open>py_int\<close> carries CPython's limit of 4300
    digits on \<^verbatim>\<open>int()\<close> of a string (\<open>int_over_limit\<close>, \<open>int_limit_error\<close>).
  \<^item> \<open>Json\<close>: JSON values, \<^verbatim>\<open>dict.get\<close>, \<^verbatim>\<open>json.dumps(..., default=str)\<close> as
    \<open>dumps\<close> and Tornado's \<^verbatim>\<open>json_encode\<close> (which escapes \<^verbatim>\<open></\<close>).
  \<^item> \<open>JsonDecode\<close>: \<^verbatim>\<open>json_decode(self.request.body)\<close> (lines 97 and 128), that is
    \<^verbatim>\<open>json.loads\<close> with CPython's scanner: \<open>scan_str\<close> (escapes, control characters),
    \<open>scan_number\<close> (integers, the digit limit), \<open>scan_value\<close> / \<open>scan_items\<close> /
    \<open>scan_members\<close> (arrays, objects with Python's dict semantics for repeated keys),
    \<open>scan_document\<close> (trailing data), and \<open>json_loads\<close> with the
    \<^verbatim>\<open>JSONDecodeError\<close> messages \<^verbatim>\<open>"msg: line L column C (char P)"\<close>.
  \<^item> \<open>JsonRoundTrip\<close>: \<open>dumps\<close> followed by \<open>json_loads\<close> is the identity on the
    values the decoder can return.
  \<^item> \<open>Task\<close>: \<^verbatim>\<open>TaskStatus\<close>, \<^verbatim>\<open>TaskItem\<close> and \<^verbatim>\<open>as_json\<close>, the identifier
    generator \<open>tid_of\<close> (\<open>T1, T2, ...\<close>), and the abstract lifecycle: the inductive
    \<open>lifecycle_step\<close> (\<open>PENDING \<rightarrow> SUCCESS\<close>, \<open>PENDING \<rightarrow> ERROR\<close>) and
    \<open>task_evolves\<close>, the lifecycle of one identifier including its creation.
  \<^item> \<open>Backend\<close>: the interface between the handlers and their collaborators, a
    record of operations over any world type (dependency injection of the module's
    global \<^verbatim>\<open>publisher\<close> and \<^verbatim>\<open>redis\<close>, as the spec's section 9 asks).
  \<^item> \<open>Handlers\<close>: \<^verbatim>\<open>BaseHandler\<close> and the five handlers of \<^verbatim>\<open>src/server.py\<close> for
    any backend: \<open>create_task_post\<close>, \<open>create_task_queue_post\<close>, \<open>list_task_get\<close>,
    \<open>results_get\<close>, \<open>health_get\<close>, each with the \<^verbatim>\<open>try\<close> block as its own function
    (\<open>create_task_try\<close>, \<open>results_try\<close>, ...). A handler returns the response
    (status, headers, written chunks) and the world. Tornado's
    \<^verbatim>\<open>get_argument\<close> (last value, control characters blanked, stripped) is modelled.
    Lemmas here hold for every backend.
  \<^item> \<open>World\<close>: the collaborators, modelled from the spec because their code is not
    among the sources: the Task Record Store (\<^verbatim>\<open>TaskCrud\<close>), the Result Cache
    (\<^verbatim>\<open>RedisCache\<close>), the Work Queue (\<^verbatim>\<open>Publisher\<close>, draining the queue on
    \<^verbatim>\<open>process_data_events\<close>), the executor (\<^verbatim>\<open>TaskSpawner\<close>), as one world record
    with a log of the calls made and a set of services that are down (faults are
    values: a call to a down service raises). \<open>world_backend\<close> is the backend they
    form. The invariant \<open>wf\<close>: the store is well formed with fresh identifiers, the
    cache is coherent (each entry is the serialised results of a terminal task), and
    queued messages name stored tasks; each collaborator call keeps it.
  \<^item> \<open>System\<close>: the handlers on \<open>world_backend\<close>; routing (\<open>make_app\<close>,
    \<open>handler_method\<close>, \<open>serve\<close>, with Tornado's 404 and 405); the server's steps
    (\<open>server_step\<close>: a request, a tick of the periodic callback, a service failing or
    recovering); the reachable worlds (\<open>reachable\<close>, an inductive set from the empty
    world); and the theorems that span the components.
  \<^item> \<open>RequestBody\<close>: the bytes of a request to the \<open>req_body\<close> the handlers take
    (\<open>body_of_bytes\<close>, \<open>request_of_bytes\<close>); the decoder refines that abstract body,
    and the creation handler runs on raw bodies.
  \<^item> \<open>Spec2Isabelle\<close> (this theory): the worlds of the spec's scenarios (section 8)
    and the witnesses of the theorems with hypotheses, evaluated on them.

  \<^bold>\<open>What is proved.\<close>
  \<^item> Invariant: \<open>wf\<close> holds in every reachable world (each handler and each step
    keeps it); hence the cache is coherent (C2).
  \<^item> Refinement: the cache-aside read path answers exactly what a store read answers
    (C1).
  \<^item> End to end, on any reachable server with its services up: a task created in
    \<^verbatim>\<open>queue\<close> mode is completed by one tick of the periodic callback, whatever was
    queued before it, and the first results query answers its terminal row and caches
    it (C17); in \<^verbatim>\<open>process\<close> mode the creation request runs it (C18). Their
    witnesses are the spec's scenarios of section 8.
  \<^item> Functional behaviour of each branch of the results handler (C3, C4, C5, C10,
    C11, C12, C23, C27), repeated reads served from the cache and the store read
    exactly once over any number of queries (C19, C29), task creation
    (C6, C7, C8, C24, C25, C26, C28), the listing (C16, C21, C22, C34, C35), the
    response shape of every handler with the content type Tornado sets for a dict
    (C14), the health answer (C33), no \<^verbatim>\<open></\<close> in a creation response (C15).
  \<^item> Routing: \<^verbatim>\<open>make_app\<close> sends each method and path to the handler it names, and
    everything else to Tornado's 404 or 405 (C20).
  \<^item> Request bodies: a blank body is answered with \<^verbatim>\<open>"Expecting value"\<close> at its
    end (C31). Lemmas of the decoder: it always returns
    (\<open>JsonDecode.scan_document_terminates\<close>), \<^verbatim>\<open>loads\<close> inverts \<^verbatim>\<open>dumps\<close>
    (\<open>JsonRoundTrip.json_loads_dumps\<close>), and it refines the handlers' abstract body,
    every decoding exception being a \<^verbatim>\<open>ValueError\<close>
    (\<open>RequestBody.body_of_bytes_refines\<close>).
  \<^item> Bounds: a \<^verbatim>\<open>limit\<close> or a body integer of more than 4300 digits is answered with
    CPython's digit-limit \<^verbatim>\<open>ValueError\<close> (C30, C32); a stored result holding such an
    integer makes \<^verbatim>\<open>dumps\<close> raise, so its results query fails and nothing is cached
    (C9). The results theorems C1, C3, C4, C11, C12, C17, C18, C19, C29 assume the
    stored result's integers fit. A \<^verbatim>\<open>limit\<close> that is not an integer is answered
    with the text of \<^verbatim>\<open>int()\<close>'s \<^verbatim>\<open>ValueError\<close>, which ends in CPython's
    \<^verbatim>\<open>repr\<close> of the argument cut at 200 characters (C21).
  \<^item> Liveness: one tick of the periodic callback with the store and the broker up
    brings every queued task to a terminal status (C13).

  \<^bold>\<open>Bounds and termination.\<close> The handlers need no fuel: every function there is
  total by structural recursion (\<open>drain\<close> recurses on the snapshot of the queue) or
  by an automatic measure (\<open>nat_str\<close>). The JSON scanner recurses through nested
  values, so it takes fuel, one unit per call of \<open>scan_value\<close>, \<open>scan_items\<close> or
  \<open>scan_members\<close>; \<open>json_fuel\<close> gives twice the body's length plus two, which is
  always enough (\<open>scan_document_terminates\<close>: each call either consumes input or is
  the last of its loop).
  Nesting is bounded by \<open>json_depth_bound\<close> = 100: beyond it CPython raises
  \<^verbatim>\<open>RecursionError\<close> at a depth that depends on the interpreter's stack, so the model
  claims nothing there. Python integers are \<open>int\<close>; the one bound on them is
  CPython's 4300-digit limit on conversion between \<open>str\<close> and \<open>int\<close>
  (\<open>max_str_digits\<close>), modelled for \<^verbatim>\<open>int(limit)\<close>, for integer literals in a
  body, and for the serialisers (\<open>dumps_error\<close>, \<open>py_dumps\<close>, \<open>json_encode\<close>), which
  raise on the first oversized integer they meet.

  \<^bold>\<open>Not modelled.\<close> Logging (\<^verbatim>\<open>logger.info\<close>, the access log), the HTTP wire format
  and headers other than \<^verbatim>\<open>Content-Type\<close>; in request bodies, floats, \<^verbatim>\<open>NaN\<close> and
  \<^verbatim>\<open>Infinity\<close>, \<^verbatim>\<open>\uXXXX\<close> escapes above \<^verbatim>\<open>\u00ff\<close> (characters are bytes), nesting of
  100 or more, and bodies that are not ASCII or that \<^verbatim>\<open>json.detect_encoding\<close> reads
  as UTF-16/32 (the decoder returns \<open>None\<close> on them); arguments with characters above
  \<^verbatim>\<open>U+00FF\<close> (so \<^verbatim>\<open>repr\<close> is modelled on byte characters);
  \<^verbatim>\<open>Base.metadata.create_all\<close> and the database schema, the AMQP and Redis wire
  protocols, and time (the periodic callback is a step that the scheduler may take at
  any point between requests; requests are handled one at a time, as Tornado's single
  event loop runs these synchronous handlers). The collaborators outside
  \<^verbatim>\<open>src/\<close> follow the spec: an update of a task no longer \<open>PENDING\<close> is a no-op
  (section 4.3, implementer's choice), and a \<^verbatim>\<open>None\<close> key is refused by Redis, as
  redis-py does. What the database engine does with a negative \<^verbatim>\<open>LIMIT\<close> differs
  between engines and the spec leaves it open, so it is a parameter of the world
  (\<open>neg_limit\<close>): no bound, or an exception; the theorems hold for both.

  \<^bold>\<open>Findings.\<close> A failed cache write after a successful store read fails the
  whole results query with HTTP 500 (C11), where the spec says it is only logged; an
  unknown identifier is answered with the generic 500 error, not a not-found answer
  (C10); the status gate reads \<^verbatim>\<open>db_results.get("task", {}).get("status", "")\<close>, so a
  result with no status is cached as if terminal (C12); \<^verbatim>\<open>CreateTaskQueueHandler\<close>
  is unreachable (C20); an unsupported \<^verbatim>\<open>type\<close> or a failed publish leaves a
  \<open>PENDING\<close> record that nothing will complete (C7, C24); an unreachable cache
  fails every results query though the store is up (C23); a results query without
  \<^verbatim>\<open>task_id\<close> is an error, not the listing the spec describes (C27); a \<^verbatim>\<open>limit\<close>
  over 4300 digits and a blank creation body are answered HTTP 500 with Python's
  \<^verbatim>\<open>ValueError\<close> text, not as client errors (C30, C31); a task whose result holds an
  integer over 4300 digits can never be read back: every results query for it fails
  with HTTP 500 (C9); the sign of \<^verbatim>\<open>limit\<close> is not checked, so a negative one gets
  whatever the database engine answers (C35).

  \<^bold>\<open>Further work.\<close> Floats in request bodies; interleavings of
  several in-flight requests with the periodic callback (the spec's concurrency
  section) as a step relation with traces; double dispatch of one identifier.
\<close>

section \<open>The scenarios of the spec, section 8\<close>

text \<open>
  The work the consumer and the executor perform in the scenarios: the payload
  \<^verbatim>\<open>{"x": 1}\<close> yields \<^verbatim>\<open>{"y": 2}\<close>, every other payload fails.
\<close>

definition demo_work :: "json \<Rightarrow> string + json" where
  "demo_work j =
     (if j = JObj [(''x'', JInt 1)] then Inr (JObj [(''y'', JInt 2)]) else Inl ''cannot process payload'')"

definition post_create :: "string \<Rightarrow> json \<Rightarrow> http_request" where
  "post_create ty body =
     \<lparr>req_path = ''/api/tasks/create'', req_method = POST,
      req = \<lparr>req_args = [(''type'', ty)], req_body = Body body\<rparr>\<rparr>"

definition get_results_of :: "string \<Rightarrow> http_request" where
  "get_results_of t =
     \<lparr>req_path = ''/api/results'', req_method = GET,
      req = \<lparr>req_args = [(''task_id'', t)], req_body = MalformedBody ''Expecting value''\<rparr>\<rparr>"

definition demo_w0 :: world where
  "demo_w0 = init_world demo_work None"

definition demo_w1 :: world where
  "demo_w1 = server_step demo_w0 (HttpRequest (post_create ''queue'' (JObj [(''x'', JInt 1)])))"

definition demo_w2 :: world where
  "demo_w2 = server_step demo_w1 PollTick"

definition demo_w3 :: world where
  "demo_w3 = server_step demo_w2 (HttpRequest (get_results_of ''T1''))"

definition demo_p1 :: world where
  "demo_p1 = server_step demo_w0 (HttpRequest (post_create ''process'' (JObj [(''x'', JInt 2)])))"

definition row_T1_pending :: task_row where
  "row_T1_pending = \<lparr>row_id = ''T1'', row_status = PENDING, row_result = JNull\<rparr>"

definition row_T1_done :: task_row where
  "row_T1_done = \<lparr>row_id = ''T1'', row_status = SUCCESS, row_result = JObj [(''y'', JInt 2)]\<rparr>"

definition row_T1_failed :: task_row where
  "row_T1_failed = \<lparr>row_id = ''T1'', row_status = ERROR, row_result = JStr ''cannot process payload''\<rparr>"

text \<open>
  A backend whose \<^verbatim>\<open>TaskItem()\<close> gives an identifier containing \<^verbatim>\<open></\<close>, and a listing
  request with \<^verbatim>\<open>limit=1\<close>.
\<close>

definition demo_close_backend :: "world backend" where
  "demo_close_backend =
     world_backend\<lparr>make_task_item := \<lambda>w. (\<lparr>item_id = ''a</b'', item_status = PENDING\<rparr>, w)\<rparr>"

definition demo_list_rq :: request where
  "demo_list_rq = \<lparr>req_args = [(''limit'', ''1'')], req_body = MalformedBody ''Expecting value''\<rparr>"

definition demo_bad_limit_rq :: request where
  "demo_bad_limit_rq =
     \<lparr>req_args = [(''limit'', [CHR ''a'', CHR 0x27, CHR ''b''])], req_body = MalformedBody ''Expecting value''\<rparr>"

definition demo_task_rq0 :: request where
  "demo_task_rq0 = \<lparr>req_args = [(''limit'', '''')], req_body = MalformedBody ''Expecting value''\<rparr>"

definition demo_neg_limit_rq :: request where
  "demo_neg_limit_rq = \<lparr>req_args = [(''limit'', ''-1'')], req_body = MalformedBody ''Expecting value''\<rparr>"

text \<open>PostgreSQL's refusal of a negative \<^verbatim>\<open>LIMIT\<close>, as SQLAlchemy raises it.\<close>

definition demo_pg_limit_error :: exn where
  "demo_pg_limit_error = DataError ''LIMIT must not be negative''"

definition demo_task_rq :: request where
  "demo_task_rq =
     \<lparr>req_args = [(''task_id'', ''T1''), (''limit'', ''5'')], req_body = MalformedBody ''Expecting value''\<rparr>"

text \<open>A stored result holding an integer of 4301 digits, beyond what \<^verbatim>\<open>str(int)\<close> converts.\<close>

definition demo_big_int :: int where
  "demo_big_int = 10 ^ 4300"

definition row_T1_big :: task_row where
  "row_T1_big = \<lparr>row_id = ''T1'', row_status = SUCCESS, row_result = JInt demo_big_int\<rparr>"

definition demo_wbig :: world where
  "demo_wbig = demo_w0\<lparr>store := [''T1'' \<mapsto> row_T1_big]\<rparr>"

lemmas demo_simps =
  demo_w0_def init_world_def post_create_def get_results_of_def demo_work_def
  serve_def make_app_def create_task_post_def create_task_try_def results_get_def results_try_def
  results_status_def task_json_def
  get_argument_or_def get_argument_def remove_control_chars_def py_strip_def py_isspace_def
  world_ops_defs returnR_def raiseR_def Let_def log_call_def new_task_item_def tid_of_def
  nat_str.simps publisher_process_data_events_def py_dumps_eq

lemma demo_w1_eq:
  "demo_w1 = demo_w0\<lparr>store := [''T1'' \<mapsto> row_T1_pending], created := [''T1''], next_id := 2,
     queue := [(''T1'', JObj [(''x'', JInt 1)])], calls := [CallCreate ''T1'', CallPublish ''T1'']\<rparr>"
  by (simp add: demo_w1_def row_T1_pending_def demo_simps)

lemma demo_w2_eq:
  "demo_w2 = demo_w0\<lparr>store := [''T1'' \<mapsto> row_T1_done], created := [''T1''], next_id := 2, queue := [],
     calls := [CallCreate ''T1'', CallPublish ''T1'', CallDeliver ''T1'', CallUpdate ''T1'' SUCCESS]\<rparr>"
  by (simp add: demo_w2_def demo_w1_eq row_T1_pending_def row_T1_done_def)
     (simp add: demo_simps)

lemma demo_reachable:
  "reachable demo_w0" "reachable demo_w1" "reachable demo_w2" "reachable demo_w3" "reachable demo_p1"
  unfolding demo_w3_def demo_w2_def demo_w1_def demo_p1_def demo_w0_def
  by (intro reachable.step reachable.start)+

lemma demo_args:
  "get_argument ''task_id'' (req_args (req (get_results_of t))) = Some t \<longleftrightarrow> py_strip (remove_control_chars t) = t"
  "get_argument_or ''type'' ''queue'' (req_args (req (post_create ty b))) = py_strip (remove_control_chars ty)"
  "req_body (req (post_create ty b)) = Body b"
  "req_path (get_results_of t) = ''/api/results''" "req_method (get_results_of t) = GET"
  by (simp_all add: get_results_of_def post_create_def get_argument_def get_argument_or_def)

lemma demo_facts:
  "down demo_w0 = {}" "down demo_w1 = {}" "down demo_w2 = {}"
  "get_argument ''task_id'' (req_args (req (get_results_of ''T1''))) = Some ''T1''"
  "get_argument ''task_id'' (req_args (req (get_results_of ''T9''))) = Some ''T9''"
  "store demo_w0 = Map.empty" "cache demo_w0 = Map.empty"
  by (simp_all add: demo_w1_eq demo_w2_eq demo_simps)

lemma demo_payloads: "JObj [(''x'', JInt 2)] \<noteq> JObj [(''x'', JInt 1)]"
  by simp

lemma demo_w3_eq:
  "demo_w3 = demo_w2\<lparr>cache := [''T1'' \<mapsto> dumps (results_json row_T1_done)],
     calls := calls demo_w2 @ [CallRedisGet (Some ''T1''), CallGetResults (Some ''T1''), CallRedisSet (Some ''T1'')]\<rparr>"
  by (simp add: demo_w3_def demo_w2_eq row_T1_done_def)
     (simp add: demo_simps as_json_def results_json_def row_json_def)

section \<open>The properties at concrete inputs\<close>

text \<open>
  Each property with hypotheses, applied to a world of the scenarios where its
  hypotheses hold.
\<close>

theorem results_cache_transparent_witness:
  "fst (results_get world_backend (req (get_results_of ''T1'')) demo_w2) =
     ok_response (ChunkStr (dumps (results_json row_T1_done)))"
  by (rule results_cache_transparent[OF demo_reachable(3), where t="''T1''"])
     (simp_all add: demo_facts demo_w2_eq row_T1_done_def)

theorem reachable_cache_coherent_witness:
  "\<exists>r. store demo_w3 ''T1'' = Some r \<and> terminal (row_status r) \<and>
     dumps (results_json row_T1_done) = dumps (results_json r)"
  by (rule reachable_cache_coherent[OF demo_reachable(4)]) (simp add: demo_w3_eq)
theorem results_pending_not_cached_witness:
  "results_get world_backend (req (get_results_of ''T1'')) demo_w1 =
     (ok_response (ChunkStr (dumps (results_json row_T1_pending))),
      demo_w1\<lparr>calls := calls demo_w1 @ [CallRedisGet (Some ''T1''), CallGetResults (Some ''T1'')]\<rparr>)"
  by (rule results_pending_not_cached[OF demo_reachable(2)]) (simp_all add: demo_facts demo_w1_eq row_T1_pending_def)

theorem results_first_read_populates_witness:
  "results_get world_backend (req (get_results_of ''T1'')) demo_w2 =
     (ok_response (ChunkStr (dumps (results_json row_T1_done))),
      demo_w2\<lparr>cache := (cache demo_w2)(''T1'' \<mapsto> dumps (results_json row_T1_done)),
        calls := calls demo_w2 @ [CallRedisGet (Some ''T1''), CallGetResults (Some ''T1''), CallRedisSet (Some ''T1'')]\<rparr>)"
  by (rule results_first_read_populates[OF demo_reachable(3)])
     (simp_all add: demo_facts demo_w2_eq row_T1_done_def demo_w0_def init_world_def)

theorem results_hit_no_store_read_witness:
  "results_get world_backend (req (get_results_of ''T1'')) demo_w3 =
     (ok_response (ChunkStr (dumps (results_json row_T1_done))), log_call (CallRedisGet (Some ''T1'')) demo_w3)"
  by (rule results_hit_no_store_read[OF demo_reachable(4)]) (simp_all add: demo_facts demo_w3_eq)

theorem create_queue_pending_witness:
  "create_task_post world_backend (req (post_create ''queue'' (JObj [(''x'', JInt 1)]))) demo_w0 =
     (created_response demo_w0,
      (with_new_task demo_w0)\<lparr>queue := queue demo_w0 @ [(tid_of (next_id demo_w0), JObj [(''x'', JInt 1)])],
         calls := calls (with_new_task demo_w0) @ [CallPublish (tid_of (next_id demo_w0))]\<rparr>)"
  by (rule create_queue_pending[OF demo_reachable(1)]) (simp_all add: demo_facts demo_args demo_simps)

theorem create_unsupported_type_witness:
  "create_task_post world_backend (req (post_create ''bogus'' (JObj []))) demo_w0 =
     (error_response (unsupported_type_msg ''bogus''), with_new_task demo_w0)"
  by (rule create_unsupported_type[OF demo_reachable(1)]) (simp_all add: demo_facts demo_args demo_simps)

theorem create_process_work_fails_witness:
  "create_task_post world_backend (req (post_create ''process'' (JObj [(''x'', JInt 2)]))) demo_w0 =
     (created_response demo_w0,
      (with_new_task demo_w0)\<lparr>
         store := (store demo_w0)(tid_of (next_id demo_w0) \<mapsto>
            \<lparr>row_id = tid_of (next_id demo_w0), row_status = ERROR, row_result = JStr ''cannot process payload''\<rparr>),
         calls := calls (with_new_task demo_w0) @
            [CallRun (tid_of (next_id demo_w0)), CallUpdate (tid_of (next_id demo_w0)) ERROR]\<rparr>)"
  by (rule create_process_work_fails[OF demo_reachable(1)]) (simp_all add: demo_facts demo_args demo_simps demo_payloads, simp add: demo_payloads)

theorem queue_task_lifecycle_witness:
  "fst (serve world_backend (post_create ''queue'' (JObj [(''x'', JInt 1)])) demo_w0) = created_response demo_w0 \<and>
   fst (serve world_backend (get_results_of ''T1'') demo_w2) =
     ok_response (ChunkStr (dumps (results_json row_T1_done))) \<and>
   cache (server_step demo_w2 (HttpRequest (get_results_of ''T1''))) ''T1'' = Some (dumps (results_json row_T1_done))"
proof -
  have t: "tid_of (next_id demo_w0) = ''T1''" by (simp add: demo_simps)
  have r: "complete_row (new_row ''T1'') (work demo_w0 (JObj [(''x'', JInt 1)])) = row_T1_done"
    by (simp add: demo_simps complete_row_def new_row_def row_T1_done_def)
  have e: "run_events demo_w0 [HttpRequest (post_create ''queue'' (JObj [(''x'', JInt 1)])), PollTick] = demo_w2"
    by (simp add: demo_w2_def demo_w1_def)
  show ?thesis
    using queue_task_lifecycle[OF demo_reachable(1), where hc="post_create ''queue'' (JObj [(''x'', JInt 1)])"
        and cases="JObj [(''x'', JInt 1)]" and hq="get_results_of ''T1''"]
    unfolding t r e
    by (simp add: demo_facts demo_args row_T1_done_def, simp add: demo_simps)
qed

theorem process_task_lifecycle_witness:
  "fst (serve world_backend (post_create ''process'' (JObj [(''x'', JInt 2)])) demo_w0) = created_response demo_w0 \<and>
   fst (serve world_backend (get_results_of ''T1'') demo_p1) =
     ok_response (ChunkStr (dumps (results_json row_T1_failed))) \<and>
   cache (server_step demo_p1 (HttpRequest (get_results_of ''T1''))) ''T1'' = Some (dumps (results_json row_T1_failed))"
proof -
  have t: "tid_of (next_id demo_w0) = ''T1''" by (simp add: demo_simps)
  have r: "complete_row (new_row ''T1'') (work demo_w0 (JObj [(''x'', JInt 2)])) = row_T1_failed"
    by (simp add: demo_simps complete_row_def new_row_def row_T1_failed_def)
  show ?thesis
    using process_task_lifecycle[OF demo_reachable(1), where hc="post_create ''process'' (JObj [(''x'', JInt 2)])"
        and cases="JObj [(''x'', JInt 2)]" and hq="get_results_of ''T1''"]
    unfolding t r demo_p1_def[symmetric]
    by (simp add: demo_facts demo_args row_T1_failed_def, simp add: demo_simps)
qed

theorem results_dumps_over_limit_witness:
  "results_get world_backend (req (get_results_of ''T1'')) demo_wbig =
     (error_response (results_error_msg int_str_limit_error),
      log_call (CallGetResults (Some ''T1'')) (log_call (CallRedisGet (Some ''T1'')) demo_wbig))"
proof (rule results_dumps_over_limit[of "req (get_results_of ''T1'')" "''T1''" world_backend demo_wbig
      "log_call (CallRedisGet (Some ''T1'')) demo_wbig" "results_json row_T1_big"])
  show "get_argument ''task_id'' (req_args (req (get_results_of ''T1''))) = Some ''T1''"
    by (simp add: demo_facts)
  show "redis_get world_backend (Some ''T1'') demo_wbig =
      Inr (None, log_call (CallRedisGet (Some ''T1'')) demo_wbig)"
    by (simp add: cache_get_def returnR_def Let_def demo_wbig_def demo_w0_def init_world_def)
  show "get_results world_backend (Some ''T1'') (log_call (CallRedisGet (Some ''T1'')) demo_wbig) =
      Inr (results_json row_T1_big,
           log_call (CallGetResults (Some ''T1'')) (log_call (CallRedisGet (Some ''T1'')) demo_wbig))"
    by (simp add: crud_get_results_def returnR_def Let_def demo_wbig_def demo_w0_def init_world_def log_call_def)
  have "length (nat_str (nat \<bar>demo_big_int\<bar>)) = 4301"
    unfolding demo_big_int_def by (simp only: nat_abs_pow10 length_nat_str_pow10)
  then show "\<not> ints_fit (results_json row_T1_big)"
    by (simp add: row_T1_big_def max_str_digits_def)
qed

theorem results_unknown_task_witness:
  "results_get world_backend (req (get_results_of ''T9'')) demo_w0 =
     (error_response (results_error_msg (TaskNotFound (''Task '' @ ''T9'' @ '' not found''))),
      demo_w0\<lparr>calls := calls demo_w0 @ [CallRedisGet (Some ''T9''), CallGetResults (Some ''T9'')]\<rparr>)"
  by (rule results_unknown_task[OF demo_reachable(1)]) (simp_all add: demo_facts)

theorem results_cache_write_failure_witness:
  "fst (results_get world_backend (req (get_results_of ''T1'')) (server_step demo_w2 (ServiceFails CacheWrites))) =
     error_response (results_error_msg redis_readonly_error)"
  by (rule results_cache_write_failure[OF reachable.step[OF demo_reachable(3)], where t="''T1''" and r=row_T1_done])
     (simp_all add: demo_facts demo_w2_eq row_T1_done_def demo_w0_def init_world_def)

theorem results_gate_not_pending_witness:
  "results_try world_backend (Some ''T1'') demo_w2 = Inr (SavedResult (dumps (results_json row_T1_done)), demo_w3)"
  by (rule results_gate_not_pending[of world_backend "''T1''" demo_w2 "log_call (CallRedisGet (Some ''T1'')) demo_w2"
        "results_json row_T1_done"
        "log_call (CallGetResults (Some ''T1'')) (log_call (CallRedisGet (Some ''T1'')) demo_w2)"
        "JStr ''SUCCESS''" demo_w3])
     (simp_all add: demo_w2_eq demo_w3_eq row_T1_done_def demo_simps results_status_def results_json_def
        row_json_def)

theorem poll_completes_queued_witness:
  "queue (server_step demo_w1 PollTick) = [] \<and>
   (\<exists>r. store (server_step demo_w1 PollTick) ''T1'' = Some r \<and> terminal (row_status r))"
  using poll_completes_queued[OF demo_reachable(2)] by (simp add: demo_facts demo_w1_eq)
theorem create_response_no_close_tag_witness:
  "\<not> (\<exists>xs ys. escape_close_tag (dumps (task_json ''a</b'' PENDING)) = xs @ CHR ''<'' # CHR ''/'' # ys)"
  by (rule create_response_no_close_tag[where B=demo_close_backend
        and rq="req (post_create ''queue'' (JObj [(''x'', JInt 1)]))" and w=demo_w0])
     (simp add: demo_close_backend_def demo_simps as_json_def)

theorem list_tasks_limit_witness:
  "list_task_get world_backend demo_list_rq demo_w1 =
     (ok_response (ChunkStr (dumps (JList (map row_json (take 1 (List.map_filter (store demo_w1) (created demo_w1))))))),
      log_call CallGetTasks demo_w1)"
  by (rule list_tasks_limit[where n=1])
     (simp_all add: demo_facts demo_list_rq_def get_argument_def remove_control_chars_def py_strip_def
        py_isspace_def int_str_def nat_str.simps max_str_digits_def)

theorem list_all_tasks_witness:
  "list_task_get world_backend demo_task_rq0 demo_w1 =
     (ok_response (ChunkStr (dumps (JList (map row_json (List.map_filter (store demo_w1) (created demo_w1)))))),
      log_call CallGetTasks demo_w1)"
  by (rule list_all_tasks)
     (simp_all add: demo_facts demo_task_rq0_def get_argument_def truthy_opt_def remove_control_chars_def
        py_strip_def)

theorem list_limit_unchecked_sign_witness:
  "list_task_get world_backend demo_neg_limit_rq demo_w1 =
     (ok_response (ChunkStr (dumps (JList (map row_json (List.map_filter (store demo_w1) (created demo_w1)))))),
      log_call CallGetTasks demo_w1) \<and>
   list_task_get world_backend demo_neg_limit_rq (demo_w1\<lparr>neg_limit := Some demo_pg_limit_error\<rparr>) =
     (error_response (list_error_msg demo_pg_limit_error),
      log_call CallGetTasks (demo_w1\<lparr>neg_limit := Some demo_pg_limit_error\<rparr>))"
proof -
  have a: "get_argument ''limit'' (req_args demo_neg_limit_rq) = Some (int_str (-1))"
    "get_argument ''task_id'' (req_args demo_neg_limit_rq) = None"
    "length (nat_str (nat \<bar>-1::int\<bar>)) \<le> max_str_digits"
    by (simp_all add: demo_neg_limit_rq_def get_argument_def remove_control_chars_def py_strip_def
        py_isspace_def int_str_def nat_str.simps max_str_digits_def)
  have n: "neg_limit demo_w1 = None" by (simp add: demo_w1_eq demo_simps)
  show ?thesis
    using list_limit_unchecked_sign[of demo_w1 demo_neg_limit_rq "-1"]
      list_limit_unchecked_sign[of "demo_w1\<lparr>neg_limit := Some demo_pg_limit_error\<rparr>" demo_neg_limit_rq "-1"]
      a n by (simp add: demo_facts)
qed

theorem results_repeat_from_cache_witness:
  "results_get world_backend (req (get_results_of ''T1'')) (snd (results_get world_backend (req (get_results_of ''T1'')) demo_w2)) =
     (fst (results_get world_backend (req (get_results_of ''T1'')) demo_w2),
      log_call (CallRedisGet (Some ''T1'')) (snd (results_get world_backend (req (get_results_of ''T1'')) demo_w2)))"
  by (rule results_repeat_from_cache[OF demo_reachable(3), where t="''T1''" and r=row_T1_done])
     (simp_all add: demo_facts demo_w2_eq row_T1_done_def)

theorem list_invalid_limit_witness:
  "list_task_get world_backend demo_bad_limit_rq demo_w1 =
     (error_response (list_error_msg
        (ValueError (''invalid literal for int() with base 10: '' @ [dquote, CHR ''a'', CHR 0x27, CHR ''b'', dquote]))),
      demo_w1)"
  using list_invalid_limit[where rq=demo_bad_limit_rq and s="[CHR ''a'', CHR 0x27, CHR ''b'']"
      and B=world_backend and w=demo_w1]
  by (simp add: demo_bad_limit_rq_def get_argument_def remove_control_chars_def py_strip_def
      py_isspace_def int_literal_def digits_us_def is_digit_def int_over_limit_def int_digit_run_def
      int_invalid_msg_def py_repr_def py_repr_char_def Let_def)
theorem list_single_task_witness:
  "list_task_get world_backend demo_task_rq demo_w1 =
     (ok_response (ChunkStr (dumps (case store demo_w1 ''T1'' of None \<Rightarrow> JNull | Some r \<Rightarrow> row_json r))),
      log_call (CallGetTask ''T1'') demo_w1)"
  by (rule list_single_task)
     (simp_all add: demo_facts demo_task_rq_def get_argument_def remove_control_chars_def py_strip_def
        py_isspace_def)

theorem results_cache_down_witness:
  "results_get world_backend (req (get_results_of ''T1'')) (server_step demo_w2 (ServiceFails Cache)) =
     (error_response (results_error_msg redis_down_error),
      log_call (CallRedisGet (get_argument ''task_id'' (req_args (req (get_results_of ''T1'')))))
        (server_step demo_w2 (ServiceFails Cache)))"
  by (rule results_cache_down) simp

theorem create_publish_fails_witness:
  "create_task_post world_backend (req (post_create ''queue'' (JObj [(''x'', JInt 1)])))
       (server_step demo_w0 (ServiceFails Broker)) =
     (error_response (create_error_msg (AMQPError ''connection closed'')),
      (with_new_task (server_step demo_w0 (ServiceFails Broker)))\<lparr>calls :=
         calls (with_new_task (server_step demo_w0 (ServiceFails Broker))) @
           [CallPublish (tid_of (next_id (server_step demo_w0 (ServiceFails Broker))))]\<rparr>)"
  by (rule create_publish_fails[OF reachable.step[OF demo_reachable(1)]])
     (simp_all add: demo_facts demo_args demo_simps)

theorem create_db_down_witness:
  "create_task_post world_backend (req (post_create ''queue'' (JObj [(''x'', JInt 1)])))
       (server_step demo_w0 (ServiceFails Database)) =
     (error_response (create_error_msg db_down_error),
      (server_step demo_w0 (ServiceFails Database))\<lparr>
         next_id := Suc (next_id (server_step demo_w0 (ServiceFails Database))),
         calls := calls (server_step demo_w0 (ServiceFails Database)) @
           [CallCreate (tid_of (next_id (server_step demo_w0 (ServiceFails Database))))]\<rparr>)"
  by (rule create_db_down) (simp_all add: demo_args)

theorem create_process_succeeds_witness:
  "create_task_post world_backend (req (post_create ''process'' (JObj [(''x'', JInt 1)]))) demo_w0 =
     (created_response demo_w0,
      (with_new_task demo_w0)\<lparr>
         store := (store demo_w0)(tid_of (next_id demo_w0) \<mapsto>
            \<lparr>row_id = tid_of (next_id demo_w0), row_status = SUCCESS, row_result = JObj [(''y'', JInt 2)]\<rparr>),
         calls := calls (with_new_task demo_w0) @
            [CallRun (tid_of (next_id demo_w0)), CallUpdate (tid_of (next_id demo_w0)) SUCCESS]\<rparr>)"
  by (rule create_process_succeeds[OF demo_reachable(1)]) (simp_all add: demo_facts demo_args demo_simps)

theorem results_missing_task_id_witness:
  "results_get world_backend demo_list_rq demo_w0 =
     (error_response (results_error_msg none_key_error), log_call (CallRedisGet None) demo_w0)"
  by (rule results_missing_task_id) (simp_all add: demo_facts demo_list_rq_def get_argument_def)

theorem create_response_task_stored_witness:
  "escape_close_tag (dumps (task_json ''T1'' PENDING)) =
     escape_close_tag (dumps (task_json (tid_of (next_id demo_w0)) PENDING)) \<and>
   tid_of (next_id demo_w0) \<in>
     dom (store (snd (create_task_post world_backend (req (post_create ''process'' (JObj [(''x'', JInt 1)]))) demo_w0)))"
  by (rule create_response_task_stored)
     (simp add: demo_simps spawner_run_task_def complete_task_def as_json_def)

theorem results_store_read_once_witness:
  "calls (run_events demo_w2 (replicate (Suc 2) (HttpRequest (get_results_of ''T1'')))) =
     calls demo_w2 @ [CallRedisGet (Some ''T1''), CallGetResults (Some ''T1''), CallRedisSet (Some ''T1'')]
       @ replicate 2 (CallRedisGet (Some ''T1''))"
  by (rule results_store_read_once[OF demo_reachable(3), where r=row_T1_done])
     (simp_all add: demo_facts demo_args demo_w2_eq row_T1_done_def demo_w0_def init_world_def)
theorem list_limit_too_many_digits_witness:
  "list_task_get world_backend \<lparr>req_args = [(''limit'', int_str (10 ^ 4300))], req_body = MalformedBody []\<rparr> demo_w0 =
     (error_response (list_error_msg (int_limit_error 4301)), demo_w0)"
proof -
  have "list_task_get world_backend \<lparr>req_args = [(''limit'', int_str (10 ^ 4300))], req_body = MalformedBody []\<rparr> demo_w0 =
     (error_response (list_error_msg (int_limit_error (length (nat_str (nat \<bar>10 ^ 4300 :: int\<bar>))))), demo_w0)"
  proof (rule list_limit_too_many_digits)
    show "get_argument ''task_id'' (req_args \<lparr>req_args = [(''limit'', int_str (10 ^ 4300))], req_body = MalformedBody []\<rparr>) = None"
      unfolding request.select_convs by (rule get_argument_other) simp
    show "get_argument ''limit'' (req_args \<lparr>req_args = [(''limit'', int_str (10 ^ 4300))], req_body = MalformedBody []\<rparr>) =
        Some (int_str (10 ^ 4300))"
      by (simp only: request.select_convs get_argument_int_str)
    show "max_str_digits < length (nat_str (nat \<bar>10 ^ 4300 :: int\<bar>))"
      by (simp only: nat_abs_pow10 length_nat_str_pow10 max_str_digits_def)
  qed
  moreover have "length (nat_str (nat \<bar>10 ^ 4300 :: int\<bar>)) = 4301"
    by (simp only: nat_abs_pow10 length_nat_str_pow10)
  ultimately show ?thesis by (simp only:)
qed
theorem create_blank_body_witness:
  "map_option (\<lambda>rq. create_task_post world_backend rq demo_w0) (request_of_bytes [] [CHR '' '', CHR 0x0A, CHR '' '']) =
     Some (error_response (create_error_msg (ValueError ''Expecting value: line 2 column 2 (char 3)'')), demo_w0)"
proof -
  have c: "char_of (50::nat) = CHR ''2''" "char_of (51::nat) = CHR ''3''" by code_simp+
  show ?thesis
    using create_blank_body[of "[CHR '' '', CHR 0x0A, CHR '' '']" world_backend demo_w0 "[]"]
    by (simp add: is_ws_def decode_error_def expecting_value_msg_def nat_str.simps digit_char_def c)
qed

theorem create_int_over_limit_witness:
  "map_option (\<lambda>rq. create_task_post world_backend rq demo_w0) (request_of_bytes [] (int_str (10 ^ 4300))) =
     Some (error_response (create_error_msg (int_limit_error 4301)), demo_w0)"
proof -
  have "max_str_digits < length (nat_str (nat \<bar>10 ^ 4300 :: int\<bar>))"
    by (simp only: nat_abs_pow10 length_nat_str_pow10 max_str_digits_def)
  moreover have "length (nat_str (nat \<bar>10 ^ 4300 :: int\<bar>)) = 4301"
    by (simp only: nat_abs_pow10 length_nat_str_pow10)
  ultimately show ?thesis
    using create_int_over_limit[of "10 ^ 4300" world_backend demo_w0 "[]"] by (simp only:)
qed

end
